theory Spec2Isabelle
  imports Complex_Main
begin

unbundle bit_operations_syntax

section \<open>Errors\<close>

text \<open>
  Every exception the modelled code can raise is a value.  The Django exceptions
  (\<open>DoesNotExist\<close>, \<open>MultipleObjectsReturned\<close>, \<open>IntegrityError\<close>, \<open>FieldError\<close>) carry
  no data beyond the offending name; \<open>ValueError\<close> carries its argument tuple and
  \<open>KeyError\<close> the key that was not found.  \<open>OverflowError\<close> is what a float
  operation raises when its result is out of range.
\<close>

datatype error =
    ValueError "string list"
  | IndexError
  | DoesNotExist
  | MultipleObjectsReturned
  | IntegrityError
  | FieldError string
  | KeyError string
  | OverflowError
  | SSLCertVerificationError

section \<open>Floating-point numbers (Python \<open>float\<close>)\<close>

text \<open>
  A Python \<open>float\<close> is an IEEE-754 binary64 number, and every operation on floats gives
  the double nearest to the exact result, a tie going to the double with the even
  significand.  A finite double is a real number here.  \<open>ulp x\<close> is the spacing of the
  doubles at \<open>x\<close>: \<open>2 ^ (e - 52)\<close> where \<open>2 ^ e \<le> \<bar>x\<bar> < 2 ^ (e + 1)\<close>, and
  \<open>2 ^ (- 1074)\<close> for the subnormal numbers.  \<open>fl x\<close> is the rounding of the real number
  \<open>x\<close>, with the exponent not bounded above: a result of magnitude \<open>2 ^ 1024\<close> or more
  stands for an overflow, which the operation that produces it tests for.  The doubles
  are the numbers \<open>t\<close> with \<open>fl t = t\<close> and \<open>\<bar>t\<bar> < 2 ^ 1024\<close>.
\<close>

definition round_even :: "real \<Rightarrow> int" where
  "round_even x =
     (let f = \<lfloor>x\<rfloor>
      in if x - of_int f < 1 / 2 then f
         else if 1 / 2 < x - of_int f then f + 1
         else if even f then f else f + 1)"

definition ulp :: "real \<Rightarrow> real" where
  "ulp x = 2 powi (max (\<lfloor>log 2 \<bar>x\<bar>\<rfloor> - 52) (- 1074))"

definition fl :: "real \<Rightarrow> real" where
  "fl x = (if x = 0 then 0 else of_int (round_even (x / ulp x)) * ulp x)"

section \<open>Snowflake identifiers (takahe/models.py, class Snowflake)\<close>

definition EPOCH :: int where
  "EPOCH = 1641020400"

text \<open>Python's \<open>int(x)\<close> on a float truncates towards zero.\<close>

definition py_int :: "real \<Rightarrow> int" where
  "py_int x = (if 0 \<le> x then \<lfloor>x\<rfloor> else \<lceil>x\<rceil>)"

text \<open>
  \<open>generate\<close> reads the clock and the random source; both readings are arguments here:
  \<open>time\<close> is the value of \<open>time.time()\<close>, a float, and \<open>rand_seq\<close> the value of
  \<open>secrets.randbits(19)\<close>.  In \<open>int((time.time() - cls.EPOCH) * 1000)\<close> the integers
  convert to floats exactly, and the subtraction and the multiplication round once each.
  The difference of a double and \<open>EPOCH\<close> is finite; the product can overflow to an
  infinity, which \<open>int\<close> refuses with \<open>OverflowError\<close>.  Python integers are unbounded,
  so the identifier is an \<open>int\<close>.
\<close>

definition generate :: "real \<Rightarrow> int \<Rightarrow> int \<Rightarrow> error + int" where
  "generate time rand_seq type_id =
     (let ms = fl (fl (time - of_int EPOCH) * 1000)
      in if 2 ^ 1024 \<le> \<bar>ms\<bar> then Inl OverflowError
         else (let now = py_int ms
               in Inr (push_bit 22 now OR push_bit 3 rand_seq OR type_id)))"

definition get_type :: "int \<Rightarrow> error + int" where
  "get_type snowflake =
     (if snowflake < push_bit 22 1 then Inl (ValueError [''Not a valid Snowflake ID''])
      else Inr (snowflake AND 7))"

text \<open>
  In \<open>get_time\<close>, \<open>(snowflake >> 22) / 1000\<close> is the true division of two integers: the
  double nearest to the quotient, or \<open>OverflowError\<close> when that is too large for a float.
  Adding \<open>EPOCH\<close> rounds once more, and cannot overflow.
\<close>

definition get_time :: "int \<Rightarrow> error + real" where
  "get_time snowflake =
     (if snowflake < push_bit 22 1 then Inl (ValueError [''Not a valid Snowflake ID''])
      else (let seconds = fl (of_int (drop_bit 22 snowflake) / 1000)
            in if 2 ^ 1024 \<le> seconds then Inl OverflowError
               else Inr (fl (seconds + of_int EPOCH))))"

section \<open>Strings\<close>

text \<open>
  Strings are byte lists.  \<open>lower\<close> is Python's \<open>lower()\<close> on ASCII letters,
  \<open>split_at c\<close> is \<open>split(c)\<close> for a one-character separator (it always returns at
  least one part), \<open>is_infix\<close> is the \<open>in\<close> test on byte strings, and \<open>str_int\<close>
  is the decimal text an f-string produces for an integer.
\<close>

definition lower_char :: "char \<Rightarrow> char" where
  "lower_char c =
     (case map_of (zip ''ABCDEFGHIJKLMNOPQRSTUVWXYZ'' ''abcdefghijklmnopqrstuvwxyz'') c of
        None \<Rightarrow> c
      | Some l \<Rightarrow> l)"

definition lower :: "string \<Rightarrow> string" where
  "lower s = map lower_char s"

fun startswith :: "string \<Rightarrow> string \<Rightarrow> bool" where
  "startswith s [] = True"
| "startswith [] (p # ps) = False"
| "startswith (x # xs) (p # ps) = (x = p \<and> startswith xs ps)"

fun is_infix :: "string \<Rightarrow> string \<Rightarrow> bool" where
  "is_infix p [] = (p = [])"
| "is_infix p (x # xs) = (startswith (x # xs) p \<or> is_infix p xs)"

fun split_at :: "char \<Rightarrow> string \<Rightarrow> string list" where
  "split_at c [] = [[]]"
| "split_at c (x # xs) =
     (if x = c then [] # split_at c xs
      else (case split_at c xs of [] \<Rightarrow> [[x]] | p # ps \<Rightarrow> (x # p) # ps))"

definition digit_char :: "nat \<Rightarrow> char" where
  "digit_char d = ''0123456789'' ! d"

fun str_nat :: "nat \<Rightarrow> string" where
  "str_nat n = (if n < 10 then [digit_char n] else str_nat (n div 10) @ [digit_char (n mod 10)])"

declare str_nat.simps [simp del]

definition str_int :: "int \<Rightarrow> string" where
  "str_int i = (if i < 0 then CHR ''-'' # str_nat (nat (- i)) else str_nat (nat i))"

section \<open>The stored state\<close>

text \<open>
  Each Django model is a record of the columns the modelled operations read or write
  (timestamps and free-text columns that no modelled operation touches are left out);
  a table is the list of its rows in storage order, and a foreign key is stored as the
  primary key it refers to.  State names are \<open>CharField\<close> values, hence strings.
\<close>

record domain_row =
  domain_domain :: string
  domain_service_domain :: "string option"
  domain_local :: bool

record identity =
  identity_id :: int
  identity_actor_uri :: string
  identity_username :: "string option"
  identity_domain :: "string option"
  identity_local :: bool

record follow =
  follow_id :: int
  follow_source :: int
  follow_target :: int
  follow_boosts :: bool
  follow_uri :: "string option"
  follow_state :: string

record block =
  block_id :: int
  block_source :: int
  block_target :: int
  block_mute :: bool
  block_uri :: "string option"
  block_state :: string

text \<open>\<open>stats\<close> is a JSON object: a dict, kept as an association list in key order.\<close>

record post =
  post_id :: int
  post_author :: int
  post_object_uri :: "string option"
  post_in_reply_to :: "string option"
  post_stats :: "(string \<times> nat) list option"

record interaction =
  interaction_id :: int
  interaction_state :: string
  interaction_type :: string
  interaction_identity :: int
  interaction_post :: int

record db =
  domains :: "domain_row list"
  identities :: "identity list"
  follows :: "follow list"
  blocks :: "block list"
  posts :: "post list"
  interactions :: "interaction list"

subsection \<open>Query-set operations\<close>

text \<open>
  \<open>get_one\<close> is \<open>QuerySet.get\<close> on the rows a filter kept.  \<open>first_by\<close> is
  \<open>QuerySet.first\<close> on an unordered query set, which orders by primary key: the row with
  the least key.  \<open>save\<close> is \<open>Model.save\<close>: an update of the row with the object's
  primary key, an insert when there is none.  \<open>next_pk\<close> is the value an \<open>AutoField\<close>
  primary key gets on insert.
\<close>

fun get_one :: "'a list \<Rightarrow> error + 'a" where
  "get_one [] = Inl DoesNotExist"
| "get_one [x] = Inr x"
| "get_one (x # y # zs) = Inl MultipleObjectsReturned"

fun first_by :: "('a \<Rightarrow> int) \<Rightarrow> 'a list \<Rightarrow> 'a option" where
  "first_by pk [] = None"
| "first_by pk (x # xs) =
     (case first_by pk xs of
        None \<Rightarrow> Some x
      | Some y \<Rightarrow> if pk x \<le> pk y then Some x else Some y)"

definition save :: "('a \<Rightarrow> int) \<Rightarrow> 'a \<Rightarrow> 'a list \<Rightarrow> 'a list" where
  "save pk x tbl =
     (if pk x \<in> set (map pk tbl) then map (\<lambda>r. if pk r = pk x then x else r) tbl
      else tbl @ [x])"

definition next_pk :: "('a \<Rightarrow> int) \<Rightarrow> 'a list \<Rightarrow> int" where
  "next_pk pk tbl = fold max (map pk tbl) 0 + 1"

text \<open>
  An insert fails with \<open>IntegrityError\<close> when it breaks a constraint the model class
  declares: the primary key, a \<open>unique\<close> column, a \<open>unique_together\<close> tuple, or a
  \<open>ForeignKey\<close> whose referenced row does not exist.
\<close>

definition identity_exists :: "db \<Rightarrow> int \<Rightarrow> bool" where
  "identity_exists d pk = (pk \<in> set (map identity_id (identities d)))"

definition post_exists :: "db \<Rightarrow> int \<Rightarrow> bool" where
  "post_exists d pk = (pk \<in> set (map post_id (posts d)))"

definition create_follow :: "db \<Rightarrow> follow \<Rightarrow> error + db" where
  "create_follow d f =
     (if follow_id f \<in> set (map follow_id (follows d))
         \<or> (follow_source f, follow_target f)
              \<in> set (map (\<lambda>r. (follow_source r, follow_target r)) (follows d))
         \<or> \<not> identity_exists d (follow_source f)
         \<or> \<not> identity_exists d (follow_target f)
      then Inl IntegrityError
      else Inr (d\<lparr>follows := follows d @ [f]\<rparr>))"

definition create_block :: "db \<Rightarrow> block \<Rightarrow> error + db" where
  "create_block d b =
     (if block_id b \<in> set (map block_id (blocks d))
         \<or> \<not> identity_exists d (block_source b)
         \<or> \<not> identity_exists d (block_target b)
      then Inl IntegrityError
      else Inr (d\<lparr>blocks := blocks d @ [b]\<rparr>))"

definition create_interaction :: "db \<Rightarrow> interaction \<Rightarrow> error + db" where
  "create_interaction d i =
     (if interaction_id i \<in> set (map interaction_id (interactions d))
         \<or> \<not> identity_exists d (interaction_identity i)
         \<or> \<not> post_exists d (interaction_post i)
      then Inl IntegrityError
      else Inr (d\<lparr>interactions := interactions d @ [i]\<rparr>))"

section \<open>Follows (takahe/utils.py, class Takahe)\<close>

text \<open>
  \<open>list(queryset)\<close> on an unordered query set yields the rows in storage order.
\<close>

definition get_following_ids :: "db \<Rightarrow> int \<Rightarrow> int list" where
  "get_following_ids d identity_pk =
     map follow_target
       (filter (\<lambda>f. follow_source f = identity_pk \<and> follow_state f = ''accepted'') (follows d))"

definition get_follower_ids :: "db \<Rightarrow> int \<Rightarrow> int list" where
  "get_follower_ids d identity_pk =
     map follow_target
       (filter (\<lambda>f. follow_target f = identity_pk \<and> follow_state f = ''accepted'') (follows d))"

definition update_follow_state ::
    "db \<Rightarrow> int \<Rightarrow> int \<Rightarrow> string list \<Rightarrow> string \<Rightarrow> db \<times> follow option" where
  "update_follow_state d source_pk target_pk from_states to_state =
     (case first_by follow_id
             (filter (\<lambda>f. follow_source f = source_pk \<and> follow_target f = target_pk) (follows d)) of
        None \<Rightarrow> (d, None)
      | Some f \<Rightarrow>
          if (from_states = [] \<or> follow_state f \<in> set from_states) \<and> follow_state f \<noteq> to_state
          then (let f' = f\<lparr>follow_state := to_state\<rparr>
                in (d\<lparr>follows := save follow_id f' (follows d)\<rparr>, Some f'))
          else (d, Some f))"

text \<open>
  \<open>follow\<close> returns nothing; its result is the new state, or the exception it raises.
  Every exception is raised before the first write, so an error leaves the state as it was.
  \<open>new_id\<close> is the value \<open>Snowflake.generate_follow\<close> gives the new row.
\<close>

definition follow :: "db \<Rightarrow> int \<Rightarrow> int \<Rightarrow> int \<Rightarrow> error + db" where
  "follow d new_id source_pk target_pk =
     (case get_one (filter (\<lambda>f. follow_source f = source_pk \<and> follow_target f = target_pk)
                      (follows d)) of
        Inr f \<Rightarrow>
          if follow_state f \<noteq> ''accepted''
          then Inr (d\<lparr>follows := save follow_id (f\<lparr>follow_state := ''unrequested''\<rparr>) (follows d)\<rparr>)
          else Inr d
      | Inl DoesNotExist \<Rightarrow>
          (case get_one (filter (\<lambda>i. identity_id i = source_pk) (identities d)) of
             Inl e \<Rightarrow> Inl e
           | Inr source \<Rightarrow>
               (let f = \<lparr>follow_id = new_id, follow_source = source_pk,
                         follow_target = target_pk, follow_boosts = True,
                         follow_uri = Some [], follow_state = ''unrequested''\<rparr>
                in case create_follow d f of
                     Inl e \<Rightarrow> Inl e
                   | Inr d1 \<Rightarrow>
                       (let f' = f\<lparr>follow_uri :=
                                   Some (identity_actor_uri source @ ''follow/''
                                           @ str_int (follow_id f) @ ''/'')\<rparr>
                        in Inr (d1\<lparr>follows := save follow_id f' (follows d1)\<rparr>))))
      | Inl e \<Rightarrow> Inl e)"

definition unfollow :: "db \<Rightarrow> int \<Rightarrow> int \<Rightarrow> db" where
  "unfollow d source_pk target_pk = fst (update_follow_state d source_pk target_pk [] ''undone'')"

definition accept_follow_request :: "db \<Rightarrow> int \<Rightarrow> int \<Rightarrow> db" where
  "accept_follow_request d source_pk target_pk =
     fst (update_follow_state d source_pk target_pk [] ''accepting'')"

definition reject_follow_request :: "db \<Rightarrow> int \<Rightarrow> int \<Rightarrow> db" where
  "reject_follow_request d source_pk target_pk =
     fst (update_follow_state d source_pk target_pk [] ''rejecting'')"

section \<open>Blocks and mutes\<close>

text \<open>
  \<open>truthy\<close> is Python's truth value of an optional string: \<open>None\<close> and the empty string
  are false.  \<open>identity_str\<close> is \<open>Identity.__str__\<close>, \<open>handle\<close> the property it uses.
\<close>

definition truthy :: "string option \<Rightarrow> bool" where
  "truthy s = (case s of None \<Rightarrow> False | Some v \<Rightarrow> v \<noteq> [])"

definition handle :: "identity \<Rightarrow> string" where
  "handle self =
     (case identity_username self of
        None \<Rightarrow> ''(unknown user)''
      | Some u \<Rightarrow>
          (case identity_domain self of
             None \<Rightarrow> u @ ''@(unknown server)''
           | Some dname \<Rightarrow> if dname \<noteq> [] then u @ ''@'' @ dname else u @ ''@(unknown server)''))"

definition identity_str :: "identity \<Rightarrow> string" where
  "identity_str self =
     (if truthy (identity_username self) \<and> identity_domain self \<noteq> None then handle self
      else identity_actor_uri self)"

text \<open>
  \<open>Block\<close> declares no uniqueness beyond its automatic primary key, so \<open>get\<close> can meet
  several rows.  \<open>update_or_create\<close> with \<open>defaults={"state": "new"}\<close>: the row found is
  saved with the defaults, a missing row is created from the lookup values and the defaults.
\<close>

definition update_or_create_block :: "db \<Rightarrow> int \<Rightarrow> int \<Rightarrow> bool \<Rightarrow> error + (db \<times> block)" where
  "update_or_create_block d source_pk target_pk is_mute =
     (case get_one (filter (\<lambda>b. block_source b = source_pk \<and> block_target b = target_pk
                                   \<and> block_mute b = is_mute) (blocks d)) of
        Inr b \<Rightarrow>
          (let b' = b\<lparr>block_state := ''new''\<rparr>
           in Inr (d\<lparr>blocks := save block_id b' (blocks d)\<rparr>, b'))
      | Inl DoesNotExist \<Rightarrow>
          (let b = \<lparr>block_id = next_pk block_id (blocks d), block_source = source_pk,
                    block_target = target_pk, block_mute = is_mute, block_uri = None,
                    block_state = ''new''\<rparr>
           in case create_block d b of Inl e \<Rightarrow> Inl e | Inr d1 \<Rightarrow> Inr (d1, b))
      | Inl e \<Rightarrow> Inl e)"

text \<open>
  \<open>block_or_mute\<close>: the two reads before \<open>transaction.atomic()\<close> write nothing, and an
  exception inside the atomic block rolls its writes back, so an error leaves the state as
  it was.
\<close>

definition block_or_mute :: "db \<Rightarrow> int \<Rightarrow> int \<Rightarrow> bool \<Rightarrow> error + (db \<times> block)" where
  "block_or_mute d source_pk target_pk is_mute =
     (case get_one (filter (\<lambda>i. identity_id i = source_pk) (identities d)) of
        Inl e \<Rightarrow> Inl e
      | Inr source \<Rightarrow>
          if \<not> identity_local source
          then Inl (ValueError [''Cannot block/mute from remote identity '' @ identity_str source])
          else
            (case update_or_create_block d source_pk target_pk is_mute of
               Inl e \<Rightarrow> Inl e
             | Inr (d1, b) \<Rightarrow>
                 (let (d2, b2) =
                        (if block_state b \<noteq> ''new'' \<or> \<not> truthy (block_uri b)
                         then (let b' = b\<lparr>block_state := ''new'',
                                           block_uri := Some (identity_actor_uri source @ ''block/''
                                                               @ str_int (block_id b) @ ''/'')\<rparr>
                               in (d1\<lparr>blocks := save block_id b' (blocks d1)\<rparr>, b'))
                         else (d1, b));
                      d3 = (if \<not> is_mute
                            then reject_follow_request (unfollow d2 source_pk target_pk)
                                   target_pk source_pk
                            else d2)
                  in Inr (d3, b2))))"

definition block :: "db \<Rightarrow> int \<Rightarrow> int \<Rightarrow> error + (db \<times> block)" where
  "block d source_pk target_pk = block_or_mute d source_pk target_pk False"

definition mute :: "db \<Rightarrow> int \<Rightarrow> int \<Rightarrow> error + (db \<times> block)" where
  "mute d source_pk target_pk = block_or_mute d source_pk target_pk True"

text \<open>
  \<open>Block.maybe_get\<close> (takahe/models.py).  A \<open>filter\<close> keyword is resolved against the
  model's fields when \<open>filter\<close> is called; a name that is no field raises \<open>FieldError\<close>.
  The fields \<open>Block\<close> declares are \<open>id\<close>, \<open>state\<close>, \<open>state_changed\<close>, \<open>source\<close>,
  \<open>target\<close>, \<open>uri\<close>, \<open>mute\<close>, \<open>include_notifications\<close>, \<open>expires\<close>, \<open>note\<close>,
  \<open>created\<close> and \<open>updated\<close>; \<open>block_text_column\<close> resolves the text columns kept in the
  record.  \<open>maybe_get\<close> catches \<open>DoesNotExist\<close> only.
\<close>

definition block_text_column :: "string \<Rightarrow> (block \<Rightarrow> string option) option" where
  "block_text_column name =
     (if name = ''state'' then Some (\<lambda>b. Some (block_state b))
      else if name = ''uri'' then Some block_uri
      else None)"

definition block_filter_in :: "string \<Rightarrow> string list \<Rightarrow> block list \<Rightarrow> error + block list" where
  "block_filter_in name vals rows =
     (case block_text_column name of
        None \<Rightarrow> Inl (FieldError name)
      | Some col \<Rightarrow> Inr (filter (\<lambda>b. col b \<in> set (map Some vals)) rows))"

definition maybe_get :: "db \<Rightarrow> int \<Rightarrow> int \<Rightarrow> bool \<Rightarrow> bool \<Rightarrow> error + block option" where
  "maybe_get d source target is_mute require_active =
     (case (if require_active
            then block_filter_in ''status'' [''new'', ''sent'', ''awaiting_expiry''] (blocks d)
            else Inr (blocks d)) of
        Inl e \<Rightarrow> Inl e
      | Inr rows \<Rightarrow>
          (case get_one (filter (\<lambda>b. block_source b = source \<and> block_target b = target
                                        \<and> block_mute b = is_mute) rows) of
             Inr b \<Rightarrow> Inr (Some b)
           | Inl DoesNotExist \<Rightarrow> Inr None
           | Inl e \<Rightarrow> Inl e))"

section \<open>Post statistics and interactions\<close>

text \<open>
  \<open>Post.calculate_stats\<close>: \<open>self.interactions\<close> is the reverse relation, the interaction
  rows whose \<open>post\<close> is this post.  A filter on \<open>in_reply_to=None\<close> selects the rows whose
  column is null, which is what equality on \<open>option\<close> values gives.
\<close>

definition calculate_stats :: "db \<Rightarrow> post \<Rightarrow> bool \<Rightarrow> db \<times> post" where
  "calculate_stats d self do_save =
     (let self' = self\<lparr>post_stats := Some
            [(''likes'', length (filter (\<lambda>i. interaction_post i = post_id self
                                   \<and> interaction_type i = ''like''
                                   \<and> interaction_state i \<in> set [''new'', ''fanned_out''])
                                 (interactions d))),
             (''boosts'', length (filter (\<lambda>i. interaction_post i = post_id self
                                   \<and> interaction_type i = ''boost''
                                   \<and> interaction_state i \<in> set [''new'', ''fanned_out''])
                                 (interactions d))),
             (''replies'', length (filter (\<lambda>p. post_in_reply_to p = post_object_uri self)
                                 (posts d)))]\<rparr>
      in if do_save then (d\<lparr>posts := save post_id self' (posts d)\<rparr>, self') else (d, self'))"

text \<open>
  \<open>get_or_create\<close> on \<open>PostInteraction\<close>; \<open>new_id\<close> is the value
  \<open>Snowflake.generate_post_interaction\<close> gives a new row.
\<close>

definition get_or_create_interaction ::
    "db \<Rightarrow> int \<Rightarrow> string \<Rightarrow> int \<Rightarrow> int \<Rightarrow> error + (db \<times> interaction)" where
  "get_or_create_interaction d new_id itype identity_pk post_pk =
     (case get_one (filter (\<lambda>i. interaction_type i = itype \<and> interaction_identity i = identity_pk
                                   \<and> interaction_post i = post_pk) (interactions d)) of
        Inr i \<Rightarrow> Inr (d, i)
      | Inl DoesNotExist \<Rightarrow>
          (let i = \<lparr>interaction_id = new_id, interaction_state = ''new'',
                    interaction_type = itype, interaction_identity = identity_pk,
                    interaction_post = post_pk\<rparr>
           in case create_interaction d i of Inl e \<Rightarrow> Inl e | Inr d1 \<Rightarrow> Inr (d1, i))
      | Inl e \<Rightarrow> Inl e)"

definition interact_post ::
    "db \<Rightarrow> int \<Rightarrow> int \<Rightarrow> int \<Rightarrow> string \<Rightarrow> error + (db \<times> interaction option)" where
  "interact_post d new_id post_pk identity_pk itype =
     (case first_by post_id (filter (\<lambda>p. post_id p = post_pk) (posts d)) of
        None \<Rightarrow> Inr (d, None)
      | Some post \<Rightarrow>
          (case get_or_create_interaction d new_id itype identity_pk (post_id post) of
             Inl e \<Rightarrow> Inl e
           | Inr (d1, i) \<Rightarrow>
               (let (d2, i2) =
                      (if interaction_state i \<notin> set [''new'', ''fanned_out'']
                       then (let i' = i\<lparr>interaction_state := ''new''\<rparr>
                             in (d1\<lparr>interactions := save interaction_id i' (interactions d1)\<rparr>, i'))
                       else (d1, i))
                in Inr (fst (calculate_stats d2 post True), Some i2))))"

definition uninteract_post :: "db \<Rightarrow> int \<Rightarrow> int \<Rightarrow> string \<Rightarrow> db" where
  "uninteract_post d post_pk identity_pk itype =
     (case first_by post_id (filter (\<lambda>p. post_id p = post_pk) (posts d)) of
        None \<Rightarrow> d
      | Some post \<Rightarrow>
          (let d1 = fold (\<lambda>i dd. dd\<lparr>interactions :=
                                      save interaction_id (i\<lparr>interaction_state := ''undone''\<rparr>)
                                        (interactions dd)\<rparr>)
                      (filter (\<lambda>i. interaction_type i = itype \<and> interaction_identity i = identity_pk
                                     \<and> interaction_post i = post_id post) (interactions d))
                      d
           in fst (calculate_stats d1 post True)))"

definition like_post :: "db \<Rightarrow> int \<Rightarrow> int \<Rightarrow> int \<Rightarrow> error + (db \<times> interaction option)" where
  "like_post d new_id post_pk identity_pk = interact_post d new_id post_pk identity_pk ''like''"

definition unlike_post :: "db \<Rightarrow> int \<Rightarrow> int \<Rightarrow> db" where
  "unlike_post d post_pk identity_pk = uninteract_post d post_pk identity_pk ''like''"

definition get_user_interaction :: "db \<Rightarrow> int \<Rightarrow> int \<Rightarrow> string \<Rightarrow> interaction option" where
  "get_user_interaction d post_pk identity_pk itype =
     (case first_by post_id (filter (\<lambda>p. post_id p = post_pk) (posts d)) of
        None \<Rightarrow> None
      | Some post \<Rightarrow>
          first_by interaction_id
            (filter (\<lambda>i. interaction_type i = itype \<and> interaction_identity i = identity_pk
                           \<and> interaction_post i = post_id post) (interactions d)))"

definition post_liked_by :: "db \<Rightarrow> int \<Rightarrow> int \<Rightarrow> bool" where
  "post_liked_by d post_pk identity_pk =
     (case get_user_interaction d post_pk identity_pk ''like'' of
        None \<Rightarrow> False
      | Some i \<Rightarrow> interaction_state i \<in> set [''new'', ''fanned_out''])"

definition get_post_stats :: "db \<Rightarrow> int \<Rightarrow> (string \<times> nat) list" where
  "get_post_stats d post_pk =
     (case first_by post_id (filter (\<lambda>p. post_id p = post_pk) (posts d)) of
        None \<Rightarrow> []
      | Some post \<Rightarrow> (case post_stats post of None \<Rightarrow> [] | Some st \<Rightarrow> st))"

section \<open>Identity resolution (takahe/models.py, class Identity)\<close>

text \<open>
  The network is an argument.  \<open>hostmeta_outcome\<close> is what the GET of
  \<open>/.well-known/host-meta\<close> does: a response (status, body, and what \<open>etree.fromstring\<close>
  with the XPath query makes of the body), an \<open>httpx.RequestError\<close>, or an
  \<open>ssl.SSLCertVerificationError\<close>.  \<open>http_outcome\<close> is what a webfinger GET followed by
  \<open>raise_for_status()\<close> does: an \<open>httpx.HTTPError\<close> without a response (a network
  failure), a certificate error, an \<open>HTTPStatusError\<close> carrying the response's status and
  body, or a response that passed, with its body and what \<open>response.json()\<close> makes of it.
  The network answers a URL, so the webfinger request is a function \<open>client_get\<close> from the
  URL to its outcome.
  A parsed payload is a JRD object whose members, where present, have the types of the
  format: an optional \<open>subject\<close> string and an optional list of links with optional
  \<open>type\<close>, \<open>rel\<close> and \<open>href\<close> strings.
\<close>

datatype xml_result = XmlParseError | XmlTemplate string

datatype hostmeta_outcome =
    HostMetaResponse int string xml_result
  | HostMetaRequestError
  | HostMetaCertError

record jrd_link =
  link_type :: "string option"
  link_rel :: "string option"
  link_href :: "string option"

record jrd =
  jrd_subject :: "string option"
  jrd_links :: "jrd_link list option"

datatype json_result = JsonInvalid | JsonData jrd

datatype http_outcome =
    RequestError
  | CertificateError
  | StatusError int string
  | Success string json_result

definition is_space :: "char \<Rightarrow> bool" where
  "is_space c = (c \<in> set [CHR '' '', CHR 0x09, CHR 0x0A, CHR 0x0B, CHR 0x0C, CHR 0x0D])"

definition fetch_webfinger_url :: "string \<Rightarrow> hostmeta_outcome \<Rightarrow> error + string" where
  "fetch_webfinger_url domain hm =
     (let fallback = ''https://'' @ domain @ ''/.well-known/webfinger?resource={uri}''
      in case hm of
           HostMetaRequestError \<Rightarrow> Inr fallback
         | HostMetaCertError \<Rightarrow> Inl SSLCertVerificationError
         | HostMetaResponse status content xml \<Rightarrow>
             if status = 200 \<and> filter (\<lambda>c. \<not> is_space c) content \<noteq> []
             then (case xml of
                     XmlParseError \<Rightarrow> Inr fallback
                   | XmlTemplate template \<Rightarrow> if template \<noteq> [] then Inr template else Inr fallback)
             else Inr fallback)"

fun find_self_link :: "jrd_link list \<Rightarrow> string \<Rightarrow> string option \<times> string option" where
  "find_self_link [] subject = (None, None)"
| "find_self_link (link # rest) subject =
     (if link_type link = Some ''application/activity+json'' \<and> link_rel link = Some ''self''
      then (case link_href link of None \<Rightarrow> (None, None) | Some href \<Rightarrow> (Some href, Some subject))
      else find_self_link rest subject)"

text \<open>
  \<open>fetch_webfinger\<close>.  The URL of the request is \<open>webfinger_url.format(uri=...)\<close>, computed
  inside the \<open>try\<close> whose handler catches \<open>httpx.HTTPError\<close> and
  \<open>ssl.SSLCertVerificationError\<close> only.  \<open>str_format template uri\<close> is the outcome of
  \<open>template.format(uri=uri)\<close>: the expanded string, or the exception \<open>str.format\<close> raises
  (\<open>KeyError\<close> for a replacement field of another name, \<open>IndexError\<close> for a positional
  field, \<open>ValueError\<close> for a malformed template).  Such an exception is not one the handler
  catches, and leaves \<open>fetch_webfinger\<close>; no request is made then.
\<close>

definition fetch_webfinger ::
    "(string \<Rightarrow> string \<Rightarrow> error + string) \<Rightarrow> (string \<Rightarrow> http_outcome) \<Rightarrow> string
       \<Rightarrow> hostmeta_outcome \<Rightarrow> error + (string option \<times> string option)" where
  "fetch_webfinger str_format client_get hdl hm =
     (case split_at CHR ''@'' hdl of
        [] \<Rightarrow> Inl IndexError
      | [p] \<Rightarrow> Inl IndexError
      | p # domain # ps \<Rightarrow>
          (case fetch_webfinger_url (lower domain) hm of
             Inl e \<Rightarrow> if e = SSLCertVerificationError then Inr (None, None) else Inl e
           | Inr webfinger_url \<Rightarrow>
               (case str_format webfinger_url (''acct:'' @ hdl) of
                  Inl e \<Rightarrow> if e = SSLCertVerificationError then Inr (None, None) else Inl e
                | Inr url \<Rightarrow>
                    (case client_get url of
                       RequestError \<Rightarrow> Inr (None, None)
                     | CertificateError \<Rightarrow> Inr (None, None)
                     | StatusError status_code content \<Rightarrow>
                         if status_code < 500
                            \<and> status_code \<notin> set [400, 401, 403, 404, 406, 410]
                         then Inl (ValueError
                                     [''Client error fetching webfinger: '' @ str_int status_code,
                                      content])
                         else Inr (None, None)
                     | Success content js \<Rightarrow>
                         (case js of
                            JsonInvalid \<Rightarrow>
                              if is_infix ''not found'' (lower content) then Inr (None, None)
                              else Inl (ValueError [''JSON parse error fetching webfinger'',
                                                    content])
                          | JsonData data \<Rightarrow>
                              (case jrd_subject data of
                                 None \<Rightarrow> Inr (None, None)
                               | Some subject \<Rightarrow>
                                   (let subject' = (if startswith subject ''acct:''
                                                    then drop 5 subject else subject)
                                    in case jrd_links data of
                                         None \<Rightarrow> Inr (None, None)
                                       | Some links \<Rightarrow>
                                           Inr (find_self_link links subject'))))))))"

text \<open>
  \<open>Domain.get_remote_domain\<close> is a \<open>get_or_create\<close> on \<open>(domain, local=False)\<close>; the
  domain name is the primary key.  \<open>create_identity\<close> is the insert of
  \<open>Identity.objects.create\<close>: \<open>actor_uri\<close> is unique and not null, \<open>(username, domain)\<close>
  is unique together, \<open>domain\<close> is a foreign key.
\<close>

definition get_remote_domain :: "db \<Rightarrow> string \<Rightarrow> error + (db \<times> domain_row)" where
  "get_remote_domain d domain =
     (case get_one (filter (\<lambda>r. domain_domain r = lower domain \<and> \<not> domain_local r) (domains d)) of
        Inr r \<Rightarrow> Inr (d, r)
      | Inl DoesNotExist \<Rightarrow>
          if lower domain \<in> set (map domain_domain (domains d)) then Inl IntegrityError
          else (let r = \<lparr>domain_domain = lower domain, domain_service_domain = None,
                          domain_local = False\<rparr>
                in Inr (d\<lparr>domains := domains d @ [r]\<rparr>, r))
      | Inl e \<Rightarrow> Inl e)"

definition create_identity ::
    "db \<Rightarrow> int \<Rightarrow> string option \<Rightarrow> string \<Rightarrow> string \<Rightarrow> bool \<Rightarrow> error + (db \<times> identity)" where
  "create_identity d new_id actor_uri username domain_pk is_local =
     (case actor_uri of
        None \<Rightarrow> Inl IntegrityError
      | Some uri \<Rightarrow>
          if new_id \<in> set (map identity_id (identities d))
             \<or> uri \<in> set (map identity_actor_uri (identities d))
             \<or> (Some username, Some domain_pk)
                  \<in> set (map (\<lambda>i. (identity_username i, identity_domain i)) (identities d))
             \<or> domain_pk \<notin> set (map domain_domain (domains d))
          then Inl IntegrityError
          else (let i = \<lparr>identity_id = new_id, identity_actor_uri = uri,
                          identity_username = Some username, identity_domain = Some domain_pk,
                          identity_local = is_local\<rparr>
                in Inr (d\<lparr>identities := identities d @ [i]\<rparr>, i)))"

text \<open>
  \<open>by_username_and_domain\<close>: the \<open>domain\<close> argument is a name or a \<open>Domain\<close> object.
  \<open>username__iexact\<close> compares without regard to case and never matches a null username.
  \<open>get_remote_domain\<close> may have written a row when the insert of the identity fails, so the
  state is returned beside the result or the exception.  \<open>new_id\<close> is the value
  \<open>Snowflake.generate_identity\<close> gives a new row.
\<close>

datatype domain_arg = DomainName string | DomainInstance domain_row

definition iexact :: "string option \<Rightarrow> string \<Rightarrow> bool" where
  "iexact column v = (case column of None \<Rightarrow> False | Some c \<Rightarrow> lower c = lower v)"

definition by_username_and_domain ::
    "db \<Rightarrow> int \<Rightarrow> (string \<Rightarrow> string \<Rightarrow> error + string) \<Rightarrow> (string \<Rightarrow> http_outcome)
       \<Rightarrow> hostmeta_outcome \<Rightarrow> string \<Rightarrow> domain_arg \<Rightarrow> bool \<Rightarrow> bool
       \<Rightarrow> db \<times> (error + identity option)" where
  "by_username_and_domain d new_id str_format client_get hm username domain_arg fetch local_arg =
     (if startswith username ''@'' then (d, Inl (ValueError [''Username must not start with @'']))
      else
        (let (domain_instance, is_local, domain) =
               (case domain_arg of
                  DomainInstance di \<Rightarrow> (Some di, domain_local di, domain_domain di)
                | DomainName n \<Rightarrow> (None, local_arg, lower n))
         in case get_one (filter (\<lambda>i. iexact (identity_username i) username
                                        \<and> identity_domain i = Some domain
                                        \<and> (if is_local then identity_local i else True))
                            (identities d)) of
              Inr i \<Rightarrow> (d, Inr (Some i))
            | Inl DoesNotExist \<Rightarrow>
                if fetch \<and> \<not> is_local
                then
                  (case fetch_webfinger str_format client_get (username @ ''@'' @ domain) hm of
                     Inl e \<Rightarrow> (d, Inl e)
                   | Inr (actor_uri, None) \<Rightarrow> (d, Inr None)
                   | Inr (actor_uri, Some hdl) \<Rightarrow>
                       (case get_one (filter (\<lambda>i. Some (identity_actor_uri i) = actor_uri)
                                        (identities d)) of
                          Inr i \<Rightarrow> (d, Inr (Some i))
                        | Inl DoesNotExist \<Rightarrow>
                            (case split_at CHR ''@'' hdl of
                               [username', domain'] \<Rightarrow>
                                 (case (case domain_instance of
                                          Some di \<Rightarrow> Inr (d, di)
                                        | None \<Rightarrow> get_remote_domain d domain') of
                                    Inl e \<Rightarrow> (d, Inl e)
                                  | Inr (d1, di) \<Rightarrow>
                                      (case create_identity d1 new_id actor_uri username'
                                              (domain_domain di) False of
                                         Inl e \<Rightarrow> (d1, Inl e)
                                       | Inr (d2, i) \<Rightarrow> (d2, Inr (Some i))))
                             | parts \<Rightarrow>
                                 (d, Inl (ValueError
                                     [if length parts < 2
                                      then ''not enough values to unpack (expected 2, got ''
                                             @ str_int (int (length parts)) @ '')''
                                      else ''too many values to unpack (expected 2)''])))
                        | Inl e \<Rightarrow> (d, Inl e)))
                else (d, Inr None)
            | Inl e \<Rightarrow> (d, Inl e)))"

section \<open>Notions the properties are stated with\<close>

text \<open>
  \<open>stats_of\<close> names the dict \<open>calculate_stats\<close> assigns.  \<open>follows_wf\<close> is what the
  database enforces on the follow table: the primary key and
  \<open>unique_together = [("source", "target")]\<close>.  \<open>follow_calls\<close> runs a sequence of
  \<open>Takahe.follow\<close> calls, each with the identifier generated for it; a call that raises
  leaves the state as it was.
\<close>

definition stats_of :: "db \<Rightarrow> post \<Rightarrow> (string \<times> nat) list" where
  "stats_of d self =
     [(''likes'', length (filter (\<lambda>i. interaction_post i = post_id self
                            \<and> interaction_type i = ''like''
                            \<and> interaction_state i \<in> set [''new'', ''fanned_out''])
                          (interactions d))),
      (''boosts'', length (filter (\<lambda>i. interaction_post i = post_id self
                            \<and> interaction_type i = ''boost''
                            \<and> interaction_state i \<in> set [''new'', ''fanned_out''])
                          (interactions d))),
      (''replies'', length (filter (\<lambda>p. post_in_reply_to p = post_object_uri self) (posts d)))]"

definition follows_wf :: "db \<Rightarrow> bool" where
  "follows_wf d =
     (distinct (map follow_id (follows d))
      \<and> distinct (map (\<lambda>f. (follow_source f, follow_target f)) (follows d)))"

fun follow_calls :: "db \<Rightarrow> (int \<times> int \<times> int) list \<Rightarrow> db" where
  "follow_calls d [] = d"
| "follow_calls d ((new_id, source_pk, target_pk) # calls) =
     follow_calls (case follow d new_id source_pk target_pk of Inl e \<Rightarrow> d | Inr d' \<Rightarrow> d') calls"

text \<open>
  \<open>like_twice\<close> is \<open>Takahe.like_post\<close> called twice in a row, the second call on the
  state the first one left; \<open>n1\<close> and \<open>n2\<close> are the identifiers generated for the two
  calls.
\<close>

definition like_twice ::
    "db \<Rightarrow> int \<Rightarrow> int \<Rightarrow> int \<Rightarrow> int \<Rightarrow> error + (db \<times> interaction option)" where
  "like_twice d n1 n2 post_pk identity_pk =
     (case like_post d n1 post_pk identity_pk of
        Inl e \<Rightarrow> Inl e
      | Inr (d1, i) \<Rightarrow> like_post d1 n2 post_pk identity_pk)"

section \<open>An example state\<close>

text \<open>
  A small instance used to run the operations on concrete input: a local domain with the
  local identities alice (1) and carol (3), a remote domain with the remote identity bob
  (2); alice follows bob (accepted), bob has asked to follow alice (pending approval),
  carol once followed alice (undone); alice's post 5 has a reply, post 6, a like from
  carol and a boost from bob, and its statistics have not been computed yet.
\<close>

definition example_db :: db where
  "example_db =
     \<lparr>domains =
        [\<lparr>domain_domain = ''local.example'', domain_service_domain = None, domain_local = True\<rparr>,
         \<lparr>domain_domain = ''remote.example'', domain_service_domain = None,
           domain_local = False\<rparr>],
      identities =
        [\<lparr>identity_id = 1, identity_actor_uri = ''https://local.example/@alice/'',
           identity_username = Some ''alice'', identity_domain = Some ''local.example'',
           identity_local = True\<rparr>,
         \<lparr>identity_id = 2, identity_actor_uri = ''https://remote.example/users/bob'',
           identity_username = Some ''bob'', identity_domain = Some ''remote.example'',
           identity_local = False\<rparr>,
         \<lparr>identity_id = 3, identity_actor_uri = ''https://local.example/@carol/'',
           identity_username = Some ''carol'', identity_domain = Some ''local.example'',
           identity_local = True\<rparr>],
      follows =
        [\<lparr>follow_id = 10, follow_source = 1, follow_target = 2, follow_boosts = True,
           follow_uri = Some ''https://local.example/@alice/follow/10/'',
           follow_state = ''accepted''\<rparr>,
         \<lparr>follow_id = 11, follow_source = 2, follow_target = 1, follow_boosts = True,
           follow_uri = Some ''https://remote.example/follows/11'',
           follow_state = ''pending_approval''\<rparr>,
         \<lparr>follow_id = 12, follow_source = 3, follow_target = 1, follow_boosts = False,
           follow_uri = Some ''https://local.example/@carol/follow/12/'',
           follow_state = ''undone''\<rparr>],
      blocks = [],
      posts =
        [\<lparr>post_id = 5, post_author = 1,
           post_object_uri = Some ''https://local.example/@alice/posts/5/'',
           post_in_reply_to = None, post_stats = None\<rparr>,
         \<lparr>post_id = 6, post_author = 2,
           post_object_uri = Some ''https://remote.example/notes/6'',
           post_in_reply_to = Some ''https://local.example/@alice/posts/5/'',
           post_stats = None\<rparr>],
      interactions =
        [\<lparr>interaction_id = 100, interaction_state = ''new'', interaction_type = ''like'',
           interaction_identity = 3, interaction_post = 5\<rparr>,
         \<lparr>interaction_id = 101, interaction_state = ''fanned_out'', interaction_type = ''boost'',
           interaction_identity = 2, interaction_post = 5\<rparr>]\<rparr>"

text \<open>
  A second instance: alice alone, after \<open>follow(1, 1)\<close> has recorded a follow of herself.
\<close>

definition self_follow_db :: db where
  "self_follow_db =
     \<lparr>domains =
        [\<lparr>domain_domain = ''local.example'', domain_service_domain = None, domain_local = True\<rparr>],
      identities =
        [\<lparr>identity_id = 1, identity_actor_uri = ''https://local.example/@alice/'',
           identity_username = Some ''alice'', identity_domain = Some ''local.example'',
           identity_local = True\<rparr>],
      follows =
        [\<lparr>follow_id = 20, follow_source = 1, follow_target = 1, follow_boosts = True,
           follow_uri = Some ''https://local.example/@alice/follow/20/'',
           follow_state = ''unrequested''\<rparr>],
      blocks = [], posts = [], interactions = []\<rparr>"

text \<open>
  A webfinger answer whose subject, \<open>robert@social.example\<close>, is not the handle that was
  asked for, with one profile link and the actor link (the body text stands for the
  document that parses to this).
\<close>

definition example_webfinger :: http_outcome where
  "example_webfinger =
     Success ''(a JRD document)''
       (JsonData
          \<lparr>jrd_subject = Some ''acct:robert@social.example'',
           jrd_links = Some
             [\<lparr>link_type = Some ''text/html'',
                link_rel = Some ''http://webfinger.net/rel/profile-page'',
                link_href = Some ''https://social.example/@robert''\<rparr>,
              \<lparr>link_type = Some ''application/activity+json'', link_rel = Some ''self'',
                link_href = Some ''https://social.example/users/robert''\<rparr>]\<rparr>)"

text \<open>A webfinger answer that names the actor URI bob is stored under.\<close>

definition example_webfinger_bob :: http_outcome where
  "example_webfinger_bob =
     Success ''(a JRD document)''
       (JsonData
          \<lparr>jrd_subject = Some ''acct:bob@remote.example'',
           jrd_links = Some
             [\<lparr>link_type = Some ''application/activity+json'', link_rel = Some ''self'',
                link_href = Some ''https://remote.example/users/bob''\<rparr>]\<rparr>)"

text \<open>
  An example network and an example of \<open>str.format\<close>.  \<open>answering r\<close> is a network on
  which every webfinger request has the outcome \<open>r\<close>.  \<open>format_uri template uri\<close> is
  \<open>template.format(uri=uri)\<close> for a template whose braces are those of replacement fields
  \<open>{name}\<close> with an identifier for name, or \<open>{}\<close>: the field \<open>{uri}\<close> is replaced, a
  field of another name raises \<open>KeyError\<close> with that name, the positional field \<open>{}\<close>
  raises \<open>IndexError\<close>, and the text around the fields is copied.  The fallback
  template of \<open>fetch_webfinger_url\<close> is of this kind.
\<close>

definition answering :: "http_outcome \<Rightarrow> string \<Rightarrow> http_outcome" where
  "answering r url = r"

fun format_from :: "string option \<Rightarrow> string \<Rightarrow> string \<Rightarrow> error + string" where
  "format_from None [] uri = Inr []"
| "format_from None (c # cs) uri =
     (if c = CHR ''{'' then format_from (Some []) cs uri
      else (case format_from None cs uri of Inl e \<Rightarrow> Inl e | Inr s \<Rightarrow> Inr (c # s)))"
| "format_from (Some name) [] uri =
     Inl (ValueError [''expected '' @ [CHR 0x27, CHR ''}'', CHR 0x27] @ '' before end of string''])"
| "format_from (Some name) (c # cs) uri =
     (if c = CHR ''}''
      then (if name = ''uri''
            then (case format_from None cs uri of Inl e \<Rightarrow> Inl e | Inr s \<Rightarrow> Inr (uri @ s))
            else if name = [] then Inl IndexError
            else Inl (KeyError name))
      else format_from (Some (name @ [c])) cs uri)"

definition format_uri :: "string \<Rightarrow> string \<Rightarrow> error + string" where
  "format_uri template uri = format_from None template uri"

section \<open>Rounding to a double\<close>

lemma round_even_cases:
  "round_even x = \<lfloor>x\<rfloor> \<or> round_even x = \<lfloor>x\<rfloor> + 1"
  by (simp add: round_even_def Let_def)

lemma round_even_of_int: "round_even (of_int n) = n"
  by (simp add: round_even_def)

lemma round_even_err: "\<bar>of_int (round_even x) - x\<bar> \<le> 1 / 2"
proof -
  have "of_int \<lfloor>x\<rfloor> \<le> x" "x < of_int \<lfloor>x\<rfloor> + 1" by linarith+
  then show ?thesis by (auto simp: round_even_def Let_def)
qed

lemma round_even_mono:
  assumes "x \<le> y"
  shows "round_even x \<le> round_even y"
proof -
  have f: "\<lfloor>x\<rfloor> \<le> \<lfloor>y\<rfloor>" using assms by (rule floor_mono)
  show ?thesis
  proof (cases "\<lfloor>x\<rfloor> = \<lfloor>y\<rfloor>")
    case True
    then show ?thesis using assms by (auto simp: round_even_def Let_def)
  next
    case False
    then have "\<lfloor>x\<rfloor> + 1 \<le> \<lfloor>y\<rfloor>" using f by simp
    moreover have "round_even x \<le> \<lfloor>x\<rfloor> + 1" using round_even_cases [of x] by auto
    moreover have "\<lfloor>y\<rfloor> \<le> round_even y" using round_even_cases [of y] by auto
    ultimately show ?thesis by linarith
  qed
qed

lemma round_even_ge: "of_int n \<le> x \<Longrightarrow> n \<le> round_even x"
  using round_even_mono [of "of_int n" x] by (simp add: round_even_of_int)

lemma round_even_le: "x \<le> of_int n \<Longrightarrow> round_even x \<le> n"
  using round_even_mono [of x "of_int n"] by (simp add: round_even_of_int)

text \<open>Rounding to a multiple of \<open>2 ^ e\<close>.\<close>

lemma p2_pos: "0 < (2::real) powi e"
  by (simp add: zero_less_power_int)

lemma grid_ge:
  assumes "of_int m * 2 powi e \<le> (z::real)"
  shows "of_int m * 2 powi e \<le> (of_int (round_even (z / 2 powi e)) * 2 powi e :: real)"
proof -
  have "of_int m \<le> z / 2 powi e" using assms p2_pos [of e] by (simp add: pos_le_divide_eq)
  then have "m \<le> round_even (z / 2 powi e)" by (rule round_even_ge)
  then have "(of_int m :: real) \<le> of_int (round_even (z / 2 powi e))" by simp
  then show ?thesis using p2_pos [of e] by simp
qed

lemma grid_le:
  assumes "(z::real) \<le> of_int m * 2 powi e"
  shows "(of_int (round_even (z / 2 powi e)) * 2 powi e :: real) \<le> of_int m * 2 powi e"
proof -
  have "z / 2 powi e \<le> of_int m" using assms p2_pos [of e] by (simp add: pos_divide_le_eq)
  then have "round_even (z / 2 powi e) \<le> m" by (rule round_even_le)
  then have "(of_int (round_even (z / 2 powi e)) :: real) \<le> of_int m" by simp
  then show ?thesis using p2_pos [of e] by simp
qed

lemma grid_err:
  "\<bar>of_int (round_even (z / 2 powi e)) * 2 powi e - z\<bar> \<le> 2 powi e / 2"
proof -
  let ?g = "(2::real) powi e"
  have g: "0 < ?g" by (rule p2_pos)
  have "\<bar>of_int (round_even (z / ?g)) - z / ?g\<bar> \<le> 1 / 2" by (rule round_even_err)
  then have "\<bar>of_int (round_even (z / ?g)) - z / ?g\<bar> * ?g \<le> 1 / 2 * ?g"
    using g by (simp only: mult_le_cancel_right_pos)
  moreover have "\<bar>of_int (round_even (z / ?g)) - z / ?g\<bar> * ?g
                   = \<bar>of_int (round_even (z / ?g)) * ?g - z\<bar>"
  proof -
    have "\<bar>of_int (round_even (z / ?g)) - z / ?g\<bar> * ?g
            = \<bar>(of_int (round_even (z / ?g)) - z / ?g) * ?g\<bar>"
      using g by (simp add: abs_mult)
    also have "(of_int (round_even (z / ?g)) - z / ?g) * ?g = of_int (round_even (z / ?g)) * ?g - z"
      using g by (simp add: algebra_simps)
    finally show ?thesis .
  qed
  ultimately show ?thesis by simp
qed

text \<open>The binade of a positive number.\<close>

lemma binade:
  assumes "0 < (x::real)"
  shows "2 powi \<lfloor>log 2 x\<rfloor> \<le> x" "x < 2 powi (\<lfloor>log 2 x\<rfloor> + 1)"
proof -
  have "2 powr real_of_int \<lfloor>log 2 x\<rfloor> \<le> x \<and> x < 2 powr real_of_int (\<lfloor>log 2 x\<rfloor> + 1)"
    using floor_log_eq_powr_iff [of x 2 "\<lfloor>log 2 x\<rfloor>"] assms by simp
  then show "2 powi \<lfloor>log 2 x\<rfloor> \<le> x" "x < 2 powi (\<lfloor>log 2 x\<rfloor> + 1)"
    using powr_real_of_int' [of 2 "\<lfloor>log 2 x\<rfloor>"] powr_real_of_int' [of 2 "\<lfloor>log 2 x\<rfloor> + 1"]
    by simp_all
qed

lemma binade_less:
  assumes "0 < (x::real)" "x < 2 powi K"
  shows "\<lfloor>log 2 x\<rfloor> < K"
proof (rule ccontr)
  assume "\<not> \<lfloor>log 2 x\<rfloor> < K"
  then have "K \<le> \<lfloor>log 2 x\<rfloor>" by simp
  then have "(2::real) powi K \<le> 2 powi \<lfloor>log 2 x\<rfloor>" by (intro power_int_increasing) simp_all
  then show False using binade(1) [OF assms(1)] assms(2) by linarith
qed

lemma binade_ge:
  assumes "2 powi K \<le> (x::real)"
  shows "K \<le> \<lfloor>log 2 x\<rfloor>"
proof (rule ccontr)
  have x: "0 < x" using p2_pos [of K] assms by linarith
  assume "\<not> K \<le> \<lfloor>log 2 x\<rfloor>"
  then have "\<lfloor>log 2 x\<rfloor> + 1 \<le> K" by simp
  then have "(2::real) powi (\<lfloor>log 2 x\<rfloor> + 1) \<le> 2 powi K" by (intro power_int_increasing) simp_all
  then show False using binade(2) [OF x] assms by linarith
qed

lemma binade_eq:
  assumes "2 powi k \<le> (x::real)" "x < 2 powi (k + 1)"
  shows "\<lfloor>log 2 x\<rfloor> = k"
proof -
  have x: "0 < x" using p2_pos [of k] assms by linarith
  show ?thesis using binade_ge [OF assms(1)] binade_less [OF x assms(2)] by simp
qed


lemma p2_split:
  assumes "u \<le> e"
  shows "(2::real) powi e = of_int (2 ^ nat (e - u)) * 2 powi u"
proof -
  have "(2::real) powi e = 2 powi ((e - u) + u)" by simp
  also have "\<dots> = 2 powi (e - u) * 2 powi u" by (rule power_int_add) simp
  also have "(2::real) powi (e - u) = 2 ^ nat (e - u)"
    using assms by (simp add: power_int_def)
  finally show ?thesis by simp
qed

lemma rep_on_grid:
  assumes "u \<le> e"
  shows "(of_int n * 2 powi e :: real) = of_int (n * 2 ^ nat (e - u)) * 2 powi u"
  by (simp add: p2_split [OF assms])

lemma fl_unfold:
  assumes "0 < z"
  shows "fl z = of_int (round_even (z / 2 powi (max (\<lfloor>log 2 z\<rfloor> - 52) (- 1074))))
                  * 2 powi (max (\<lfloor>log 2 z\<rfloor> - 52) (- 1074))"
  using assms by (simp add: fl_def ulp_def)

lemma fl_nonpos:
  assumes "z \<le> 0"
  shows "fl z \<le> 0"
proof (cases "z = 0")
  case True
  then show ?thesis by (simp add: fl_def)
next
  case False
  have u: "0 < ulp z" unfolding ulp_def by (rule p2_pos)
  have "z / ulp z \<le> of_int 0" using assms u by (simp add: divide_nonpos_pos)
  then have "round_even (z / ulp z) \<le> 0" by (rule round_even_le)
  then have "(of_int (round_even (z / ulp z)) :: real) \<le> 0" by simp
  then have "of_int (round_even (z / ulp z)) * ulp z \<le> 0"
    using u by (simp add: mult_le_0_iff)
  then show ?thesis using False by (simp add: fl_def)
qed

text \<open>
  A positive number \<open>n * 2 ^ e\<close> with \<open>n < 2 ^ 53\<close> and \<open>e \<ge> -1074\<close> is a double.
  Rounding is monotone against the doubles.
\<close>

lemma rep_exp:
  assumes n: "n < 2 ^ 53" and k: "2 powi k \<le> (of_int n * 2 powi e :: real)"
  shows "k - 52 \<le> e"
proof (rule ccontr)
  assume "\<not> k - 52 \<le> e"
  then have "e + 53 \<le> k" by simp
  then have "(2::real) powi (e + 53) \<le> 2 powi k" by (intro power_int_increasing) simp_all
  moreover have "(2::real) powi (e + 53) = 2 ^ 53 * 2 powi e"
    by (simp add: power_int_add)
  moreover have "(of_int n :: real) < 2 ^ 53" using n by (metis of_int_less_numeral_power_cancel_iff)
  then have "of_int n * 2 powi e < (2 ^ 53 :: real) * 2 powi e"
    using p2_pos [of e] by (simp only: mult_less_cancel_right_pos)
  ultimately show False using k by linarith
qed

lemma rep_lower:
  assumes "0 < n"
  shows "2 powi e \<le> (of_int n * 2 powi e :: real)"
proof -
  have "(1::real) \<le> of_int n" using assms by simp
  then have "1 * 2 powi e \<le> (of_int n * 2 powi e :: real)"
    using p2_pos [of e] by (simp only: mult_le_cancel_right_pos)
  then show ?thesis by simp
qed

lemma fl_ge:
  assumes n: "0 < n" "n < 2 ^ 53" and e: "- 1074 \<le> e"
    and le: "of_int n * 2 powi e \<le> z"
  shows "of_int n * 2 powi e \<le> fl z"
proof -
  let ?y = "of_int n * 2 powi e :: real"
  have y: "2 powi e \<le> ?y" by (rule rep_lower [OF n(1)])
  have z: "0 < z" using y p2_pos [of e] le by linarith
  define k where "k = \<lfloor>log 2 z\<rfloor>"
  define u where "u = max (k - 52) (- 1074)"
  have f: "fl z = of_int (round_even (z / 2 powi u)) * 2 powi u"
    unfolding u_def k_def by (rule fl_unfold [OF z])
  have zk: "2 powi k \<le> z" unfolding k_def by (rule binade(1) [OF z])
  show ?thesis
  proof (cases "2 powi k \<le> ?y")
    case True
    have "k - 52 \<le> e" by (rule rep_exp [OF n(2) True])
    then have ue: "u \<le> e" using e by (simp add: u_def)
    have g: "?y = of_int (n * 2 ^ nat (e - u)) * 2 powi u" by (rule rep_on_grid [OF ue])
    have "of_int (n * 2 ^ nat (e - u)) * 2 powi u \<le> z" using le by (simp only: g)
    then have "of_int (n * 2 ^ nat (e - u)) * 2 powi u
                 \<le> (of_int (round_even (z / 2 powi u)) * 2 powi u :: real)"
      by (rule grid_ge)
    then show ?thesis by (simp only: f g)
  next
    case False
    then have yk: "?y < 2 powi k" by simp
    have "(2::real) powi e < 2 powi k" using y yk by linarith
    then have "e < k" by (metis power_int_increasing linorder_not_le one_le_numeral)
    then have uk: "u \<le> k" using e by (simp add: u_def)
    have g: "(2::real) powi k = of_int (2 ^ nat (k - u)) * 2 powi u" by (rule p2_split [OF uk])
    have "of_int (2 ^ nat (k - u)) * 2 powi u \<le> z" using zk by (simp only: g)
    then have "of_int (2 ^ nat (k - u)) * 2 powi u
                 \<le> (of_int (round_even (z / 2 powi u)) * 2 powi u :: real)"
      by (rule grid_ge)
    then have "2 powi k \<le> fl z" by (simp only: f g)
    then show ?thesis using yk by linarith
  qed
qed

lemma fl_le:
  assumes n: "0 < n" "n < 2 ^ 53" and e: "- 1074 \<le> e"
    and le: "z \<le> of_int n * 2 powi e"
  shows "fl z \<le> of_int n * 2 powi e"
proof (cases "0 < z")
  case False
  have "0 < (of_int n * 2 powi e :: real)" using rep_lower [OF n(1), of e] p2_pos [of e] by linarith
  moreover have "fl z \<le> 0" using False by (intro fl_nonpos) simp
  ultimately show ?thesis by linarith
next
  case z: True
  let ?y = "of_int n * 2 powi e :: real"
  have y: "2 powi e \<le> ?y" by (rule rep_lower [OF n(1)])
  define k where "k = \<lfloor>log 2 z\<rfloor>"
  define u where "u = max (k - 52) (- 1074)"
  have f: "fl z = of_int (round_even (z / 2 powi u)) * 2 powi u"
    unfolding u_def k_def by (rule fl_unfold [OF z])
  have zk: "2 powi k \<le> z" "z < 2 powi (k + 1)" unfolding k_def by (rule binade [OF z])+
  show ?thesis
  proof (cases "?y < 2 powi (k + 1)")
    case True
    have "2 powi k \<le> ?y" using zk(1) le by linarith
    then have "k - 52 \<le> e" by (rule rep_exp [OF n(2)])
    then have ue: "u \<le> e" using e by (simp add: u_def)
    have g: "?y = of_int (n * 2 ^ nat (e - u)) * 2 powi u" by (rule rep_on_grid [OF ue])
    have "z \<le> of_int (n * 2 ^ nat (e - u)) * 2 powi u" using le by (simp only: g)
    then have "(of_int (round_even (z / 2 powi u)) * 2 powi u :: real)
                 \<le> of_int (n * 2 ^ nat (e - u)) * 2 powi u"
      by (rule grid_le)
    then show ?thesis by (simp only: f g)
  next
    case False
    then have yk: "2 powi (k + 1) \<le> ?y" by simp
    define b where "b = max (k + 1) (- 1074)"
    have ub: "u \<le> b" by (simp add: u_def b_def)
    have "(2::real) powi (k + 1) \<le> 2 powi b"
      by (intro power_int_increasing) (simp_all add: b_def)
    then have zb: "z \<le> 2 powi b" using zk(2) by linarith
    have m: "(2::real) powi (- 1074) \<le> 2 powi e"
      using e by (intro power_int_increasing) simp_all
    have "b = k + 1 \<or> b = - 1074" by (auto simp: b_def max_def)
    then have by': "2 powi b \<le> ?y"
    proof
      assume b: "b = k + 1"
      show ?thesis unfolding b by (rule yk)
    next
      assume b: "b = - 1074"
      from m y show ?thesis unfolding b by (rule order_trans)
    qed
    have g: "(2::real) powi b = of_int (2 ^ nat (b - u)) * 2 powi u" by (rule p2_split [OF ub])
    have "z \<le> of_int (2 ^ nat (b - u)) * 2 powi u" using zb by (simp only: g)
    then have "(of_int (round_even (z / 2 powi u)) * 2 powi u :: real)
                 \<le> of_int (2 ^ nat (b - u)) * 2 powi u"
      by (rule grid_le)
    then have "fl z \<le> 2 powi b" by (simp only: f g)
    then show ?thesis using by' by linarith
  qed
qed

lemma fl_exact:
  assumes "0 < n" "n < 2 ^ 53" "- 1074 \<le> e"
  shows "fl (of_int n * 2 powi e) = of_int n * 2 powi e"
  using fl_ge [OF assms, of "of_int n * 2 powi e"] fl_le [OF assms, of "of_int n * 2 powi e"]
  by simp

lemma fl_err:
  assumes "0 < z" "z < 2 powi K" "- 1021 \<le> K"
  shows "\<bar>fl z - z\<bar> \<le> 2 powi (K - 54)"
proof -
  define u where "u = max (\<lfloor>log 2 z\<rfloor> - 52) (- 1074)"
  have f: "fl z = of_int (round_even (z / 2 powi u)) * 2 powi u"
    unfolding u_def by (rule fl_unfold [OF assms(1)])
  have "\<lfloor>log 2 z\<rfloor> < K" by (rule binade_less [OF assms(1,2)])
  then have "u \<le> K - 53" using assms(3) by (simp add: u_def)
  then have "(2::real) powi u \<le> 2 powi (K - 53)" by (intro power_int_increasing) simp_all
  moreover have "(2::real) powi (K - 53) = 2 powi (K - 54) * 2"
    using power_int_add [of "2::real" "K - 54" 1] by simp
  moreover have "\<bar>fl z - z\<bar> \<le> 2 powi u / 2" unfolding f by (rule grid_err)
  ultimately show ?thesis by simp
qed

lemma fl_grid:
  assumes "2 powi k \<le> z" "z < 2 powi (k + 1)" "- 1022 \<le> k"
  shows "fl z = of_int (round_even (z / 2 powi (k - 52))) * 2 powi (k - 52)"
proof -
  have z: "0 < z" using p2_pos [of k] assms(1) by linarith
  have lg: "\<lfloor>log 2 z\<rfloor> = k" by (rule binade_eq [OF assms(1,2)])
  have mx: "max (k - 52) (- 1074) = k - 52" using assms(3) by simp
  show ?thesis by (simp only: fl_unfold [OF z] lg mx)
qed


text \<open>The same facts with the power of two written as a quotient.\<close>

lemma p2_neg: "(2::real) powi (- int k) = 1 / 2 ^ k"
  by (simp add: power_int_minus field_simps)

lemma fl_ge_q:
  assumes "0 < n" "n < 2 ^ 53" "k \<le> 1074" "of_int n / 2 ^ k \<le> z"
  shows "of_int n / 2 ^ k \<le> fl z"
proof -
  have e: "- 1074 \<le> - int k" using assms(3) by simp
  have "of_int n * 2 powi (- int k) \<le> z" using assms(4) by (simp only: p2_neg) simp
  then have "of_int n * 2 powi (- int k) \<le> fl z" by (rule fl_ge [OF assms(1,2) e])
  then show ?thesis by (simp only: p2_neg) simp
qed

lemma fl_le_q:
  assumes "0 < n" "n < 2 ^ 53" "k \<le> 1074" "z \<le> of_int n / 2 ^ k"
  shows "fl z \<le> of_int n / 2 ^ k"
proof -
  have e: "- 1074 \<le> - int k" using assms(3) by simp
  have "z \<le> of_int n * 2 powi (- int k)" using assms(4) by (simp only: p2_neg) simp
  then have "fl z \<le> of_int n * 2 powi (- int k)" by (rule fl_le [OF assms(1,2) e])
  then show ?thesis by (simp only: p2_neg) simp
qed

lemma fl_exact_q:
  assumes "0 < n" "n < 2 ^ 53" "k \<le> 1074"
  shows "fl (of_int n / 2 ^ k) = of_int n / 2 ^ k"
  using fl_ge_q [OF assms, of "of_int n / 2 ^ k"] fl_le_q [OF assms, of "of_int n / 2 ^ k"]
  by simp

lemma fl_ge_int: "0 < n \<Longrightarrow> n < 2 ^ 53 \<Longrightarrow> of_int n \<le> z \<Longrightarrow> of_int n \<le> fl z"
  using fl_ge_q [of n 0 z] by simp

lemma fl_le_int: "0 < n \<Longrightarrow> n < 2 ^ 53 \<Longrightarrow> z \<le> of_int n \<Longrightarrow> fl z \<le> of_int n"
  using fl_le_q [of n 0 z] by simp

lemma fl_exact_int: "0 < n \<Longrightarrow> n < 2 ^ 53 \<Longrightarrow> fl (of_int n) = of_int n"
  using fl_exact_q [of n 0] by simp

lemma fl_grid_q:
  assumes "2 ^ a \<le> z" "z < 2 ^ (a + 1)" "a \<le> 52"
  shows "\<exists>j. fl z = of_int j / 2 ^ (52 - a)"
proof -
  have p: "(2::real) powi (int a) = 2 ^ a" "(2::real) powi (int a + 1) = 2 ^ (a + 1)"
    by (simp_all add: power_int_add)
  have q: "int a - 52 = - int (52 - a)" using assms(3) by simp
  have h1: "2 powi (int a) \<le> z" using assms(1) by (simp only: p)
  have h2: "z < 2 powi (int a + 1)" using assms(2) by (simp only: p)
  have h3: "- 1022 \<le> int a" by simp
  have "fl z = of_int (round_even (z / 2 powi (int a - 52))) * 2 powi (int a - 52)"
    by (rule fl_grid [OF h1 h2 h3])
  then have "fl z = of_int (round_even (z / 2 powi (int a - 52))) / 2 ^ (52 - a)"
    by (simp only: q p2_neg) simp
  then show ?thesis by blast
qed

lemma fl_err_q:
  assumes "0 < z" "z < 2 ^ a" "a \<le> 54"
  shows "\<bar>fl z - z\<bar> \<le> 1 / 2 ^ (54 - a)"
proof -
  have p: "(2::real) powi (int a) = 2 ^ a" by simp
  have q: "int a - 54 = - int (54 - a)" using assms(3) by simp
  have h2: "z < 2 powi (int a)" using assms(2) by (simp only: p)
  have h3: "- 1021 \<le> int a" by simp
  have "\<bar>fl z - z\<bar> \<le> 2 powi (int a - 54)"
    by (rule fl_err [OF assms(1) h2 h3])
  then show ?thesis by (simp only: q p2_neg)
qed

lemma fl_round_q:
  assumes "2 ^ a \<le> z" "z < 2 ^ (a + 1)" "a \<le> 52"
  shows "fl z = of_int (round_even (z * 2 ^ (52 - a))) / 2 ^ (52 - a)"
proof -
  have p: "(2::real) powi (int a) = 2 ^ a" "(2::real) powi (int a + 1) = 2 ^ (a + 1)"
    by (simp_all add: power_int_add)
  have q: "int a - 52 = - int (52 - a)" using assms(3) by simp
  have h1: "2 powi (int a) \<le> z" using assms(1) by (simp only: p)
  have h2: "z < 2 powi (int a + 1)" using assms(2) by (simp only: p)
  have h3: "- 1022 \<le> int a" by simp
  have "fl z = of_int (round_even (z / 2 powi (int a - 52))) * 2 powi (int a - 52)"
    by (rule fl_grid [OF h1 h2 h3])
  then show ?thesis by (simp only: q p2_neg) simp
qed

section \<open>Snowflake identifiers: packing and unpacking\<close>

text \<open>
  A double between \<open>2 ^ 30\<close> and \<open>2 ^ 32\<close>, as clock readings of this century are, is a
  multiple of \<open>2 ^ (- 22)\<close>, and of \<open>2 ^ (- 21)\<close> from \<open>2 ^ 31\<close> on.  So the time elapsed
  since the epoch is computed exactly, and only the multiplication by 1000, the division
  by 1000 and the final addition round.
\<close>

lemma int_of_real_less:
  "(of_int m :: real) < of_int k \<Longrightarrow> m < k"
  by simp

lemma fl_grid30:
  assumes "2 ^ 30 \<le> z" "z < 2 ^ 31"
  shows "\<exists>j. fl z = of_int j / 2 ^ 22"
proof -
  have e: "(52::nat) - 30 = 22" by simp
  have "\<exists>j. fl z = of_int j / 2 ^ (52 - 30)" by (rule fl_grid_q) (use assms in simp_all)
  then show ?thesis unfolding e .
qed

lemma fl_grid31:
  assumes "2 ^ 31 \<le> z" "z < 2 ^ 32"
  shows "\<exists>j. fl z = of_int j / 2 ^ 21"
proof -
  have e: "(52::nat) - 31 = 21" by simp
  have "\<exists>j. fl z = of_int j / 2 ^ (52 - 31)" by (rule fl_grid_q) (use assms in simp_all)
  then show ?thesis unfolding e .
qed

lemma double_grid:
  assumes d: "fl t = t" and lo: "2 ^ 30 \<le> t" and hi: "t < 2 ^ 32"
  shows "\<exists>n. t = of_int n / 2 ^ 22" and "2 ^ 31 \<le> t \<Longrightarrow> \<exists>n. t = of_int n / 2 ^ 21"
proof -
  have b: "\<exists>n. t = of_int n / 2 ^ 21" if h: "2 ^ 31 \<le> t"
    using fl_grid31 [OF h hi] unfolding d .
  show "\<exists>n. t = of_int n / 2 ^ 22"
  proof (cases "t < 2 ^ 31")
    case True
    show ?thesis using fl_grid30 [OF lo True] unfolding d .
  next
    case False
    then obtain n where "t = of_int n / 2 ^ 21" using b by auto
    then have "t = of_int (2 * n) / 2 ^ 22" by simp
    then show ?thesis by blast
  qed
  show "2 ^ 31 \<le> t \<Longrightarrow> \<exists>n. t = of_int n / 2 ^ 21" by (rule b)
qed

lemma elapsed_grid:
  assumes d: "fl t = t"
    and lo: "of_int EPOCH + 1 / 1000 \<le> t" and hi: "t < of_int EPOCH + 2 ^ 41 / 1000"
  shows "\<exists>m. 0 < m \<and> t - of_int EPOCH = of_int m / 2 ^ 22
            \<and> (t < 2 ^ 31 \<longrightarrow> m < 2 ^ 51) \<and> m < 2 ^ 54"
    and "2 ^ 31 \<le> t \<Longrightarrow> \<exists>m. 0 < m \<and> m < 2 ^ 53 \<and> t - of_int EPOCH = of_int m / 2 ^ 21"
proof -
  have lo': "2 ^ 30 \<le> t" using lo by (simp add: EPOCH_def)
  have hi': "t < 2 ^ 32" using hi by (simp add: EPOCH_def)
  show "\<exists>m. 0 < m \<and> t - of_int EPOCH = of_int m / 2 ^ 22
            \<and> (t < 2 ^ 31 \<longrightarrow> m < 2 ^ 51) \<and> m < 2 ^ 54"
  proof -
    obtain n where n: "t = of_int n / 2 ^ 22" using double_grid(1) [OF d lo' hi'] by blast
    define m where "m = n - EPOCH * 2 ^ 22"
    have e: "t - of_int EPOCH = of_int m / 2 ^ 22" by (simp add: m_def n field_simps)
    have "0 < t - of_int EPOCH" using lo by simp
    then have "(of_int 0 :: real) < of_int m" unfolding e by (simp add: zero_less_divide_iff)
    then have m0: "0 < m" by (rule int_of_real_less)
    have "(of_int m :: real) = (t - of_int EPOCH) * 2 ^ 22" unfolding e by simp
    then have "(of_int m :: real) < of_int (2 ^ 54)" using hi' by (simp add: EPOCH_def)
    then have m1: "m < 2 ^ 54" by (rule int_of_real_less)
    have m2: "m < 2 ^ 51" if "t < 2 ^ 31"
    proof -
      have "(of_int m :: real) = (t - of_int EPOCH) * 2 ^ 22" unfolding e by simp
      then have "(of_int m :: real) < of_int (2 ^ 51)" using that by (simp add: EPOCH_def)
      then show ?thesis by (rule int_of_real_less)
    qed
    from m0 e m1 m2 show ?thesis by blast
  qed
  show "\<exists>m. 0 < m \<and> m < 2 ^ 53 \<and> t - of_int EPOCH = of_int m / 2 ^ 21" if h: "2 ^ 31 \<le> t"
  proof -
    obtain n where n: "t = of_int n / 2 ^ 21" using double_grid(2) [OF d lo' hi' h] by blast
    define m where "m = n - EPOCH * 2 ^ 21"
    have e: "t - of_int EPOCH = of_int m / 2 ^ 21" by (simp add: m_def n field_simps)
    have "0 < t - of_int EPOCH" using lo by simp
    then have "(of_int 0 :: real) < of_int m" unfolding e by (simp add: zero_less_divide_iff)
    then have m0: "0 < m" by (rule int_of_real_less)
    have "(of_int m :: real) = (t - of_int EPOCH) * 2 ^ 21" unfolding e by simp
    then have "(of_int m :: real) < of_int (2 ^ 53)" using hi' by (simp add: EPOCH_def)
    then have m1: "m < 2 ^ 53" by (rule int_of_real_less)
    from m0 m1 e show ?thesis by blast
  qed
qed

lemma elapsed_exact:
  assumes d: "fl t = t"
    and lo: "of_int EPOCH + 1 / 1000 \<le> t" and hi: "t < of_int EPOCH + 2 ^ 41 / 1000"
  shows "fl (t - of_int EPOCH) = t - of_int EPOCH"
proof (cases "t < 2 ^ 31")
  case True
  obtain m where m: "0 < m" "t - of_int EPOCH = of_int m / 2 ^ 22" "m < 2 ^ 51"
    using elapsed_grid(1) [OF d lo hi] True by blast
  have "m < 2 ^ 53" using m(3) by simp
  then show ?thesis unfolding m(2) using m(1) by (intro fl_exact_q) simp_all
next
  case False
  then obtain m where m: "0 < m" "m < 2 ^ 53" "t - of_int EPOCH = of_int m / 2 ^ 21"
    using elapsed_grid(2) [OF d lo hi] by auto
  show ?thesis unfolding m(3) using m(1,2) by (intro fl_exact_q) simp_all
qed


lemma ms_upper:
  assumes d: "fl t = t"
    and lo: "of_int EPOCH + 1 / 1000 \<le> t" and hi: "t < of_int EPOCH + 2 ^ 41 / 1000"
  shows "fl ((t - of_int EPOCH) * 1000) \<le> of_int (2 ^ 53 - 1) / 2 ^ 12"
proof (rule fl_le_q)
  show "(0::int) < 2 ^ 53 - 1" "(2 ^ 53 - 1 :: int) < 2 ^ 53" "(12::nat) \<le> 1074" by simp_all
  show "(t - of_int EPOCH) * 1000 \<le> of_int (2 ^ 53 - 1) / 2 ^ 12"
  proof (cases "t < 2 ^ 31")
    case True
    then show ?thesis by (simp add: EPOCH_def)
  next
    case False
    then obtain m where m: "0 < m" "m < 2 ^ 53" "t - of_int EPOCH = of_int m / 2 ^ 21"
      using elapsed_grid(2) [OF d lo hi] by auto
    have "of_int m / 2 ^ 21 * 1000 < (2 ^ 41 :: real)" using hi unfolding m(3) [symmetric] by simp
    then have "(of_int (125 * m) :: real) < of_int (2 ^ 59)" by (simp add: field_simps)
    then have "125 * m < 2 ^ 59" by (rule int_of_real_less)
    then have "m < 4611686018427388" by simp
    then have "125 * m \<le> 2 ^ 59 - 64" by simp
    then have "(of_int (125 * m) :: real) \<le> of_int (2 ^ 59 - 64)" by (simp only: of_int_le_iff)
    then show ?thesis unfolding m(3) by (simp add: field_simps)
  qed
qed

lemma now_bounds:
  assumes d: "fl t = t"
    and lo: "of_int EPOCH + 1 / 1000 \<le> t" and hi: "t < of_int EPOCH + 2 ^ 41 / 1000"
  shows "\<bar>fl ((t - of_int EPOCH) * 1000)\<bar> < 2 ^ 1024"
    and "1 \<le> py_int (fl ((t - of_int EPOCH) * 1000))"
    and "py_int (fl ((t - of_int EPOCH) * 1000)) < 2 ^ 41"
    and "(t - of_int EPOCH) * 1000 < of_int (py_int (fl ((t - of_int EPOCH) * 1000))) + 1"
    and "of_int (py_int (fl ((t - of_int EPOCH) * 1000))) \<le> (t - of_int EPOCH) * 1000 + 1 / 4"
proof -
  define x where "x = (t - of_int EPOCH) * 1000"
  define ms where "ms = fl x"
  have x1: "1 \<le> x" using lo by (simp add: x_def)
  have x2: "x < 2 ^ 41" using hi by (simp add: x_def)
  have "of_int 1 \<le> fl x" by (rule fl_ge_int) (use x1 in simp_all)
  then have ms1: "1 \<le> ms" by (simp add: ms_def)
  have "ms \<le> of_int (2 ^ 53 - 1) / 2 ^ 12" unfolding ms_def x_def by (rule ms_upper [OF d lo hi])
  then have ms2: "ms < 2 ^ 41" by simp
  have p: "py_int ms = \<lfloor>ms\<rfloor>" using ms1 by (simp add: py_int_def)
  have a: "\<bar>ms\<bar> < 2 ^ 1024"
  proof -
    have "(2::real) ^ 41 \<le> 2 ^ 1024" by (rule power_increasing) simp_all
    then show ?thesis using ms1 ms2 by linarith
  qed
  have b: "1 \<le> py_int ms" unfolding p using ms1 by (simp add: le_floor_iff)
  have c: "py_int ms < 2 ^ 41" unfolding p using ms2 by (simp add: floor_less_iff)
  have e: "x < of_int (py_int ms) + 1"
  proof -
    have f1: "0 < \<lfloor>x\<rfloor>" using x1 by (simp add: floor_less_iff le_floor_iff)
    have "\<lfloor>x\<rfloor> < 2 ^ 41" using x2 by (simp add: floor_less_iff)
    then have f2: "\<lfloor>x\<rfloor> < 2 ^ 53" by simp
    have "of_int \<lfloor>x\<rfloor> \<le> fl x" by (rule fl_ge_int [OF f1 f2]) simp
    then have "\<lfloor>x\<rfloor> \<le> \<lfloor>ms\<rfloor>" by (simp add: ms_def le_floor_iff)
    then have "(of_int \<lfloor>x\<rfloor> :: real) \<le> of_int \<lfloor>ms\<rfloor>" by (simp only: of_int_le_iff)
    moreover have "x < of_int \<lfloor>x\<rfloor> + 1" by linarith
    ultimately show ?thesis unfolding p by linarith
  qed
  have g: "of_int (py_int ms) \<le> x + 1 / 4"
  proof (rule ccontr)
    assume "\<not> of_int (py_int ms) \<le> x + 1 / 4"
    define n where "n = py_int ms"
    have gt: "x + 1 / 4 < of_int n" using \<open>\<not> of_int (py_int ms) \<le> x + 1 / 4\<close> by (simp add: n_def)
    have nms: "of_int n \<le> ms" unfolding n_def p by (rule of_int_floor_le)
    define c where "c = 4 * n - 1"
    have c0: "0 < c" using b by (simp add: c_def n_def)
    have c1: "c < 2 ^ 53" using c by (simp add: c_def n_def)
    have cq: "(of_int c / 2 ^ 2 :: real) = of_int n - 1 / 4" by (simp add: c_def)
    have "x \<le> of_int c / 2 ^ 2" unfolding cq using gt by simp
    then have "fl x \<le> of_int c / 2 ^ 2" by (intro fl_le_q [OF c0 c1]) simp_all
    then have "ms \<le> of_int n - 1 / 4" unfolding cq ms_def .
    then show False using nms by linarith
  qed
  show "\<bar>fl ((t - of_int EPOCH) * 1000)\<bar> < 2 ^ 1024"
    and "1 \<le> py_int (fl ((t - of_int EPOCH) * 1000))"
    and "py_int (fl ((t - of_int EPOCH) * 1000)) < 2 ^ 41"
    and "(t - of_int EPOCH) * 1000 < of_int (py_int (fl ((t - of_int EPOCH) * 1000))) + 1"
    and "of_int (py_int (fl ((t - of_int EPOCH) * 1000))) \<le> (t - of_int EPOCH) * 1000 + 1 / 4"
    using a b c e g unfolding ms_def x_def by blast+
qed


lemma grid_gap:
  assumes "(of_int k :: real) / 2 ^ a - of_int j / 2 ^ a < c" "c * 2 ^ a \<le> of_int (b + 1)"
  shows "(of_int k :: real) / 2 ^ a - of_int j / 2 ^ a \<le> of_int b / 2 ^ a"
proof -
  have "(of_int k :: real) / 2 ^ a - of_int j / 2 ^ a = of_int (k - j) / 2 ^ a"
    by (simp add: diff_divide_distrib)
  then have "(of_int (k - j) :: real) / 2 ^ a < c" using assms(1) by simp
  then have "(of_int (k - j) :: real) < c * 2 ^ a" by (simp add: pos_divide_less_eq)
  then have "(of_int (k - j) :: real) < of_int (b + 1)" using assms(2) by linarith
  then have "k - j < b + 1" by (rule int_of_real_less)
  then have "k - j \<le> b" by simp
  then have "(of_int (k - j) :: real) \<le> of_int b" by (simp only: of_int_le_iff)
  then have "(of_int (k - j) :: real) / 2 ^ a \<le> of_int b / 2 ^ a"
    by (simp add: divide_right_mono)
  then show ?thesis by (simp add: diff_divide_distrib)
qed

lemma time_back:
  assumes d: "fl t = t"
    and lo: "of_int EPOCH + 1 / 1000 \<le> t" and hi: "t < of_int EPOCH + 2 ^ 41 / 1000"
    and n1: "1 \<le> n"
    and a: "(t - of_int EPOCH) * 1000 < of_int n + 1"
    and b: "of_int n \<le> (t - of_int EPOCH) * 1000 + 1 / 4"
  shows "fl (of_int n / 1000) < 2 ^ 1024"
    and "\<bar>fl (fl (of_int n / 1000) + of_int EPOCH) - t\<bar> \<le> 1 / 1000"
proof -
  define x where "x = t - of_int EPOCH"
  define w where "w = (of_int n :: real) / 1000"
  define q where "q = fl w"
  define z where "z = q + of_int EPOCH"
  define r where "r = fl z"
  have E: "(of_int EPOCH :: real) = 1641020400" by (simp add: EPOCH_def)
  have tx: "t = x + 1641020400" by (simp add: x_def E)
  have zq: "z = q + 1641020400" by (simp add: z_def E)
  have x1: "1 / 1000 \<le> x" using lo by (simp add: x_def)
  have x2: "x < 2199023255552 / 1000" using hi by (simp add: x_def)
  have w1: "x - 1 / 1000 < w" using a by (simp add: w_def x_def)
  have w2: "w \<le> x + 1 / 4000" using b by (simp add: w_def x_def)
  have w0: "1 / 1000 \<le> w" using n1 by (simp add: w_def)
  have wp: "0 < w" using w0 by linarith
  have "w < 4294967296" using w2 x2 by linarith
  then have w32: "w < 2 ^ 32" by simp
  have eq: "\<bar>q - w\<bar> \<le> 1 / 4194304"
    unfolding q_def using fl_err_q [OF wp w32] by simp
  have z0n: "1073741824 \<le> z" using eq w0 unfolding zq by linarith
  then have z0: "2 ^ 30 \<le> z" by simp
  have zp: "0 < z" using z0n by linarith
  have z32n: "z < 4294967296" using eq w2 x2 unfolding zq by linarith
  then have z32: "z < 2 ^ 32" by simp
  have er: "\<bar>r - z\<bar> \<le> 1 / 4194304"
    unfolding r_def using fl_err_q [OF zp z32] by simp
  have t0n: "1073741824 \<le> t" using x1 unfolding tx by linarith
  then have t0: "2 ^ 30 \<le> t" by simp
  have t32n: "t < 4294967296" using x2 unfolding tx by linarith
  then have t32: "t < 2 ^ 32" by simp
  have ov: "q < 2 ^ 1024"
  proof -
    have "(2::real) ^ 33 \<le> 2 ^ 1024" by (rule power_increasing) simp_all
    moreover have "q < 8589934592" using eq \<open>w < 4294967296\<close> by linarith
    then have "q < 2 ^ 33" by simp
    ultimately show ?thesis by linarith
  qed
  have up: "r \<le> t + 1 / 1000" using er eq w2 unfolding zq tx by linarith
  have low: "t - 1 / 1000 \<le> r"
  proof (cases "z < 2147483648")
    case True
    then have z31: "z < 2 ^ 31" by simp
    have w29n: "w < 536870912"
    proof (rule ccontr)
      assume "\<not> w < 536870912"
      then have "of_int (2 ^ 29) \<le> w" by simp
      then have "of_int (2 ^ 29) \<le> fl w" by (intro fl_ge_int) simp_all
      then have "536870912 \<le> q" by (simp add: q_def)
      then show False using True unfolding zq by linarith
    qed
    then have w29: "w < 2 ^ 29" by simp
    have eq': "\<bar>q - w\<bar> \<le> 1 / 33554432"
      unfolding q_def using fl_err_q [OF wp w29] by simp
    have er': "\<bar>r - z\<bar> \<le> 1 / 8388608"
      unfolding r_def using fl_err_q [OF zp z31] by simp
    obtain j where j: "r = of_int j / 2 ^ 22" using fl_grid30 [OF z0 z31] unfolding r_def by blast
    obtain k where k: "t = of_int k / 2 ^ 22" using double_grid(1) [OF d t0 t32] by blast
    have "t - r < 1 / 1000 + 5 / 33554432" using eq' er' w1 unfolding zq tx by linarith
    then have "of_int k / 2 ^ 22 - of_int j / 2 ^ 22 \<le> (of_int 4194 :: real) / 2 ^ 22"
      unfolding j k by (rule grid_gap) simp
    then have "t - r \<le> 4194 / 4194304" unfolding j k by simp
    then show ?thesis by linarith
  next
    case False
    then have z31n: "2147483648 \<le> z" by simp
    show ?thesis
    proof (cases "t < 2147483648")
      case True
      have "of_int (2 ^ 31) \<le> z" using z31n by simp
      then have "of_int (2 ^ 31) \<le> fl z" by (intro fl_ge_int) simp_all
      then have "2147483648 \<le> r" by (simp add: r_def)
      then show ?thesis using True by linarith
    next
      case False
      then have t31: "2 ^ 31 \<le> t" by simp
      have z31': "2 ^ 31 \<le> z" using z31n by simp
      obtain k where k: "t = of_int k / 2 ^ 21" using double_grid(2) [OF d t0 t32 t31] by blast
      show ?thesis
      proof (cases "w < 2147483648")
        case True
        then have w31: "w < 2 ^ 31" by simp
        have eq': "\<bar>q - w\<bar> \<le> 1 / 8388608"
          unfolding q_def using fl_err_q [OF wp w31] by simp
        obtain j where j: "r = of_int j / 2 ^ 21"
          using fl_grid31 [OF z31' z32] unfolding r_def by blast
        have "t - r < 1 / 1000 + 3 / 8388608" using eq' er w1 unfolding zq tx by linarith
        then have "of_int k / 2 ^ 21 - of_int j / 2 ^ 21 \<le> (of_int 2097 :: real) / 2 ^ 21"
          unfolding j k by (rule grid_gap) simp
        then have "t - r \<le> 2097 / 2097152" unfolding j k by simp
        then show ?thesis by linarith
      next
        case False
        then have w31: "2 ^ 31 \<le> w" by simp
        obtain i where i: "q = of_int i / 2 ^ 21"
          using fl_grid31 [OF w31 w32] unfolding q_def by blast
        define c where "c = i + EPOCH * 2 ^ 21"
        have zc: "z = of_int c / 2 ^ 21" by (simp add: c_def z_def i field_simps)
        have "(of_int 0 :: real) < of_int c" using zp unfolding zc by (simp add: zero_less_divide_iff)
        then have c0: "0 < c" by (rule int_of_real_less)
        have "(of_int c :: real) = z * 2 ^ 21" unfolding zc by simp
        then have "(of_int c :: real) < of_int (2 ^ 53)" using z32n by simp
        then have c1: "c < 2 ^ 53" by (rule int_of_real_less)
        have rz: "r = z" unfolding r_def zc by (intro fl_exact_q [OF c0 c1]) simp
        obtain m where m: "x = of_int m / 2 ^ 21"
          using elapsed_grid(2) [OF d lo hi t31] unfolding x_def by blast
        have "x - q < 1 / 1000 + 1 / 4194304" using eq w1 by linarith
        then have "of_int m / 2 ^ 21 - of_int i / 2 ^ 21 \<le> (of_int 2097 :: real) / 2 ^ 21"
          unfolding m i by (rule grid_gap) simp
        then have "x - q \<le> 2097 / 2097152" unfolding m i by simp
        then show ?thesis unfolding rz zq tx by linarith
      qed
    qed
  qed
  show "fl (of_int n / 1000) < 2 ^ 1024" using ov by (simp add: q_def w_def)
  have "\<bar>r - t\<bar> \<le> 1 / 1000" using up low by linarith
  then show "\<bar>fl (fl (of_int n / 1000) + of_int EPOCH) - t\<bar> \<le> 1 / 1000"
    by (simp add: r_def z_def q_def w_def)
qed

lemma pack_drop:
  assumes "0 \<le> r" "r < 2 ^ 19" "0 \<le> y" "y < 8"
  shows "drop_bit 22 (push_bit 22 n OR push_bit 3 r OR y) = (n::int)"
proof -
  have a: "drop_bit 22 (push_bit 3 r) = 0"
    using assms by (simp add: drop_bit_eq_div push_bit_eq_mult)
  have b: "drop_bit 22 y = 0"
    using assms by (simp add: drop_bit_eq_div)
  have c: "drop_bit 22 (push_bit 22 n) = n"
    by (simp add: drop_bit_push_bit_int)
  show ?thesis by (simp add: a b c)
qed

lemma pack_type:
  assumes "0 \<le> y" "y < 8"
  shows "(push_bit 22 n OR push_bit 3 r OR y) AND 7 = (y::int)"
proof -
  have m: "(7::int) = mask 3" by (simp add: mask_eq_exp_minus_1)
  have "take_bit 3 (push_bit 22 n OR push_bit 3 r OR y) = take_bit 3 y"
    by (simp add: take_bit_push_bit)
  also have "\<dots> = y" using assms by (simp add: take_bit_int_eq_self)
  finally show ?thesis unfolding m by (simp only: take_bit_eq_mask)
qed

lemma pack_upper:
  assumes "0 \<le> n" "n < 2 ^ 41" "0 \<le> r" "r < 2 ^ 19" "0 \<le> y" "y < 8"
  shows "(push_bit 22 n OR push_bit 3 r OR (y::int)) < 2 ^ 63"
proof -
  have "push_bit 22 n < 2 ^ 63" using assms by (simp add: push_bit_eq_mult)
  moreover have "push_bit 3 r < 2 ^ 63" using assms by (simp add: push_bit_eq_mult)
  moreover have "y < 2 ^ 63" using assms by simp
  moreover have "0 \<le> push_bit 22 n" "0 \<le> push_bit 3 r"
    using assms by simp_all
  ultimately show ?thesis
    by (intro OR_upper) assumption+
qed

lemma pack_lower:
  assumes "1 \<le> n" "0 \<le> r" "r < 2 ^ 19" "0 \<le> y" "y < 8"
  shows "(2::int) ^ 22 \<le> push_bit 22 n OR push_bit 3 r OR y"
proof -
  let ?s = "push_bit 22 n OR push_bit 3 r OR y"
  have "?s div 2 ^ 22 = n"
    using pack_drop [OF assms(2-5), of n] by (simp add: drop_bit_eq_div)
  then have "1 \<le> ?s div 2 ^ 22" using assms(1) by simp
  then show ?thesis
    by (simp add: pos_imp_zdiv_pos_iff)
qed


lemma get_type_pack:
  assumes "1 \<le> n" "0 \<le> r" "r < 2 ^ 19" "0 \<le> y" "y < 8"
  shows "get_type (push_bit 22 n OR push_bit 3 r OR y) = Inr y"
proof -
  have "\<not> (push_bit 22 n OR push_bit 3 r OR y) < push_bit 22 1"
    using pack_lower [OF assms] by (simp add: push_bit_eq_mult)
  then show ?thesis
    by (simp only: get_type_def if_False pack_type [OF assms(4,5)])
qed

lemma get_time_pack:
  assumes "1 \<le> n" "0 \<le> r" "r < 2 ^ 19" "0 \<le> y" "y < 8"
    and "fl (of_int n / 1000) < 2 ^ 1024"
  shows "get_time (push_bit 22 n OR push_bit 3 r OR y)
           = Inr (fl (fl (of_int n / 1000) + of_int EPOCH))"
proof -
  have "\<not> (push_bit 22 n OR push_bit 3 r OR y) < push_bit 22 1"
    using pack_lower [OF assms(1-5)] by (simp add: push_bit_eq_mult)
  moreover have "\<not> 2 ^ 1024 \<le> fl (of_int n / 1000)" using assms(6) by simp
  ultimately show ?thesis
    by (simp only: get_time_def if_False pack_drop [OF assms(2-5)] Let_def)
qed

lemma get_small:
  "s < 2 ^ 22 \<Longrightarrow> get_type s = Inl (ValueError [''Not a valid Snowflake ID''])
     \<and> get_time s = Inl (ValueError [''Not a valid Snowflake ID''])"
  by (simp add: get_type_def get_time_def push_bit_eq_mult)

lemma generate_now:
  assumes d: "fl t = t"
    and lo: "of_int EPOCH + 1 / 1000 \<le> t" and hi: "t < of_int EPOCH + 2 ^ 41 / 1000"
  shows "generate t r y
           = Inr (push_bit 22 (py_int (fl ((t - of_int EPOCH) * 1000))) OR push_bit 3 r OR y)"
proof -
  have ex: "fl (t - of_int EPOCH) = t - of_int EPOCH" by (rule elapsed_exact [OF d lo hi])
  have "\<not> 2 ^ 1024 \<le> \<bar>fl ((t - of_int EPOCH) * 1000)\<bar>"
    using now_bounds(1) [OF d lo hi] by simp
  then show ?thesis by (simp only: generate_def ex Let_def if_False)
qed

text \<open>
  Claim C8, as amended.  For a type tag \<open>y\<close> in 0..7, 19 random bits \<open>r\<close> and a clock
  reading \<open>t\<close> (a float) at least one millisecond and less than \<open>2 ^ 41\<close> milliseconds
  after the epoch, \<open>generate\<close> returns an identifier that is non-negative and fits in 63
  bits, \<open>get_type\<close> gives back exactly \<open>y\<close>, and \<open>get_time\<close> gives a time within one
  millisecond of \<open>t\<close>.  Both \<open>get_type\<close> and \<open>get_time\<close> fail with the
  invalid-identifier \<open>ValueError\<close> on every identifier below \<open>2 ^ 22\<close>.
\<close>

theorem snowflake_roundtrip:
  assumes y: "0 \<le> y" "y \<le> 7"
    and r: "0 \<le> r" "r < 2 ^ 19"
    and d: "fl t = t"
    and t: "of_int EPOCH + 1 / 1000 \<le> t" "t < of_int EPOCH + 2 ^ 41 / 1000"
  shows "(\<exists>s t'. generate t r y = Inr s \<and> 0 \<le> s \<and> s < 2 ^ 63
            \<and> get_type s = Inr y
            \<and> get_time s = Inr t' \<and> \<bar>t' - t\<bar> \<le> 1 / 1000)
    \<and> (\<forall>s. s < 2 ^ 22 \<longrightarrow>
          get_type s = Inl (ValueError [''Not a valid Snowflake ID''])
          \<and> get_time s = Inl (ValueError [''Not a valid Snowflake ID'']))"
proof -
  define n where "n = py_int (fl ((t - of_int EPOCH) * 1000))"
  define s where "s = push_bit 22 n OR push_bit 3 r OR y"
  have y8: "y < 8" using y by simp
  have n1: "1 \<le> n" and n2: "n < 2 ^ 41"
    and a: "(t - of_int EPOCH) * 1000 < of_int n + 1"
    and b: "of_int n \<le> (t - of_int EPOCH) * 1000 + 1 / 4"
    unfolding n_def by (rule now_bounds [OF d t])+
  have n0: "0 \<le> n" using n1 by simp
  have g: "generate t r y = Inr s" unfolding s_def n_def by (rule generate_now [OF d t])
  have nonneg: "0 \<le> s" unfolding s_def using n0 r y by simp
  have upper: "s < 2 ^ 63" unfolding s_def by (rule pack_upper [OF n0 n2 r y(1) y8])
  have ty: "get_type s = Inr y" unfolding s_def by (rule get_type_pack [OF n1 r y(1) y8])
  have tm: "get_time s = Inr (fl (fl (of_int n / 1000) + of_int EPOCH))"
    unfolding s_def by (rule get_time_pack [OF n1 r y(1) y8 time_back(1) [OF d t n1 a b]])
  have near: "\<bar>fl (fl (of_int n / 1000) + of_int EPOCH) - t\<bar> \<le> 1 / 1000"
    by (rule time_back(2) [OF d t n1 a b])
  have small: "\<forall>s. s < 2 ^ 22 \<longrightarrow>
          get_type s = Inl (ValueError [''Not a valid Snowflake ID''])
          \<and> get_time s = Inl (ValueError [''Not a valid Snowflake ID''])"
    using get_small by blast
  from g nonneg upper ty tm near small show ?thesis by blast
qed

text \<open>
  The theorem at tag 4, random bits 77 and the clock reading \<open>1700000000.102\<close>, which
  as a double is \<open>7130316800427819 / 2 ^ 22\<close>.  The exact number of milliseconds since
  the epoch is a little less than \<open>58979600102\<close>; the product rounds to \<open>58979600102\<close>,
  and that is the timestamp in the identifier.
\<close>

theorem snowflake_roundtrip_witness:
  "(0::int) \<le> 4 \<and> (4::int) \<le> 7 \<and> (0::int) \<le> 77 \<and> (77::int) < 2 ^ 19
   \<and> fl (7130316800427819 / 4194304) = 7130316800427819 / 4194304
   \<and> of_int EPOCH + 1 / 1000 \<le> (7130316800427819 / 4194304 :: real)
   \<and> (7130316800427819 / 4194304 :: real) < of_int EPOCH + 2 ^ 41 / 1000
   \<and> generate (7130316800427819 / 4194304) 77 4 = Inr 247378372626219628
   \<and> (247378372626219628 :: int) < 2 ^ 63
   \<and> get_type 247378372626219628 = Inr 4
   \<and> (\<exists>t'. get_time 247378372626219628 = Inr t'
           \<and> \<bar>t' - 7130316800427819 / 4194304\<bar> \<le> 1 / 1000)
   \<and> get_type 4194303 = Inl (ValueError [''Not a valid Snowflake ID''])"
proof -
  have h: "(0::int) \<le> 4" "(4::int) \<le> 7" "(0::int) \<le> 77" "(77::int) < 2 ^ 19" by simp_all
  have d: "fl (7130316800427819 / 4194304) = 7130316800427819 / 4194304"
    using fl_exact_q [of 7130316800427819 22] by simp
  have t: "of_int EPOCH + 1 / 1000 \<le> (7130316800427819 / 4194304 :: real)"
    "(7130316800427819 / 4194304 :: real) < of_int EPOCH + 2 ^ 41 / 1000"
    by (simp_all add: EPOCH_def)
  have ms: "fl ((7130316800427819 / 4194304 - of_int EPOCH) * 1000) = 58979600102"
    using fl_round_q [of 35 "(7130316800427819 / 4194304 - of_int EPOCH) * 1000"]
    by (simp add: EPOCH_def round_even_def)
  have g: "generate (7130316800427819 / 4194304) 77 4 = Inr 247378372626219628"
    unfolding generate_now [OF d t] ms by (simp add: py_int_def push_bit_eq_mult)
  from h d t g snowflake_roundtrip [OF h d t] show ?thesis by simp
qed

text \<open>On that identifier \<open>get_time\<close> gives back the clock reading itself.\<close>

lemma get_time_example:
  "get_time 247378372626219628 = Inr (7130316800427819 / 4194304)"
proof -
  have dr: "drop_bit 22 (247378372626219628 :: int) = 58979600102"
    by (simp add: drop_bit_eq_div)
  have q: "fl (29489800051 / 500) = 247378372626219 / 4194304"
    using fl_round_q [of 25 "29489800051 / 500"] by (simp add: round_even_def)
  have z: "fl (7130316800427819 / 4194304) = 7130316800427819 / 4194304"
    using fl_exact_q [of 7130316800427819 22] by simp
  have ov: "\<not> (2 ^ 1024 \<le> (247378372626219 / 4194304 :: real))" by simp
  show ?thesis
    unfolding get_time_def dr Let_def by (simp add: q z ov EPOCH_def push_bit_eq_mult)
qed

text \<open>
  Claim C8 as stated fails for instants after the epoch outside that window.  At the
  clock reading \<open>3840043656\<close>, more than \<open>2 ^ 41\<close> milliseconds after the epoch, the
  identifier is greater than \<open>2 ^ 63\<close> and needs 64 bits.  At \<open>1 / 2048\<close> of a second
  after the epoch the timestamp is 0 and the identifier is below \<open>2 ^ 22\<close>, so \<open>get_type\<close>
  rejects it instead of returning the tag.
\<close>

theorem snowflake_range_counterexample:
  "fl 3840043656 = 3840043656
   \<and> (of_int EPOCH :: real) < 3840043656
   \<and> generate 3840043656 0 0 = Inr 9223372038733824000
   \<and> \<not> (9223372038733824000 :: int) < 2 ^ 63
   \<and> fl (3360809779201 / 2048) = 3360809779201 / 2048
   \<and> (of_int EPOCH :: real) < 3360809779201 / 2048
   \<and> generate (3360809779201 / 2048) 0 5 = Inr 5
   \<and> get_type 5 = Inl (ValueError [''Not a valid Snowflake ID''])"
proof -
  have a: "fl 3840043656 = 3840043656" using fl_exact_int [of 3840043656] by simp
  have b: "fl 2199023256 = 2199023256" using fl_exact_int [of 2199023256] by simp
  have c: "fl 2199023256000 = 2199023256000" using fl_exact_int [of 2199023256000] by simp
  have g1: "generate 3840043656 0 0 = Inr 9223372038733824000"
    by (simp add: generate_def EPOCH_def b c py_int_def push_bit_eq_mult)
  have e: "fl (3360809779201 / 2048) = 3360809779201 / 2048"
    using fl_exact_q [of 3360809779201 11] by simp
  have f: "fl (1 / 2048) = 1 / 2048" using fl_exact_q [of 1 11] by simp
  have k: "fl (125 / 256) = 125 / 256" using fl_exact_q [of 125 8] by simp
  have g2: "generate (3360809779201 / 2048) 0 5 = Inr 5"
    by (simp add: generate_def EPOCH_def f k py_int_def push_bit_eq_mult)
  show ?thesis using a g1 e g2 by (simp add: EPOCH_def get_type_def push_bit_eq_mult)
qed

section \<open>Follower lists\<close>

lemma get_follower_ids_replicate:
  "get_follower_ids d pk =
     replicate (length (filter (\<lambda>f. follow_target f = pk \<and> follow_state f = ''accepted'')
                          (follows d))) pk"
proof -
  have "map follow_target (filter (\<lambda>f. follow_target f = pk \<and> P f) xs)
          = replicate (length (filter (\<lambda>f. follow_target f = pk \<and> P f) xs)) pk" for P xs
    by (induction xs) simp_all
  then show ?thesis by (simp add: get_follower_ids_def)
qed

text \<open>
  Claim C1 fails on the code.  With one accepted follow from identity 1 to identity 2, the
  follower list of identity 2 is \<open>[2]\<close>, the identity itself, where the claim requires
  \<open>[1]\<close>, the source of the row: the query projects the \<open>target\<close> column, as
  \<open>get_following_ids\<close> does, after filtering on that same column.
\<close>

theorem get_follower_ids_returns_target:
  "get_follower_ids
     \<lparr>domains = [], identities = [], 
      follows = [\<lparr>follow_id = 10, follow_source = 1, follow_target = 2, follow_boosts = True,
                  follow_uri = Some ''https://a.example/follow/10/'',
                  follow_state = ''accepted''\<rparr>],
      blocks = [], posts = [], interactions = []\<rparr> 2 = [2]"
  by (simp add: get_follower_ids_def)

section \<open>Active blocks\<close>

text \<open>
  Claim C9 fails on the code.  With \<open>require_active=True\<close> the query filters on
  \<open>status__in\<close>, and \<open>Block\<close> has no field \<open>status\<close> (its column is \<open>state\<close>), so
  \<open>maybe_get\<close> raises \<open>FieldError\<close> on every state and for every argument; it never
  returns a block and never returns \<open>None\<close>.
\<close>

theorem maybe_get_require_active_raises:
  "maybe_get d source target is_mute True = Inl (FieldError ''status'')"
  by (simp add: maybe_get_def block_filter_in_def block_text_column_def)

section \<open>Operations on a missing post\<close>

lemma no_post_first:
  assumes "post_pk \<notin> set (map post_id (posts d))"
  shows "first_by post_id (filter (\<lambda>p. post_id p = post_pk) (posts d)) = None"
proof -
  have "filter (\<lambda>p. post_id p = post_pk) (posts d) = []"
    using assms by (auto simp: filter_empty_conv)
  then show ?thesis by simp
qed

text \<open>
  Claim C10.  When no post has primary key \<open>post_pk\<close>, \<open>interact_post\<close> returns \<open>None\<close>
  and \<open>uninteract_post\<close> returns, both leaving the state as it was, \<open>get_user_interaction\<close>
  returns \<open>None\<close> and \<open>get_post_stats\<close> the empty dict; none of them raises.
\<close>

theorem missing_post_noop:
  assumes "post_pk \<notin> set (map post_id (posts d))"
  shows "interact_post d new_id post_pk identity_pk itype = Inr (d, None)
     \<and> uninteract_post d post_pk identity_pk itype = d
     \<and> get_user_interaction d post_pk identity_pk itype = None
     \<and> get_post_stats d post_pk = []"
  by (simp add: interact_post_def uninteract_post_def get_user_interaction_def
        get_post_stats_def no_post_first [OF assms])

text \<open>The theorem on a state whose only post has key 5, asked about key 6.\<close>

theorem missing_post_noop_witness:
  "(6::int) \<notin> set (map post_id
        (posts \<lparr>domains = [], identities = [], follows = [], blocks = [],
                posts = [\<lparr>post_id = 5, post_author = 1, post_object_uri = Some ''u'',
                          post_in_reply_to = None, post_stats = None\<rparr>],
                interactions = []\<rparr>))
   \<and> interact_post \<lparr>domains = [], identities = [], follows = [], blocks = [],
                posts = [\<lparr>post_id = 5, post_author = 1, post_object_uri = Some ''u'',
                          post_in_reply_to = None, post_stats = None\<rparr>],
                interactions = []\<rparr> 900 6 1 ''like''
       = Inr (\<lparr>domains = [], identities = [], follows = [], blocks = [],
                posts = [\<lparr>post_id = 5, post_author = 1, post_object_uri = Some ''u'',
                          post_in_reply_to = None, post_stats = None\<rparr>],
                interactions = []\<rparr>, None)
   \<and> get_post_stats \<lparr>domains = [], identities = [], follows = [], blocks = [],
                posts = [\<lparr>post_id = 5, post_author = 1, post_object_uri = Some ''u'',
                          post_in_reply_to = None, post_stats = None\<rparr>],
                interactions = []\<rparr> 6 = []"
proof -
  let ?d = "\<lparr>domains = [], identities = [], follows = [], blocks = [],
                posts = [\<lparr>post_id = 5, post_author = 1, post_object_uri = Some ''u'',
                          post_in_reply_to = None, post_stats = None\<rparr>],
                interactions = []\<rparr>"
  have h: "(6::int) \<notin> set (map post_id (posts ?d))" by simp
  from h missing_post_noop [OF h, of 900 1 "''like''"] show ?thesis by blast
qed

section \<open>Webfinger failures\<close>

text \<open>
  A handle that contains \<open>@\<close> has at least two parts, and the host-meta probe either
  meets a certificate error or yields a template.
\<close>

lemma split_at_two:
  "c \<in> set s \<Longrightarrow> \<exists>p q ps. split_at c s = p # q # ps"
proof (induction s)
  case Nil
  then show ?case by simp
next
  case (Cons x xs)
  have ne: "split_at c xs \<noteq> []" by (cases xs) (auto split: list.splits)
  show ?case
  proof (cases "x = c")
    case True
    then show ?thesis using ne by (cases "split_at c xs") auto
  next
    case False
    then have "c \<in> set xs" using Cons.prems by simp
    then obtain p q ps where "split_at c xs = p # q # ps" using Cons.IH by blast
    then show ?thesis using False by simp
  qed
qed

lemma fetch_webfinger_url_cases:
  "fetch_webfinger_url dn hm = Inl SSLCertVerificationError
     \<or> (\<exists>u. fetch_webfinger_url dn hm = Inr u)"
  by (cases hm) (auto simp: fetch_webfinger_url_def Let_def split: xml_result.splits)

lemma fetch_webfinger_url_ok:
  "hm \<noteq> HostMetaCertError \<Longrightarrow> \<exists>u. fetch_webfinger_url dn hm = Inr u"
  by (cases hm) (auto simp: fetch_webfinger_url_def Let_def split: xml_result.splits)

lemma fetch_webfinger_cert:
  assumes "split_at CHR ''@'' hdl = p # dn # ps"
  shows "fetch_webfinger str_format client_get hdl HostMetaCertError = Inr (None, None)"
  by (simp add: fetch_webfinger_def assms fetch_webfinger_url_def)

text \<open>
  An exception of the template expansion leaves \<open>fetch_webfinger\<close>: a host-meta
  template with a field other than \<open>{uri}\<close> makes it raise \<open>KeyError\<close>, whatever the
  network would answer.
\<close>

lemma fetch_webfinger_format_error:
  assumes "split_at CHR ''@'' hdl = p # dn # ps"
    and "fetch_webfinger_url (lower dn) hm = Inr template"
    and "str_format template (''acct:'' @ hdl) = Inl e"
    and "e \<noteq> SSLCertVerificationError"
  shows "fetch_webfinger str_format client_get hdl hm = Inl e"
  using assms by (simp add: fetch_webfinger_def)

lemma fetch_webfinger_bad_template:
  "fetch_webfinger format_uri client_get ''bob@example.com''
     (HostMetaResponse 200 ''(an XRD document)''
        (XmlTemplate ''https://example.com/{path}?resource={uri}''))
     = Inl (KeyError ''path'')"
  by (simp add: fetch_webfinger_def fetch_webfinger_url_def is_space_def format_uri_def
        lower_def lower_char_def)

lemma fetch_webfinger_request:
  assumes "split_at CHR ''@'' hdl = p # dn # ps"
    and "fetch_webfinger_url (lower dn) hm = Inr template"
    and "str_format template (''acct:'' @ hdl) = Inr url"
  shows "client_get url = RequestError \<or> client_get url = CertificateError
           \<Longrightarrow> fetch_webfinger str_format client_get hdl hm = Inr (None, None)"
    and "client_get url = StatusError s body
           \<Longrightarrow> s \<in> set [400, 401, 403, 404, 406, 410] \<or> 500 \<le> s
           \<Longrightarrow> fetch_webfinger str_format client_get hdl hm = Inr (None, None)"
    and "client_get url = StatusError s body
           \<Longrightarrow> s < 500 \<Longrightarrow> s \<notin> set [400, 401, 403, 404, 406, 410]
           \<Longrightarrow> fetch_webfinger str_format client_get hdl hm
                 = Inl (ValueError [''Client error fetching webfinger: '' @ str_int s, body])"
  using assms by (auto simp: fetch_webfinger_def)

text \<open>
  Claim C3, as amended.  Take a handle \<open>user@domain\<close>.  When the host-meta probe meets
  a TLS certificate error, \<open>fetch_webfinger\<close> returns the not-found pair without raising.
  When the webfinger request, the GET of the expanded webfinger URL, fails on the
  network, meets a TLS certificate error, or is answered with an error status in
  \<open>{400, 401, 403, 404, 406, 410}\<close> or with any status from 500 up, it returns the
  not-found pair without raising.  When the request is answered with an error status
  below 500 outside that set, it raises a \<open>ValueError\<close> carrying the status and the
  body.
\<close>

theorem fetch_webfinger_failures:
  assumes sp: "split_at CHR ''@'' hdl = p # dn # ps"
    and tpl: "fetch_webfinger_url (lower dn) hm = Inr template"
    and url: "str_format template (''acct:'' @ hdl) = Inr url"
  shows "fetch_webfinger str_format client_get hdl HostMetaCertError = Inr (None, None)
     \<and> (client_get url = RequestError \<or> client_get url = CertificateError \<longrightarrow>
          fetch_webfinger str_format client_get hdl hm = Inr (None, None))
     \<and> (client_get url = StatusError s body
          \<and> (s \<in> set [400, 401, 403, 404, 406, 410] \<or> 500 \<le> s) \<longrightarrow>
          fetch_webfinger str_format client_get hdl hm = Inr (None, None))
     \<and> (client_get url = StatusError s body
          \<and> s < 500 \<and> s \<notin> set [400, 401, 403, 404, 406, 410] \<longrightarrow>
          fetch_webfinger str_format client_get hdl hm
            = Inl (ValueError [''Client error fetching webfinger: '' @ str_int s, body]))"
  using fetch_webfinger_cert [OF sp]
    fetch_webfinger_request [where str_format = str_format and client_get = client_get,
      OF sp tpl url]
  by blast

text \<open>
  The theorem at the handle \<open>bob@example.com\<close> with an unreachable host-meta, so that
  the request goes to the fallback URL: a network failure and status 404 give not-found,
  status 418 raises.
\<close>

theorem fetch_webfinger_failures_witness:
  "split_at CHR ''@'' ''bob@example.com'' = [''bob'', ''example.com'']
   \<and> fetch_webfinger_url (lower ''example.com'') HostMetaRequestError
        = Inr ''https://example.com/.well-known/webfinger?resource={uri}''
   \<and> format_uri ''https://example.com/.well-known/webfinger?resource={uri}''
        (''acct:'' @ ''bob@example.com'')
        = Inr ''https://example.com/.well-known/webfinger?resource=acct:bob@example.com''
   \<and> fetch_webfinger format_uri (answering RequestError) ''bob@example.com''
        HostMetaRequestError = Inr (None, None)
   \<and> fetch_webfinger format_uri (answering (StatusError 404 ''gone'')) ''bob@example.com''
        HostMetaRequestError = Inr (None, None)
   \<and> fetch_webfinger format_uri (answering (StatusError 418 ''teapot'')) ''bob@example.com''
        HostMetaRequestError
        = Inl (ValueError [''Client error fetching webfinger: 418'', ''teapot''])"
proof -
  have h1: "split_at CHR ''@'' ''bob@example.com'' = [''bob'', ''example.com'']" by simp
  have h2: "fetch_webfinger_url (lower ''example.com'') HostMetaRequestError
              = Inr ''https://example.com/.well-known/webfinger?resource={uri}''"
    by (simp add: fetch_webfinger_url_def lower_def lower_char_def)
  have h3: "format_uri ''https://example.com/.well-known/webfinger?resource={uri}''
              (''acct:'' @ ''bob@example.com'')
              = Inr ''https://example.com/.well-known/webfinger?resource=acct:bob@example.com''"
    by (simp add: format_uri_def)
  have n: "str_int 418 = ''418''" by (simp add: str_int_def str_nat.simps digit_char_def)
  from h1 h2 h3
    fetch_webfinger_failures [where str_format = format_uri
      and client_get = "answering RequestError", OF h1 h2 h3]
    fetch_webfinger_failures [where str_format = format_uri
      and client_get = "answering (StatusError 404 ''gone'')" and s = 404
      and body = "''gone''", OF h1 h2 h3]
    fetch_webfinger_failures [where str_format = format_uri
      and client_get = "answering (StatusError 418 ''teapot'')" and s = 418
      and body = "''teapot''", OF h1 h2 h3]
  show ?thesis by (simp add: n answering_def)
qed

text \<open>
  Claim C3 as stated fails on a server error: a response with status 500 is not raised
  but answered with the not-found pair.
\<close>

theorem fetch_webfinger_server_error_counterexample:
  "fetch_webfinger format_uri (answering (StatusError 500 ''oops'')) ''bob@example.com''
     HostMetaRequestError
     = Inr (None, None)"
  by (simp add: fetch_webfinger_def fetch_webfinger_url_def format_uri_def answering_def
        lower_def lower_char_def)

section \<open>Tables with distinct primary keys\<close>

lemma pk_unique:
  assumes "distinct (map pk tbl)" "x \<in> set tbl" "r \<in> set tbl" "pk r = pk x"
  shows "r = x"
  using assms by (auto simp: distinct_map dest: inj_onD)

lemma save_present:
  assumes "pk x \<in> set (map pk tbl)"
  shows "save pk x tbl = map (\<lambda>r. if pk r = pk x then x else r) tbl"
  using assms by (simp add: save_def)

lemma save_row:
  assumes "distinct (map pk tbl)" "x \<in> set tbl" "pk x' = pk x"
  shows "save pk x' tbl = map (\<lambda>r. if r = x then x' else r) tbl"
proof -
  have "pk x' \<in> set (map pk tbl)" using assms(2,3) by force
  then have "save pk x' tbl = map (\<lambda>r. if pk r = pk x' then x' else r) tbl"
    by (rule save_present)
  also have "\<dots> = map (\<lambda>r. if r = x then x' else r) tbl"
  proof (rule map_cong [OF refl])
    fix r assume "r \<in> set tbl"
    then show "(if pk r = pk x' then x' else r) = (if r = x then x' else r)"
      using pk_unique [OF assms(1,2), of r] assms(3) by auto
  qed
  finally show ?thesis .
qed

lemma save_same:
  assumes "distinct (map pk tbl)" "x \<in> set tbl"
  shows "save pk x tbl = tbl"
proof -
  have "save pk x tbl = map (\<lambda>r. if r = x then x else r) tbl"
    by (rule save_row [OF assms refl])
  also have "\<dots> = tbl" by (induction tbl) auto
  finally show ?thesis .
qed

lemma save_keys:
  assumes "x \<in> set tbl" "pk x' = pk x"
  shows "map pk (save pk x' tbl) = map pk tbl"
proof -
  have "pk x' \<in> set (map pk tbl)" using assms by force
  then show ?thesis by (simp add: save_present o_def)
qed

lemma first_by_None [simp]: "first_by pk xs = None \<longleftrightarrow> xs = []"
  by (cases xs) (auto split: option.splits)

lemma first_by_single [simp]: "first_by pk [x] = Some x"
  by simp

lemma first_by_mem: "first_by pk xs = Some y \<Longrightarrow> y \<in> set xs"
  by (induction xs arbitrary: y) (auto split: option.splits if_splits)

lemma filter_key_unique:
  assumes "distinct (map key tbl)" "x \<in> set tbl"
  shows "filter (\<lambda>r. key r = key x) tbl = [x]"
  using assms
proof (induction tbl)
  case Nil
  then show ?case by simp
next
  case (Cons a tbl)
  show ?case
  proof (cases "a = x")
    case True
    have "key x \<notin> key ` set tbl" using Cons.prems True by simp
    then have "\<forall>r\<in>set tbl. key r \<noteq> key x" by (metis imageI)
    then have "filter (\<lambda>r. key r = key x) tbl = []"
      by (simp add: filter_empty_conv)
    then show ?thesis using True by simp
  next
    case False
    then have "x \<in> set tbl" using Cons.prems by simp
    moreover have "key a \<noteq> key x" using Cons.prems calculation by force
    ultimately show ?thesis using Cons by simp
  qed
qed

lemma filter_key_absent:
  assumes "k \<notin> set (map key tbl)"
  shows "filter (\<lambda>r. key r = k) tbl = []"
  using assms by (auto simp: filter_empty_conv)

section \<open>Post statistics\<close>

lemma calculate_stats_eq:
  "calculate_stats d self True
     = (d\<lparr>posts := save post_id (self\<lparr>post_stats := Some (stats_of d self)\<rparr>) (posts d)\<rparr>,
        self\<lparr>post_stats := Some (stats_of d self)\<rparr>)"
  by (simp add: calculate_stats_def stats_of_def Let_def)

lemma replies_after_save:
  assumes "distinct (map post_id (posts d))" "self \<in> set (posts d)"
  shows "length (filter (\<lambda>p. post_in_reply_to p = u)
                   (save post_id (self\<lparr>post_stats := st\<rparr>) (posts d)))
           = length (filter (\<lambda>p. post_in_reply_to p = u) (posts d))"
proof -
  have s: "save post_id (self\<lparr>post_stats := st\<rparr>) (posts d)
             = map (\<lambda>r. if r = self then self\<lparr>post_stats := st\<rparr> else r) (posts d)"
    by (rule save_row [OF assms]) simp
  have "filter (\<lambda>p. post_in_reply_to p = u)
          (map (\<lambda>r. if r = self then self\<lparr>post_stats := st\<rparr> else r) xs)
        = map (\<lambda>r. if r = self then self\<lparr>post_stats := st\<rparr> else r)
            (filter (\<lambda>p. post_in_reply_to p = u) xs)" for xs
    by (induction xs) auto
  then show ?thesis by (simp add: s)
qed

lemma stats_of_after_save:
  assumes "distinct (map post_id (posts d))" "self \<in> set (posts d)"
  shows "stats_of (d\<lparr>posts := save post_id (self\<lparr>post_stats := st\<rparr>) (posts d)\<rparr>)
           (self\<lparr>post_stats := st\<rparr>) = stats_of d self"
  by (simp add: stats_of_def replies_after_save [OF assms])

text \<open>
  Claim C5.  For a stored post (a row of a post table with distinct primary keys),
  \<open>calculate_stats\<close> sets \<open>stats\<close> to exactly the dict of: the number of the post's
  like interactions in state \<open>new\<close> or \<open>fanned_out\<close>, the number of its boost
  interactions in those states, and the number of posts whose \<open>in_reply_to\<close> equals the
  post's \<open>object_uri\<close>.  Calling it again on the result, with nothing changed in between,
  gives the identical post and the identical state.
\<close>

theorem calculate_stats_exact_idempotent:
  assumes "distinct (map post_id (posts d))" "self \<in> set (posts d)"
  shows "post_stats (snd (calculate_stats d self True)) =
           Some [(''likes'', length (filter (\<lambda>i. interaction_post i = post_id self
                                       \<and> interaction_type i = ''like''
                                       \<and> interaction_state i \<in> set [''new'', ''fanned_out''])
                                     (interactions d))),
                 (''boosts'', length (filter (\<lambda>i. interaction_post i = post_id self
                                       \<and> interaction_type i = ''boost''
                                       \<and> interaction_state i \<in> set [''new'', ''fanned_out''])
                                     (interactions d))),
                 (''replies'', length (filter (\<lambda>p. post_in_reply_to p = post_object_uri self)
                                     (posts d)))]
     \<and> calculate_stats (fst (calculate_stats d self True)) (snd (calculate_stats d self True)) True
         = calculate_stats d self True"
proof -
  let ?st = "Some (stats_of d self)"
  let ?self' = "self\<lparr>post_stats := ?st\<rparr>"
  let ?tbl' = "save post_id ?self' (posts d)"
  let ?d' = "d\<lparr>posts := ?tbl'\<rparr>"
  have first: "calculate_stats d self True = (?d', ?self')" by (rule calculate_stats_eq)
  have exact: "post_stats (snd (calculate_stats d self True)) = ?st"
    by (simp add: first)
  have row: "?tbl' = map (\<lambda>r. if r = self then ?self' else r) (posts d)"
    by (rule save_row [OF assms]) simp
  have mem: "?self' \<in> set ?tbl'" using assms(2) by (force simp: row)
  have keys: "map post_id ?tbl' = map post_id (posts d)"
    by (rule save_keys [OF assms(2)]) simp
  have dist: "distinct (map post_id ?tbl')" using assms(1) by (simp only: keys)
  have st': "stats_of ?d' ?self' = stats_of d self"
    by (rule stats_of_after_save [OF assms])
  have again: "?self'\<lparr>post_stats := ?st\<rparr> = ?self'" by simp
  have "calculate_stats ?d' ?self' True
          = (?d'\<lparr>posts := save post_id ?self' (posts ?d')\<rparr>, ?self')"
    by (simp only: calculate_stats_eq st' again)
  also have "save post_id ?self' (posts ?d') = ?tbl'"
    using save_same [OF dist mem] by simp
  finally have second: "calculate_stats ?d' ?self' True = (?d', ?self')" by simp
  show ?thesis using exact second by (simp add: first stats_of_def)
qed

text \<open>
  The theorem on alice's post in the example state: one active like, one active boost,
  one reply.
\<close>

theorem calculate_stats_exact_idempotent_witness:
  "distinct (map post_id (posts example_db))
   \<and> hd (posts example_db) \<in> set (posts example_db)
   \<and> post_stats (snd (calculate_stats example_db (hd (posts example_db)) True))
        = Some [(''likes'', 1), (''boosts'', 1), (''replies'', 1)]
   \<and> calculate_stats (fst (calculate_stats example_db (hd (posts example_db)) True))
        (snd (calculate_stats example_db (hd (posts example_db)) True)) True
        = calculate_stats example_db (hd (posts example_db)) True"
proof -
  have h1: "distinct (map post_id (posts example_db))" by (simp add: example_db_def)
  have h2: "hd (posts example_db) \<in> set (posts example_db)" by (simp add: example_db_def)
  note t = calculate_stats_exact_idempotent [OF h1 h2]
  from t have "post_stats (snd (calculate_stats example_db (hd (posts example_db)) True))
        = Some (stats_of example_db (hd (posts example_db)))"
    by (simp add: stats_of_def)
  moreover have "stats_of example_db (hd (posts example_db))
        = [(''likes'', 1), (''boosts'', 1), (''replies'', 1)]"
    by (simp add: stats_of_def example_db_def)
  ultimately have v: "post_stats (snd (calculate_stats example_db (hd (posts example_db)) True))
        = Some [(''likes'', 1), (''boosts'', 1), (''replies'', 1)]"
    by simp
  from t have w: "calculate_stats (fst (calculate_stats example_db (hd (posts example_db)) True))
        (snd (calculate_stats example_db (hd (posts example_db)) True)) True
        = calculate_stats example_db (hd (posts example_db)) True"
    by blast
  from h1 h2 v w show ?thesis by blast
qed

section \<open>Follow rows stay unique\<close>

lemma get_one_Inr: "get_one xs = Inr x \<longleftrightarrow> xs = [x]"
  by (cases xs rule: get_one.cases) auto

lemma get_one_DoesNotExist: "get_one xs = Inl DoesNotExist \<longleftrightarrow> xs = []"
  by (cases xs rule: get_one.cases) auto

lemma filter_single_mem:
  assumes "filter P xs = [x]"
  shows "x \<in> set xs \<and> P x"
proof -
  have "x \<in> set (filter P xs)" using assms by simp
  then show ?thesis by simp
qed

lemma filter_key_le_one:
  assumes "distinct (map key tbl)"
  shows "length (filter (\<lambda>r. key r = k) tbl) \<le> 1"
proof (cases "k \<in> set (map key tbl)")
  case True
  then obtain x where "x \<in> set tbl" "key x = k" by auto
  then show ?thesis using filter_key_unique [OF assms, of x] by simp
next
  case False
  then show ?thesis by (simp add: filter_key_absent)
qed

lemma pair_filter:
  "filter (\<lambda>f. follow_source f = a \<and> follow_target f = b) tbl
     = filter (\<lambda>f. (follow_source f, follow_target f) = (a, b)) tbl"
  by simp

lemma follow_existing:
  assumes wf: "follows_wf d"
    and f: "f \<in> set (follows d)" "follow_source f = a" "follow_target f = b"
  shows "follow d new_id a b =
           (if follow_state f \<noteq> ''accepted''
            then Inr (d\<lparr>follows := map (\<lambda>r. if r = f then f\<lparr>follow_state := ''unrequested''\<rparr> else r)
                                      (follows d)\<rparr>)
            else Inr d)"
proof -
  have d1: "distinct (map follow_id (follows d))"
    and d2: "distinct (map (\<lambda>f. (follow_source f, follow_target f)) (follows d))"
    using wf by (simp_all add: follows_wf_def)
  have "filter (\<lambda>r. (follow_source r, follow_target r) = (follow_source f, follow_target f)) (follows d) = [f]"
    by (rule filter_key_unique [OF d2 f(1)])
  then have flt: "filter (\<lambda>r. follow_source r = a \<and> follow_target r = b) (follows d) = [f]"
    using f(2,3) by simp
  have sv: "save follow_id (f\<lparr>follow_state := ''unrequested''\<rparr>) (follows d)
              = map (\<lambda>r. if r = f then f\<lparr>follow_state := ''unrequested''\<rparr> else r) (follows d)"
    by (rule save_row [OF d1 f(1)]) simp
  show ?thesis by (simp add: follow_def flt sv)
qed

lemma map_replace_key:
  assumes "key x' = key x"
  shows "map key (map (\<lambda>r. if r = x then x' else r) tbl) = map key tbl"
  using assms by (induction tbl) auto

lemma save_after_append:
  assumes "pk x \<notin> set (map pk tbl)" "pk x' = pk x"
  shows "save pk x' (tbl @ [x]) = tbl @ [x']"
proof -
  have "map (\<lambda>r. if pk r = pk x then x' else r) tbl = tbl"
    using assms(1) by (induction tbl) auto
  then show ?thesis using assms(2) by (simp add: save_def)
qed

lemma follow_new:
  assumes none: "filter (\<lambda>r. follow_source r = a \<and> follow_target r = b) (follows d) = []"
    and ok: "follow d new_id a b = Inr d'"
  shows "new_id \<notin> set (map follow_id (follows d))
     \<and> (\<exists>u. d' = d\<lparr>follows := follows d @
                [\<lparr>follow_id = new_id, follow_source = a, follow_target = b, follow_boosts = True,
                  follow_uri = u, follow_state = ''unrequested''\<rparr>]\<rparr>)"
proof -
  have dne: "get_one (filter (\<lambda>r. follow_source r = a \<and> follow_target r = b) (follows d))
               = Inl DoesNotExist"
    using none by simp
  obtain src where src: "get_one (filter (\<lambda>i. identity_id i = a) (identities d)) = Inr src"
    using ok by (cases "get_one (filter (\<lambda>i. identity_id i = a) (identities d))")
      (simp_all add: follow_def dne)
  have "new_id \<notin> set (map follow_id (follows d))
      \<and> (\<exists>u. d' = d\<lparr>follows := save follow_id
                 \<lparr>follow_id = new_id, follow_source = a, follow_target = b, follow_boosts = True,
                   follow_uri = u, follow_state = ''unrequested''\<rparr>
                 (follows d @ [\<lparr>follow_id = new_id, follow_source = a, follow_target = b,
                   follow_boosts = True, follow_uri = Some [], follow_state = ''unrequested''\<rparr>])\<rparr>)"
    using ok
    by (auto simp: follow_def dne src create_follow_def Let_def split: sum.splits if_splits)
  then obtain u where fresh: "new_id \<notin> set (map follow_id (follows d))"
    and d': "d' = d\<lparr>follows := save follow_id
                 \<lparr>follow_id = new_id, follow_source = a, follow_target = b, follow_boosts = True,
                   follow_uri = u, follow_state = ''unrequested''\<rparr>
                 (follows d @ [\<lparr>follow_id = new_id, follow_source = a, follow_target = b,
                   follow_boosts = True, follow_uri = Some [], follow_state = ''unrequested''\<rparr>])\<rparr>"
    by blast
  have "save follow_id
          \<lparr>follow_id = new_id, follow_source = a, follow_target = b, follow_boosts = True,
            follow_uri = u, follow_state = ''unrequested''\<rparr>
          (follows d @ [\<lparr>follow_id = new_id, follow_source = a, follow_target = b,
            follow_boosts = True, follow_uri = Some [], follow_state = ''unrequested''\<rparr>])
        = follows d @ [\<lparr>follow_id = new_id, follow_source = a, follow_target = b,
            follow_boosts = True, follow_uri = u, follow_state = ''unrequested''\<rparr>]"
    by (rule save_after_append) (use fresh in simp_all)
  then show ?thesis using fresh d' by auto
qed

lemma follow_preserves_wf:
  assumes wf: "follows_wf d" and ok: "follow d new_id a b = Inr d'"
  shows "follows_wf d'"
proof (cases "filter (\<lambda>r. follow_source r = a \<and> follow_target r = b) (follows d)")
  case Nil
  have d1: "distinct (map follow_id (follows d))"
    and d2: "distinct (map (\<lambda>f. (follow_source f, follow_target f)) (follows d))"
    using wf by (simp_all add: follows_wf_def)
  from follow_new [OF Nil ok] obtain u where
      fresh: "new_id \<notin> set (map follow_id (follows d))"
    and d': "d' = d\<lparr>follows := follows d @
                [\<lparr>follow_id = new_id, follow_source = a, follow_target = b, follow_boosts = True,
                  follow_uri = u, follow_state = ''unrequested''\<rparr>]\<rparr>"
    by blast
  have "\<forall>r\<in>set (follows d). \<not> (follow_source r = a \<and> follow_target r = b)"
    using Nil by (simp add: filter_empty_conv)
  then have nopair: "(a, b) \<notin> set (map (\<lambda>r. (follow_source r, follow_target r)) (follows d))"
    by auto
  show ?thesis
    unfolding follows_wf_def d' using d1 d2 fresh nopair by simp
next
  case (Cons f rest)
  have d1: "distinct (map follow_id (follows d))"
    and d2: "distinct (map (\<lambda>f. (follow_source f, follow_target f)) (follows d))"
    using wf by (simp_all add: follows_wf_def)
  have "f \<in> set (filter (\<lambda>r. follow_source r = a \<and> follow_target r = b) (follows d))"
    using Cons by simp
  then have f: "f \<in> set (follows d)" "follow_source f = a" "follow_target f = b" by auto
  have "Inr d' = (if follow_state f \<noteq> ''accepted''
            then Inr (d\<lparr>follows := map (\<lambda>r. if r = f then f\<lparr>follow_state := ''unrequested''\<rparr> else r)
                                      (follows d)\<rparr>)
            else (Inr d :: error + db))"
    using follow_existing [OF wf f, of new_id] ok by simp
  then consider "d' = d"
    | "d' = d\<lparr>follows := map (\<lambda>r. if r = f then f\<lparr>follow_state := ''unrequested''\<rparr> else r) (follows d)\<rparr>"
    by (auto split: if_splits)
  then show ?thesis
  proof cases
    case 1
    then show ?thesis using wf by simp
  next
    case 2
    have k1: "map follow_id (map (\<lambda>r. if r = f then f\<lparr>follow_state := ''unrequested''\<rparr> else r) (follows d))
                = map follow_id (follows d)"
      by (rule map_replace_key) simp
    have k2: "map (\<lambda>f. (follow_source f, follow_target f))
                (map (\<lambda>r. if r = f then f\<lparr>follow_state := ''unrequested''\<rparr> else r) (follows d))
                = map (\<lambda>f. (follow_source f, follow_target f)) (follows d)"
      by (rule map_replace_key) simp
    have fd: "follows d' = map (\<lambda>r. if r = f then f\<lparr>follow_state := ''unrequested''\<rparr> else r) (follows d)"
      by (simp add: 2)
    have "distinct (map follow_id (follows d'))" unfolding fd k1 by (rule d1)
    moreover have "distinct (map (\<lambda>f. (follow_source f, follow_target f)) (follows d'))"
      unfolding fd k2 by (rule d2)
    ultimately show ?thesis unfolding follows_wf_def by blast
  qed
qed

lemma follow_calls_wf:
  "follows_wf d \<Longrightarrow> follows_wf (follow_calls d calls)"
proof (induction calls arbitrary: d)
  case Nil
  then show ?case by simp
next
  case (Cons c calls)
  obtain new_id a b where c: "c = (new_id, a, b)" by (cases c) auto
  show ?case
  proof (cases "follow d new_id a b")
    case (Inl e)
    then show ?thesis using Cons c by simp
  next
    case (Inr d')
    then have "follows_wf d'" using follow_preserves_wf Cons.prems by blast
    then show ?thesis using Cons.IH Inr c by simp
  qed
qed

text \<open>
  Claim C6.  From a state whose follow table satisfies its key constraints, after any
  sequence of \<open>follow\<close> calls the constraints hold and every ordered pair \<open>(a, b)\<close> has at
  most one row.  A call for a pair that has a row \<open>f\<close> adds no row and keeps every column
  of \<open>f\<close> but its state: the state becomes \<open>unrequested\<close> when it was not \<open>accepted\<close>
  (so in particular when it was \<open>undone\<close>), and the whole state is unchanged when it was
  \<open>accepted\<close>.
\<close>

theorem follow_at_most_one_row:
  assumes "follows_wf d"
  shows "follows_wf (follow_calls d calls)
     \<and> length (filter (\<lambda>f. follow_source f = a \<and> follow_target f = b)
                 (follows (follow_calls d calls))) \<le> 1
     \<and> (\<forall>f. f \<in> set (follows d) \<and> follow_source f = a \<and> follow_target f = b \<longrightarrow>
           (follow_state f = ''accepted'' \<longrightarrow> follow d new_id a b = Inr d)
         \<and> (follow_state f \<noteq> ''accepted'' \<longrightarrow>
              follow d new_id a b =
                Inr (d\<lparr>follows := map (\<lambda>r. if r = f then f\<lparr>follow_state := ''unrequested''\<rparr> else r)
                                       (follows d)\<rparr>)))"
proof -
  have wf': "follows_wf (follow_calls d calls)" by (rule follow_calls_wf [OF assms])
  then have "distinct (map (\<lambda>f. (follow_source f, follow_target f)) (follows (follow_calls d calls)))"
    by (simp add: follows_wf_def)
  then have "length (filter (\<lambda>f. (follow_source f, follow_target f) = (a, b))
                 (follows (follow_calls d calls))) \<le> 1"
    by (rule filter_key_le_one)
  then have one: "length (filter (\<lambda>f. follow_source f = a \<and> follow_target f = b)
                 (follows (follow_calls d calls))) \<le> 1"
    by simp
  have ex: "\<forall>f. f \<in> set (follows d) \<and> follow_source f = a \<and> follow_target f = b \<longrightarrow>
           (follow_state f = ''accepted'' \<longrightarrow> follow d new_id a b = Inr d)
         \<and> (follow_state f \<noteq> ''accepted'' \<longrightarrow>
              follow d new_id a b =
                Inr (d\<lparr>follows := map (\<lambda>r. if r = f then f\<lparr>follow_state := ''unrequested''\<rparr> else r)
                                       (follows d)\<rparr>))"
  proof (intro allI impI conjI)
    fix f
    assume f: "f \<in> set (follows d) \<and> follow_source f = a \<and> follow_target f = b"
    then have e: "follow d new_id a b =
           (if follow_state f \<noteq> ''accepted''
            then Inr (d\<lparr>follows := map (\<lambda>r. if r = f then f\<lparr>follow_state := ''unrequested''\<rparr> else r)
                                      (follows d)\<rparr>)
            else Inr d)"
      using follow_existing [OF assms, of f a b new_id] by blast
    show "follow d new_id a b = Inr d" if "follow_state f = ''accepted''"
      using e that by simp
    show "follow d new_id a b =
                Inr (d\<lparr>follows := map (\<lambda>r. if r = f then f\<lparr>follow_state := ''unrequested''\<rparr> else r)
                                       (follows d)\<rparr>)" if "follow_state f \<noteq> ''accepted''"
      using e that by simp
  qed
  from wf' one ex show ?thesis by blast
qed

text \<open>
  The theorem on the example state: after three calls the pair (1, 3) has at most one row,
  following again over the accepted row from 1 to 2 changes nothing, and following over
  the undone row from 3 to 1 resets it to \<open>unrequested\<close>.
\<close>

theorem follow_at_most_one_row_witness:
  "follows_wf example_db
   \<and> length (filter (\<lambda>f. follow_source f = 1 \<and> follow_target f = 3)
        (follows (follow_calls example_db [(51, 1, 3), (52, 1, 3), (53, 3, 1)]))) \<le> 1
   \<and> follow example_db 50 1 2 = Inr example_db
   \<and> follow_state (last (follows (follow_calls example_db [(53, 3, 1)]))) = ''unrequested''"
proof -
  have h: "follows_wf example_db" by (simp add: follows_wf_def example_db_def)
  note t = follow_at_most_one_row [OF h, of "[(51, 1, 3), (52, 1, 3), (53, 3, 1)]" 1 3 50]
  note u = follow_at_most_one_row [OF h, of "[]" 1 2 50]
  note w = follow_at_most_one_row [OF h, of "[]" 3 1 53]
  have r10: "\<lparr>follow_id = 10, follow_source = 1, follow_target = 2, follow_boosts = True,
           follow_uri = Some ''https://local.example/@alice/follow/10/'',
           follow_state = ''accepted''\<rparr> \<in> set (follows example_db)"
    by (simp add: example_db_def)
  have r12: "\<lparr>follow_id = 12, follow_source = 3, follow_target = 1, follow_boosts = False,
           follow_uri = Some ''https://local.example/@carol/follow/12/'',
           follow_state = ''undone''\<rparr> \<in> set (follows example_db)"
    by (simp add: example_db_def)
  from t have a: "length (filter (\<lambda>f. follow_source f = 1 \<and> follow_target f = 3)
        (follows (follow_calls example_db [(51, 1, 3), (52, 1, 3), (53, 3, 1)]))) \<le> 1"
    by blast
  from u r10 have b: "follow example_db 50 1 2 = Inr example_db"
    by (elim conjE allE [where x = "\<lparr>follow_id = 10, follow_source = 1, follow_target = 2,
           follow_boosts = True,
           follow_uri = Some ''https://local.example/@alice/follow/10/'',
           follow_state = ''accepted''\<rparr>"]) simp
  from w r12 have "follow example_db 53 3 1 =
      Inr (example_db\<lparr>follows := map (\<lambda>r. if r = \<lparr>follow_id = 12, follow_source = 3, follow_target = 1, follow_boosts = False,
           follow_uri = Some ''https://local.example/@carol/follow/12/'',
           follow_state = ''undone''\<rparr> then \<lparr>follow_id = 12, follow_source = 3, follow_target = 1, follow_boosts = False,
           follow_uri = Some ''https://local.example/@carol/follow/12/'',
           follow_state = ''undone''\<rparr>\<lparr>follow_state := ''unrequested''\<rparr> else r) (follows example_db)\<rparr>)"
    by (elim conjE allE [where x = "\<lparr>follow_id = 12, follow_source = 3, follow_target = 1, follow_boosts = False,
           follow_uri = Some ''https://local.example/@carol/follow/12/'',
           follow_state = ''undone''\<rparr>"]) simp
  then have c: "follow_state (last (follows (follow_calls example_db [(53, 3, 1)]))) = ''unrequested''"
    by (simp add: example_db_def)
  from h a b c show ?thesis by blast
qed

section \<open>Block with follow teardown\<close>

lemma fold_max_ge: "(a::int) \<le> fold max xs a \<and> (\<forall>x\<in>set xs. x \<le> fold max xs a)"
proof (induction xs arbitrary: a)
  case Nil
  then show ?case by simp
next
  case (Cons y ys)
  have "max y a \<le> fold max ys (max y a)" "\<forall>x\<in>set ys. x \<le> fold max ys (max y a)"
    using Cons.IH [of "max y a"] by simp_all
  then show ?case by auto
qed

lemma next_pk_fresh: "next_pk pk tbl \<notin> set (map pk tbl)"
proof
  assume "next_pk pk tbl \<in> set (map pk tbl)"
  then have "next_pk pk tbl \<le> fold max (map pk tbl) 0"
    using fold_max_ge [of 0 "map pk tbl"] by blast
  then show False by (simp add: next_pk_def)
qed

lemma filter_replace:
  assumes "P x' = P x"
  shows "filter P (map (\<lambda>r. if r = x then x' else r) tbl)
           = map (\<lambda>r. if r = x then x' else r) (filter P tbl)"
  using assms by (induction tbl) auto

lemma save_keeps_single:
  assumes dist: "distinct (map pk tbl)" and one: "filter P tbl = [x]"
    and pk: "pk x' = pk x" and P: "P x'"
  shows "filter P (save pk x' tbl) = [x'] \<and> distinct (map pk (save pk x' tbl))"
proof -
  have mem: "x \<in> set tbl" and Px: "P x" using filter_single_mem [OF one] by simp_all
  have sv: "save pk x' tbl = map (\<lambda>r. if r = x then x' else r) tbl"
    by (rule save_row [OF dist mem pk])
  have "filter P (save pk x' tbl) = map (\<lambda>r. if r = x then x' else r) (filter P tbl)"
    unfolding sv by (rule filter_replace) (simp add: P Px)
  then have a: "filter P (save pk x' tbl) = [x']" by (simp add: one)
  have "map pk (save pk x' tbl) = map pk tbl" by (rule save_keys [OF mem pk])
  then have b: "distinct (map pk (save pk x' tbl))" using dist by simp
  from a b show ?thesis by blast
qed

lemma list_le_one: "length xs \<le> 1 \<Longrightarrow> xs = [] \<or> (\<exists>x. xs = [x])"
  by (cases xs) (auto simp: length_Suc_conv)

lemma update_or_create_block_ok:
  assumes ex: "identity_exists d a" "identity_exists d b"
    and dist: "distinct (map block_id (blocks d))"
    and one: "length (filter (\<lambda>r. block_source r = a \<and> block_target r = b \<and> block_mute r = m)
                        (blocks d)) \<le> 1"
  shows "\<exists>bs x. update_or_create_block d a b m = Inr (d\<lparr>blocks := bs\<rparr>, x)
           \<and> filter (\<lambda>r. block_source r = a \<and> block_target r = b \<and> block_mute r = m) bs = [x]
           \<and> distinct (map block_id bs)
           \<and> block_state x = ''new''"
proof -
  let ?P = "\<lambda>r. block_source r = a \<and> block_target r = b \<and> block_mute r = m"
  from list_le_one [OF one] show ?thesis
  proof
    assume none: "filter ?P (blocks d) = []"
    let ?b = "\<lparr>block_id = next_pk block_id (blocks d), block_source = a, block_target = b,
                block_mute = m, block_uri = None, block_state = ''new''\<rparr>"
    have fresh: "next_pk block_id (blocks d) \<notin> set (map block_id (blocks d))"
      by (rule next_pk_fresh)
    have "update_or_create_block d a b m = Inr (d\<lparr>blocks := blocks d @ [?b]\<rparr>, ?b)"
      using fresh ex by (simp add: update_or_create_block_def none create_block_def Let_def)
    moreover have "filter ?P (blocks d @ [?b]) = [?b]" by (simp add: none)
    moreover have "distinct (map block_id (blocks d @ [?b]))" using dist fresh by simp
    ultimately show ?thesis by force
  next
    assume "\<exists>x. filter ?P (blocks d) = [x]"
    then obtain x where x: "filter ?P (blocks d) = [x]" by blast
    have Px: "?P x" using filter_single_mem [OF x] by simp
    let ?x' = "x\<lparr>block_state := ''new''\<rparr>"
    have "update_or_create_block d a b m
            = Inr (d\<lparr>blocks := save block_id ?x' (blocks d)\<rparr>, ?x')"
      by (simp add: update_or_create_block_def x Let_def)
    moreover have "filter ?P (save block_id ?x' (blocks d)) = [?x']
                   \<and> distinct (map block_id (save block_id ?x' (blocks d)))"
      by (rule save_keeps_single [OF dist x]) (use Px in simp_all)
    ultimately show ?thesis by force
  qed
qed

lemma update_follow_state_any:
  assumes wf: "follows_wf d"
  shows "fst (update_follow_state d s t [] st)
           = d\<lparr>follows := map (\<lambda>r. if follow_source r = s \<and> follow_target r = t
                                     then r\<lparr>follow_state := st\<rparr> else r) (follows d)\<rparr>"
proof -
  let ?P = "\<lambda>r. follow_source r = s \<and> follow_target r = t"
  let ?g = "\<lambda>r. if follow_source r = s \<and> follow_target r = t then r\<lparr>follow_state := st\<rparr> else r"
  have d1: "distinct (map follow_id (follows d))"
    and d2: "distinct (map (\<lambda>f. (follow_source f, follow_target f)) (follows d))"
    using wf by (simp_all add: follows_wf_def)
  have "length (filter (\<lambda>f. (follow_source f, follow_target f) = (s, t)) (follows d)) \<le> 1"
    by (rule filter_key_le_one [OF d2])
  then have "length (filter ?P (follows d)) \<le> 1" by simp
  from list_le_one [OF this] show ?thesis
  proof
    assume none: "filter ?P (follows d) = []"
    then have "\<forall>r\<in>set (follows d). \<not> ?P r" by (simp add: filter_empty_conv)
    then have "map ?g (follows d) = follows d" by (intro map_idI) auto
    then show ?thesis by (simp add: update_follow_state_def none)
  next
    assume "\<exists>x. filter ?P (follows d) = [x]"
    then obtain f where f: "filter ?P (follows d) = [f]" by blast
    have mem: "f \<in> set (follows d)" and Pf: "?P f" using filter_single_mem [OF f] by simp_all
    have only: "r = f" if "r \<in> set (follows d)" "?P r" for r
    proof -
      have "r \<in> set (filter ?P (follows d))" using that by simp
      then show ?thesis by (simp add: f)
    qed
    have g: "map ?g (follows d) = map (\<lambda>r. if r = f then f\<lparr>follow_state := st\<rparr> else r) (follows d)"
    proof (rule map_cong [OF refl])
      fix r assume r: "r \<in> set (follows d)"
      show "?g r = (if r = f then f\<lparr>follow_state := st\<rparr> else r)"
      proof (cases "?P r")
        case True
        then have "r = f" using only [OF r] by blast
        then show ?thesis using Pf by simp
      next
        case False
        then have "r \<noteq> f" using Pf by blast
        then show ?thesis using False by auto
      qed
    qed
    show ?thesis
    proof (cases "follow_state f = st")
      case True
      then have "f\<lparr>follow_state := st\<rparr> = f" by simp
      then have "map ?g (follows d) = follows d" unfolding g by (intro map_idI) auto
      then show ?thesis using True by (simp add: update_follow_state_def f)
    next
      case False
      have "save follow_id (f\<lparr>follow_state := st\<rparr>) (follows d)
              = map (\<lambda>r. if r = f then f\<lparr>follow_state := st\<rparr> else r) (follows d)"
        by (rule save_row [OF d1 mem]) simp
      then show ?thesis using False by (simp add: update_follow_state_def f Let_def g)
    qed
  qed
qed

lemma set_state_wf:
  assumes "follows_wf d"
  shows "follows_wf (d\<lparr>follows := map (\<lambda>r. if follow_source r = s \<and> follow_target r = t
                                     then r\<lparr>follow_state := st\<rparr> else r) (follows d)\<rparr>)"
proof -
  let ?g = "\<lambda>r. if follow_source r = s \<and> follow_target r = t then r\<lparr>follow_state := st\<rparr> else r"
  have k1: "map follow_id (map ?g tbl) = map follow_id tbl" for tbl by (induction tbl) auto
  have k2: "map (\<lambda>f. (follow_source f, follow_target f)) (map ?g tbl)
                   = map (\<lambda>f. (follow_source f, follow_target f)) tbl" for tbl
    by (induction tbl) auto
  have sel: "follows (d\<lparr>follows := map ?g (follows d)\<rparr>) = map ?g (follows d)" by simp
  show ?thesis using assms unfolding follows_wf_def sel k1 k2 .
qed

lemma teardown:
  assumes wf: "follows_wf d" and ne: "a \<noteq> b"
  shows "reject_follow_request (unfollow d a b) b a
           = d\<lparr>follows := map (\<lambda>r. if follow_source r = a \<and> follow_target r = b
                                      then r\<lparr>follow_state := ''undone''\<rparr>
                                    else if follow_source r = b \<and> follow_target r = a
                                      then r\<lparr>follow_state := ''rejecting''\<rparr>
                                    else r) (follows d)\<rparr>"
proof -
  let ?u = "\<lambda>r. if follow_source r = a \<and> follow_target r = b then r\<lparr>follow_state := ''undone''\<rparr> else r"
  let ?r = "\<lambda>r. if follow_source r = b \<and> follow_target r = a then r\<lparr>follow_state := ''rejecting''\<rparr> else r"
  have u: "unfollow d a b = d\<lparr>follows := map ?u (follows d)\<rparr>"
    unfolding unfollow_def by (rule update_follow_state_any [OF wf])
  have wf': "follows_wf (d\<lparr>follows := map ?u (follows d)\<rparr>)" by (rule set_state_wf [OF wf])
  have "reject_follow_request (unfollow d a b) b a
          = (d\<lparr>follows := map ?u (follows d)\<rparr>)\<lparr>follows := map ?r (follows (d\<lparr>follows := map ?u (follows d)\<rparr>))\<rparr>"
    unfolding reject_follow_request_def u by (rule update_follow_state_any [OF wf'])
  also have "\<dots> = d\<lparr>follows := map (?r \<circ> ?u) (follows d)\<rparr>" by simp
  also have "?r \<circ> ?u = (\<lambda>r. if follow_source r = a \<and> follow_target r = b
                                      then r\<lparr>follow_state := ''undone''\<rparr>
                                    else if follow_source r = b \<and> follow_target r = a
                                      then r\<lparr>follow_state := ''rejecting''\<rparr>
                                    else r)"
    using ne by (auto simp: fun_eq_iff)
  finally show ?thesis .
qed

lemma block_fix_uri:
  assumes dist: "distinct (map block_id bs)"
    and one: "filter (\<lambda>r. block_source r = a \<and> block_target r = b \<and> block_mute r = m) bs = [x]"
    and st: "block_state x = ''new''"
  shows "\<exists>bs' x'.
           (if block_state x \<noteq> ''new'' \<or> \<not> truthy (block_uri x)
            then (let b' = x\<lparr>block_state := ''new'', block_uri := u\<rparr>
                  in ((d\<lparr>blocks := bs\<rparr>)\<lparr>blocks := save block_id b' (blocks (d\<lparr>blocks := bs\<rparr>))\<rparr>, b'))
            else (d\<lparr>blocks := bs\<rparr>, x)) = (d\<lparr>blocks := bs'\<rparr>, x')
         \<and> filter (\<lambda>r. block_source r = a \<and> block_target r = b \<and> block_mute r = m) bs' = [x']
         \<and> block_state x' = ''new''"
proof (cases "truthy (block_uri x)")
  case True
  then show ?thesis using one st by (intro exI [of _ bs] exI [of _ x]) simp
next
  case False
  let ?P = "\<lambda>r. block_source r = a \<and> block_target r = b \<and> block_mute r = m"
  let ?b' = "x\<lparr>block_state := ''new'', block_uri := u\<rparr>"
  have Px: "?P x" using filter_single_mem [OF one] by simp
  have "filter ?P (save block_id ?b' bs) = [?b'] \<and> distinct (map block_id (save block_id ?b' bs))"
    by (rule save_keeps_single [OF dist one]) (use Px in simp_all)
  then show ?thesis using False
    by (intro exI [of _ "save block_id ?b' bs"] exI [of _ ?b']) (simp add: Let_def)
qed

text \<open>
  Claim C2, as amended.  Let \<open>a\<close> be a local identity and \<open>b \<noteq> a\<close> an identity, in a
  state whose identity, follow and block tables have distinct primary keys, whose follow
  table has at most one row per ordered pair, and which holds at most one full-block row
  from \<open>a\<close> to \<open>b\<close>.  Then \<open>block\<close> succeeds, and the state it leaves differs from the
  one before in the block and follow tables only: exactly one full-block row from \<open>a\<close> to
  \<open>b\<close> exists, it is the row returned and its state is \<open>new\<close>; every follow row from
  \<open>a\<close> to \<open>b\<close> is in state \<open>undone\<close>, every follow row from \<open>b\<close> to \<open>a\<close> (so
  in particular one that was \<open>pending_approval\<close>) is in state \<open>rejecting\<close>, and every
  other follow row is as it was.  An exception leaves no write behind (the result is then
  the error alone), so no part of this is observable without the rest.
\<close>

theorem block_tears_down_follows:
  assumes ids: "distinct (map identity_id (identities d))"
    and src: "src \<in> set (identities d)" "identity_id src = a" "identity_local src"
    and tgt: "identity_exists d b"
    and wf: "follows_wf d"
    and bd: "distinct (map block_id (blocks d))"
    and one: "length (filter (\<lambda>r. block_source r = a \<and> block_target r = b \<and> block_mute r = False)
                        (blocks d)) \<le> 1"
    and ne: "a \<noteq> b"
  shows "\<exists>bs blk.
           block d a b =
             Inr (d\<lparr>blocks := bs,
                    follows := map (\<lambda>r. if follow_source r = a \<and> follow_target r = b
                                           then r\<lparr>follow_state := ''undone''\<rparr>
                                         else if follow_source r = b \<and> follow_target r = a
                                           then r\<lparr>follow_state := ''rejecting''\<rparr>
                                         else r) (follows d)\<rparr>, blk)
         \<and> filter (\<lambda>r. block_source r = a \<and> block_target r = b \<and> block_mute r = False) bs = [blk]
         \<and> block_state blk = ''new''"
proof -
  let ?P = "\<lambda>r. block_source r = a \<and> block_target r = b \<and> block_mute r = False"
  let ?T = "\<lambda>r. if follow_source r = a \<and> follow_target r = b
                    then r\<lparr>follow_state := ''undone''\<rparr>
                  else if follow_source r = b \<and> follow_target r = a
                    then r\<lparr>follow_state := ''rejecting''\<rparr>
                  else r"
  have "filter (\<lambda>i. identity_id i = identity_id src) (identities d) = [src]"
    by (rule filter_key_unique [OF ids src(1)])
  then have g: "get_one (filter (\<lambda>i. identity_id i = a) (identities d)) = Inr src"
    using src(2) by simp
  have ea: "identity_exists d a" using src(1,2) by (force simp: identity_exists_def)
  from update_or_create_block_ok [OF ea tgt bd one] obtain bs x where
      uc: "update_or_create_block d a b False = Inr (d\<lparr>blocks := bs\<rparr>, x)"
    and x1: "filter ?P bs = [x]" and bsd: "distinct (map block_id bs)"
    and xs: "block_state x = ''new''"
    by blast
  define u where "u = Some (identity_actor_uri src @ ''block/'' @ str_int (block_id x) @ ''/'')"
  from block_fix_uri [OF bsd x1 xs, of u d] obtain bs' x' where
      fx: "(if block_state x \<noteq> ''new'' \<or> \<not> truthy (block_uri x)
            then (let b' = x\<lparr>block_state := ''new'', block_uri := u\<rparr>
                  in ((d\<lparr>blocks := bs\<rparr>)\<lparr>blocks := save block_id b' (blocks (d\<lparr>blocks := bs\<rparr>))\<rparr>, b'))
            else (d\<lparr>blocks := bs\<rparr>, x)) = (d\<lparr>blocks := bs'\<rparr>, x')"
    and x1': "filter ?P bs' = [x']" and xs': "block_state x' = ''new''"
    by blast
  have wf': "follows_wf (d\<lparr>blocks := bs'\<rparr>)" using wf by (simp add: follows_wf_def)
  have td: "reject_follow_request (unfollow (d\<lparr>blocks := bs'\<rparr>) a b) b a
              = (d\<lparr>blocks := bs'\<rparr>)\<lparr>follows := map ?T (follows (d\<lparr>blocks := bs'\<rparr>))\<rparr>"
    by (rule teardown [OF wf' ne])
  have "block d a b
          = (let (d2, b2) =
                   (if block_state x \<noteq> ''new'' \<or> \<not> truthy (block_uri x)
                    then (let b' = x\<lparr>block_state := ''new'', block_uri := u\<rparr>
                          in ((d\<lparr>blocks := bs\<rparr>)\<lparr>blocks := save block_id b' (blocks (d\<lparr>blocks := bs\<rparr>))\<rparr>, b'))
                    else (d\<lparr>blocks := bs\<rparr>, x))
             in Inr (reject_follow_request (unfollow d2 a b) b a, b2))"
    using src(3) by (simp add: block_def block_or_mute_def g uc u_def Let_def)
  also have "\<dots> = Inr (reject_follow_request (unfollow (d\<lparr>blocks := bs'\<rparr>) a b) b a, x')"
    by (simp only: fx) simp
  also have "\<dots> = Inr (d\<lparr>blocks := bs', follows := map ?T (follows d)\<rparr>, x')"
    by (simp add: td)
  finally show ?thesis using x1' xs' by blast
qed

text \<open>
  The theorem on the example state, alice blocking bob: her accepted follow of bob ends
  \<open>undone\<close>, his pending request ends \<open>rejecting\<close>, carol's row is untouched.
\<close>

theorem block_tears_down_follows_witness:
  "distinct (map identity_id (identities example_db))
   \<and> hd (identities example_db) \<in> set (identities example_db)
   \<and> identity_id (hd (identities example_db)) = 1
   \<and> identity_local (hd (identities example_db))
   \<and> identity_exists example_db 2
   \<and> follows_wf example_db
   \<and> distinct (map block_id (blocks example_db))
   \<and> length (filter (\<lambda>r. block_source r = 1 \<and> block_target r = 2 \<and> block_mute r = False)
                (blocks example_db)) \<le> 1
   \<and> (1::int) \<noteq> 2
   \<and> (\<exists>bs blk. block example_db 1 2 =
          Inr (example_db\<lparr>blocks := bs,
                 follows :=
                   [\<lparr>follow_id = 10, follow_source = 1, follow_target = 2, follow_boosts = True,
                      follow_uri = Some ''https://local.example/@alice/follow/10/'',
                      follow_state = ''undone''\<rparr>,
                    \<lparr>follow_id = 11, follow_source = 2, follow_target = 1, follow_boosts = True,
                      follow_uri = Some ''https://remote.example/follows/11'',
                      follow_state = ''rejecting''\<rparr>,
                    \<lparr>follow_id = 12, follow_source = 3, follow_target = 1, follow_boosts = False,
                      follow_uri = Some ''https://local.example/@carol/follow/12/'',
                      follow_state = ''undone''\<rparr>]\<rparr>, blk)
        \<and> filter (\<lambda>r. block_source r = 1 \<and> block_target r = 2 \<and> block_mute r = False) bs = [blk]
        \<and> block_state blk = ''new'')"
proof -
  have h1: "distinct (map identity_id (identities example_db))" by (simp add: example_db_def)
  have h2: "hd (identities example_db) \<in> set (identities example_db)" by (simp add: example_db_def)
  have h3: "identity_id (hd (identities example_db)) = 1" by (simp add: example_db_def)
  have h4: "identity_local (hd (identities example_db))" by (simp add: example_db_def)
  have h5: "identity_exists example_db 2" by (simp add: example_db_def identity_exists_def)
  have h6: "follows_wf example_db" by (simp add: follows_wf_def example_db_def)
  have h7: "distinct (map block_id (blocks example_db))" by (simp add: example_db_def)
  have h8: "length (filter (\<lambda>r. block_source r = 1 \<and> block_target r = 2 \<and> block_mute r = False)
                (blocks example_db)) \<le> 1" by (simp add: example_db_def)
  have h9: "(1::int) \<noteq> 2" by simp
  have m: "map (\<lambda>r. if follow_source r = 1 \<and> follow_target r = 2
                       then r\<lparr>follow_state := ''undone''\<rparr>
                     else if follow_source r = 2 \<and> follow_target r = 1
                       then r\<lparr>follow_state := ''rejecting''\<rparr>
                     else r) (follows example_db)
           = [\<lparr>follow_id = 10, follow_source = 1, follow_target = 2, follow_boosts = True,
                      follow_uri = Some ''https://local.example/@alice/follow/10/'',
                      follow_state = ''undone''\<rparr>,
                    \<lparr>follow_id = 11, follow_source = 2, follow_target = 1, follow_boosts = True,
                      follow_uri = Some ''https://remote.example/follows/11'',
                      follow_state = ''rejecting''\<rparr>,
                    \<lparr>follow_id = 12, follow_source = 3, follow_target = 1, follow_boosts = False,
                      follow_uri = Some ''https://local.example/@carol/follow/12/'',
                      follow_state = ''undone''\<rparr>]"
    by (simp add: example_db_def)
  note t = block_tears_down_follows [OF h1 h2 h3 h4 h5 h6 h7 h8 h9]
  from t have c: "\<exists>bs blk. block example_db 1 2 =
          Inr (example_db\<lparr>blocks := bs,
                 follows :=
                   [\<lparr>follow_id = 10, follow_source = 1, follow_target = 2, follow_boosts = True,
                      follow_uri = Some ''https://local.example/@alice/follow/10/'',
                      follow_state = ''undone''\<rparr>,
                    \<lparr>follow_id = 11, follow_source = 2, follow_target = 1, follow_boosts = True,
                      follow_uri = Some ''https://remote.example/follows/11'',
                      follow_state = ''rejecting''\<rparr>,
                    \<lparr>follow_id = 12, follow_source = 3, follow_target = 1, follow_boosts = False,
                      follow_uri = Some ''https://local.example/@carol/follow/12/'',
                      follow_state = ''undone''\<rparr>]\<rparr>, blk)
        \<and> filter (\<lambda>r. block_source r = 1 \<and> block_target r = 2 \<and> block_mute r = False) bs = [blk]
        \<and> block_state blk = ''new''"
    unfolding m .
  from h1 h2 h3 h4 h5 h6 h7 h8 h9 c show ?thesis by blast
qed

text \<open>
  Claim C2 as stated fails when \<open>a = b\<close>.  Alice, who follows herself, blocks herself:
  the follow row from \<open>a\<close> to \<open>b\<close> is first set to \<open>undone\<close> and then, being also the
  row from \<open>b\<close> to \<open>a\<close>, to \<open>rejecting\<close>, the state it is left in.
\<close>

theorem block_self_follow_counterexample:
  "block self_follow_db 1 1 =
     Inr (self_follow_db
            \<lparr>follows :=
               [\<lparr>follow_id = 20, follow_source = 1, follow_target = 1, follow_boosts = True,
                  follow_uri = Some ''https://local.example/@alice/follow/20/'',
                  follow_state = ''rejecting''\<rparr>],
             blocks :=
               [\<lparr>block_id = 1, block_source = 1, block_target = 1, block_mute = False,
                  block_uri = Some ''https://local.example/@alice/block/1/'',
                  block_state = ''new''\<rparr>]\<rparr>,
          \<lparr>block_id = 1, block_source = 1, block_target = 1, block_mute = False,
            block_uri = Some ''https://local.example/@alice/block/1/'',
            block_state = ''new''\<rparr>)"
  by (simp add: self_follow_db_def block_def block_or_mute_def update_or_create_block_def
        create_block_def identity_exists_def next_pk_def save_def truthy_def Let_def
        unfollow_def reject_follow_request_def update_follow_state_def
        str_int_def str_nat.simps digit_char_def)

section \<open>Liking and unliking a post\<close>

lemma first_post:
  assumes "distinct (map post_id (posts d))" "p \<in> set (posts d)" "post_id p = P"
  shows "filter (\<lambda>q. post_id q = P) (posts d) = [p]"
  using filter_key_unique [OF assms(1,2)] assms(3) by simp

lemma interact_new:
  assumes pd: "distinct (map post_id (posts d))" and p: "p \<in> set (posts d)" "post_id p = P"
    and ex: "identity_exists d I"
    and none: "filter (\<lambda>i. interaction_type i = ty \<and> interaction_identity i = I
                              \<and> interaction_post i = P) (interactions d) = []"
    and fresh: "n1 \<notin> set (map interaction_id (interactions d))"
    and i0: "i0 = \<lparr>interaction_id = n1, interaction_state = ''new'', interaction_type = ty,
                    interaction_identity = I, interaction_post = P\<rparr>"
    and dA: "dA = d\<lparr>interactions := interactions d @ [i0]\<rparr>"
  shows "interact_post d n1 P I ty
           = Inr (dA\<lparr>posts := save post_id (p\<lparr>post_stats := Some (stats_of dA p)\<rparr>) (posts d)\<rparr>,
                  Some i0)"
proof -
  have fp: "first_by post_id (filter (\<lambda>q. post_id q = P) (posts d)) = Some p"
    by (simp add: first_post [OF pd p])
  have pe: "post_exists d P" using p by (force simp: post_exists_def)
  have goc: "get_or_create_interaction d n1 ty I P = Inr (dA, i0)"
    using fresh ex pe
    by (simp add: get_or_create_interaction_def none create_interaction_def Let_def i0 dA)
  have act: "interaction_state i0 \<in> set [''new'', ''fanned_out'']" by (simp add: i0)
  have cs: "fst (calculate_stats dA p True)
              = dA\<lparr>posts := save post_id (p\<lparr>post_stats := Some (stats_of dA p)\<rparr>) (posts d)\<rparr>"
    by (simp add: calculate_stats_eq dA)
  show ?thesis
    using act by (simp add: interact_post_def fp p(2) goc cs del: set_simps)
qed

lemma interact_existing_active:
  assumes pd: "distinct (map post_id (posts d))" and p: "p \<in> set (posts d)" "post_id p = P"
    and one: "filter (\<lambda>i. interaction_type i = ty \<and> interaction_identity i = I
                             \<and> interaction_post i = P) (interactions d) = [i]"
    and act: "interaction_state i \<in> set [''new'', ''fanned_out'']"
  shows "interact_post d n P I ty
           = Inr (d\<lparr>posts := save post_id (p\<lparr>post_stats := Some (stats_of d p)\<rparr>) (posts d)\<rparr>,
                  Some i)"
proof -
  have fp: "first_by post_id (filter (\<lambda>q. post_id q = P) (posts d)) = Some p"
    by (simp add: first_post [OF pd p])
  have goc: "get_or_create_interaction d n ty I P = Inr (d, i)"
    by (simp add: get_or_create_interaction_def one)
  show ?thesis
    using act by (simp add: interact_post_def fp p(2) goc calculate_stats_eq del: set_simps)
qed

lemma uninteract_single:
  assumes pd: "distinct (map post_id (posts d))" and p: "p \<in> set (posts d)" "post_id p = P"
    and one: "filter (\<lambda>i. interaction_type i = ty \<and> interaction_identity i = I
                             \<and> interaction_post i = P) (interactions d) = [i]"
    and d': "d' = d\<lparr>interactions := save interaction_id (i\<lparr>interaction_state := ''undone''\<rparr>)
                                       (interactions d)\<rparr>"
  shows "uninteract_post d P I ty
           = d'\<lparr>posts := save post_id (p\<lparr>post_stats := Some (stats_of d' p)\<rparr>) (posts d)\<rparr>"
proof -
  have fp: "first_by post_id (filter (\<lambda>q. post_id q = P) (posts d)) = Some p"
    by (simp add: first_post [OF pd p])
  show ?thesis
    by (simp add: uninteract_post_def fp p(2) one calculate_stats_eq d' Let_def)
qed

lemma uninteract_none:
  assumes pd: "distinct (map post_id (posts d))" and p: "p \<in> set (posts d)" "post_id p = P"
    and none: "filter (\<lambda>i. interaction_type i = ty \<and> interaction_identity i = I
                              \<and> interaction_post i = P) (interactions d) = []"
  shows "uninteract_post d P I ty
           = d\<lparr>posts := save post_id (p\<lparr>post_stats := Some (stats_of d p)\<rparr>) (posts d)\<rparr>"
proof -
  have fp: "first_by post_id (filter (\<lambda>q. post_id q = P) (posts d)) = Some p"
    by (simp add: first_post [OF pd p])
  show ?thesis
    by (simp add: uninteract_post_def fp p(2) none calculate_stats_eq Let_def)
qed

lemma get_post_stats_saved:
  assumes "distinct (map post_id ps)" "q0 \<in> set ps" "post_id q0 = P" "post_id q = P"
  shows "get_post_stats (d\<lparr>posts := save post_id q ps\<rparr>) P
           = (case post_stats q of None \<Rightarrow> [] | Some st \<Rightarrow> st)"
proof -
  have one: "filter (\<lambda>r. post_id r = P) ps = [q0]"
    using filter_key_unique [OF assms(1,2)] assms(3) by simp
  have "filter (\<lambda>r. post_id r = P) (save post_id q ps) = [q]
        \<and> distinct (map post_id (save post_id q ps))"
    by (rule save_keeps_single [OF assms(1) one]) (use assms in simp_all)
  then show ?thesis by (simp add: get_post_stats_def)
qed

lemma save_twice:
  assumes "x \<in> set tbl" "pk x' = pk x" "pk x'' = pk x"
  shows "save pk x'' (save pk x' tbl) = save pk x'' tbl"
proof -
  have a: "pk x' \<in> set (map pk tbl)" "pk x'' \<in> set (map pk tbl)" using assms by force+
  have b: "pk x'' \<in> set (map pk (save pk x' tbl))"
    using save_keys [OF assms(1,2)] a(2) by simp
  have m: "map (\<lambda>r. if pk r = pk x'' then x'' else r) (map (\<lambda>r. if pk r = pk x' then x' else r) ys)
             = map (\<lambda>r. if pk r = pk x'' then x'' else r) ys" for ys
    using assms(2,3) by (induction ys) auto
  have "save pk x'' (save pk x' tbl)
          = map (\<lambda>r. if pk r = pk x'' then x'' else r) (save pk x' tbl)"
    by (rule save_present [OF b])
  also have "\<dots> = map (\<lambda>r. if pk r = pk x'' then x'' else r)
                      (map (\<lambda>r. if pk r = pk x' then x' else r) tbl)"
    by (simp only: save_present [OF a(1)])
  also have "\<dots> = map (\<lambda>r. if pk r = pk x'' then x'' else r) tbl" by (rule m)
  also have "\<dots> = save pk x'' tbl" by (simp only: save_present [OF a(2)])
  finally show ?thesis .
qed

lemma like_toggle_aux:
  assumes pd: "distinct (map post_id (posts d))" and p: "p \<in> set (posts d)" "post_id p = P"
    and ex: "identity_exists d I"
    and none: "filter (\<lambda>i. interaction_type i = ''like'' \<and> interaction_identity i = I
                              \<and> interaction_post i = P) (interactions d) = []"
    and fresh: "n1 \<notin> set (map interaction_id (interactions d))"
    and i0: "i0 = \<lparr>interaction_id = n1, interaction_state = ''new'', interaction_type = ''like'',
                    interaction_identity = I, interaction_post = P\<rparr>"
    and dA: "dA = d\<lparr>interactions := interactions d @ [i0]\<rparr>"
    and p': "p' = p\<lparr>post_stats := Some (stats_of dA p)\<rparr>"
    and d1: "d1 = dA\<lparr>posts := save post_id p' (posts d)\<rparr>"
    and dU: "dU = d1\<lparr>interactions := interactions d @ [i0\<lparr>interaction_state := ''undone''\<rparr>]\<rparr>"
  shows "like_post d n1 P I = Inr (d1, Some i0)"
    and "like_post d1 n2 P I = Inr (d1, Some i0)"
    and "interactions d1 = interactions d @ [i0]"
    and "get_post_stats d1 P = stats_of dA p"
    and "unlike_post d1 P I
           = dU\<lparr>posts := save post_id (p\<lparr>post_stats := Some (stats_of dU p')\<rparr>) (posts d)\<rparr>"
    and "get_post_stats (unlike_post d1 P I) P = stats_of dU p'"
proof -
  let ?L = "\<lambda>i. interaction_type i = ''like'' \<and> interaction_identity i = I \<and> interaction_post i = P"
  show first: "like_post d n1 P I = Inr (d1, Some i0)"
    unfolding like_post_def d1 p' by (rule interact_new [OF pd p ex none fresh i0 dA])
  show ints: "interactions d1 = interactions d @ [i0]" by (simp add: d1 dA)
  have posts1: "posts d1 = save post_id p' (posts d)" by (simp add: d1)
  have pk': "post_id p' = post_id p" by (simp add: p')
  have row: "save post_id p' (posts d) = map (\<lambda>r. if r = p then p' else r) (posts d)"
    by (rule save_row [OF pd p(1) pk'])
  have mem1: "p' \<in> set (posts d1)" using p(1) by (force simp: posts1 row)
  have keys1: "map post_id (posts d1) = map post_id (posts d)"
    unfolding posts1 by (rule save_keys [OF p(1) pk'])
  have pd1: "distinct (map post_id (posts d1))" using pd by (simp only: keys1)
  have pP: "post_id p' = P" using p(2) pk' by simp
  have one1: "filter ?L (interactions d1) = [i0]" by (simp add: ints none i0)
  have act: "interaction_state i0 \<in> set [''new'', ''fanned_out'']" by (simp add: i0)
  have pdA: "distinct (map post_id (posts dA))" and pA: "p \<in> set (posts dA)"
    using pd p(1) by (simp_all add: dA)
  have st1: "stats_of d1 p' = stats_of dA p"
    using stats_of_after_save [OF pdA pA, of "Some (stats_of dA p)"]
    by (simp add: d1 p' dA)
  have same: "p'\<lparr>post_stats := Some (stats_of d1 p')\<rparr> = p'"
    unfolding st1 by (simp add: p')
  have "like_post d1 n2 P I
          = Inr (d1\<lparr>posts := save post_id (p'\<lparr>post_stats := Some (stats_of d1 p')\<rparr>) (posts d1)\<rparr>,
                 Some i0)"
    unfolding like_post_def by (rule interact_existing_active [OF pd1 mem1 pP one1 act])
  also have "save post_id (p'\<lparr>post_stats := Some (stats_of d1 p')\<rparr>) (posts d1) = posts d1"
    unfolding same by (rule save_same [OF pd1 mem1])
  finally show "like_post d1 n2 P I = Inr (d1, Some i0)" by simp
  show "get_post_stats d1 P = stats_of dA p"
    unfolding d1 using get_post_stats_saved [OF pd p(1,2) pP, of dA] by (simp add: p')
  have svi: "save interaction_id (i0\<lparr>interaction_state := ''undone''\<rparr>) (interactions d @ [i0])
               = interactions d @ [i0\<lparr>interaction_state := ''undone''\<rparr>]"
    by (rule save_after_append) (use fresh in \<open>simp_all add: i0\<close>)
  have dU': "dU = d1\<lparr>interactions := save interaction_id (i0\<lparr>interaction_state := ''undone''\<rparr>)
                                          (interactions d1)\<rparr>"
    by (simp add: dU ints svi)
  have "unlike_post d1 P I
          = dU\<lparr>posts := save post_id (p'\<lparr>post_stats := Some (stats_of dU p')\<rparr>) (posts d1)\<rparr>"
    unfolding unlike_post_def by (rule uninteract_single [OF pd1 mem1 pP one1 dU'])
  also have "save post_id (p'\<lparr>post_stats := Some (stats_of dU p')\<rparr>) (posts d1)
               = save post_id (p'\<lparr>post_stats := Some (stats_of dU p')\<rparr>) (posts d)"
    unfolding posts1 by (rule save_twice [OF p(1)]) (simp_all add: p')
  also have "p'\<lparr>post_stats := Some (stats_of dU p')\<rparr> = p\<lparr>post_stats := Some (stats_of dU p')\<rparr>"
    by (simp add: p')
  finally show un: "unlike_post d1 P I
           = dU\<lparr>posts := save post_id (p\<lparr>post_stats := Some (stats_of dU p')\<rparr>) (posts d)\<rparr>" .
  show "get_post_stats (unlike_post d1 P I) P = stats_of dU p'"
    unfolding un using get_post_stats_saved [OF pd p(1,2), of "p\<lparr>post_stats := Some (stats_of dU p')\<rparr>" dU]
    by (simp add: p(2))
qed

text \<open>
  Claim C4, as amended.  Let \<open>p\<close> be the stored post with key \<open>P\<close> (post keys distinct),
  \<open>I\<close> an existing identity with no like interaction on \<open>P\<close>, and \<open>n1\<close> an unused
  interaction key.  Then \<open>like_post\<close> succeeds; calling it twice returns the same row and
  leaves the same state as calling it once; afterwards exactly one like row of \<open>(I, P)\<close>
  is active and \<open>stats["likes"]\<close> is one more than the number of active likes \<open>P\<close> had
  from others (so 1 when it had none).  A following \<open>unlike_post\<close> leaves no active like
  row of \<open>(I, P)\<close> and \<open>stats["likes"]\<close> equal to the number of active likes from
  others (so 0 when there are none).  \<open>unlike_post\<close> when no like row of \<open>(I, P)\<close> exists
  changes no table but the post table, where it stores the recomputed statistics of \<open>P\<close>.
\<close>

theorem like_toggle:
  assumes pd: "distinct (map post_id (posts d))" and p: "p \<in> set (posts d)" "post_id p = P"
    and ex: "identity_exists d I"
    and none: "filter (\<lambda>i. interaction_type i = ''like'' \<and> interaction_identity i = I
                              \<and> interaction_post i = P) (interactions d) = []"
    and fresh: "n1 \<notin> set (map interaction_id (interactions d))"
  shows "\<exists>d1 i0.
           like_post d n1 P I = Inr (d1, Some i0)
         \<and> like_twice d n1 n2 P I = Inr (d1, Some i0)
         \<and> filter (\<lambda>i. interaction_type i = ''like'' \<and> interaction_identity i = I
                        \<and> interaction_post i = P
                        \<and> interaction_state i \<in> set [''new'', ''fanned_out''])
              (interactions d1) = [i0]
         \<and> map_of (get_post_stats d1 P) ''likes''
             = Some (Suc (length (filter (\<lambda>i. interaction_post i = P
                                            \<and> interaction_type i = ''like''
                                            \<and> interaction_state i \<in> set [''new'', ''fanned_out''])
                                     (interactions d))))
         \<and> filter (\<lambda>i. interaction_type i = ''like'' \<and> interaction_identity i = I
                        \<and> interaction_post i = P
                        \<and> interaction_state i \<in> set [''new'', ''fanned_out''])
              (interactions (unlike_post d1 P I)) = []
         \<and> map_of (get_post_stats (unlike_post d1 P I) P) ''likes''
             = Some (length (filter (\<lambda>i. interaction_post i = P
                                       \<and> interaction_type i = ''like''
                                       \<and> interaction_state i \<in> set [''new'', ''fanned_out''])
                                (interactions d)))
         \<and> unlike_post d P I
             = d\<lparr>posts := save post_id (p\<lparr>post_stats := Some (stats_of d p)\<rparr>) (posts d)\<rparr>"
proof -
  let ?L = "\<lambda>i. interaction_type i = ''like'' \<and> interaction_identity i = I \<and> interaction_post i = P"
  let ?B = "\<lambda>i. interaction_type i = ''like'' \<and> interaction_identity i = I
                 \<and> interaction_post i = P
                 \<and> interaction_state i \<in> set [''new'', ''fanned_out'']"
  let ?A = "\<lambda>i. interaction_post i = P \<and> interaction_type i = ''like''
                 \<and> interaction_state i \<in> set [''new'', ''fanned_out'']"
  define i0 where "i0 = \<lparr>interaction_id = n1, interaction_state = ''new'',
      interaction_type = ''like'', interaction_identity = I, interaction_post = P\<rparr>"
  define dA where "dA = d\<lparr>interactions := interactions d @ [i0]\<rparr>"
  define p' where "p' = p\<lparr>post_stats := Some (stats_of dA p)\<rparr>"
  define d1 where "d1 = dA\<lparr>posts := save post_id p' (posts d)\<rparr>"
  define dU where "dU = d1\<lparr>interactions := interactions d @ [i0\<lparr>interaction_state := ''undone''\<rparr>]\<rparr>"
  note aux = like_toggle_aux [OF pd p ex none fresh i0_def dA_def p'_def d1_def dU_def]
  have once: "like_post d n1 P I = Inr (d1, Some i0)" by (rule aux(1))
  have twice: "like_twice d n1 n2 P I = Inr (d1, Some i0)"
    by (simp add: like_twice_def once aux(2))
  have noB: "filter ?B (interactions d) = []"
  proof -
    have "\<forall>i\<in>set (interactions d). \<not> ?L i" using none by (simp add: filter_empty_conv)
    then have "\<forall>i\<in>set (interactions d). \<not> ?B i" by blast
    then show ?thesis by (simp add: filter_empty_conv)
  qed
  have one: "filter ?B (interactions d1) = [i0]"
    unfolding aux(3) filter_append noB by (simp add: i0_def)
  have likes1: "map_of (get_post_stats d1 P) ''likes'' = Some (Suc (length (filter ?A (interactions d))))"
    unfolding aux(4) by (simp add: stats_of_def dA_def p(2) i0_def)
  have intU: "interactions (unlike_post d1 P I)
                = interactions d @ [i0\<lparr>interaction_state := ''undone''\<rparr>]"
    unfolding aux(5) by (simp add: dU_def)
  have zero: "filter ?B (interactions (unlike_post d1 P I)) = []"
    unfolding intU filter_append noB by (simp add: i0_def)
  have likesU: "map_of (get_post_stats (unlike_post d1 P I) P) ''likes''
                  = Some (length (filter ?A (interactions d)))"
    unfolding aux(6) by (simp add: stats_of_def dU_def p'_def p(2) i0_def)
  have noop: "unlike_post d P I
                = d\<lparr>posts := save post_id (p\<lparr>post_stats := Some (stats_of d p)\<rparr>) (posts d)\<rparr>"
    unfolding unlike_post_def by (rule uninteract_none [OF pd p none])
  from once twice one likes1 zero likesU noop show ?thesis by blast
qed

text \<open>
  The theorem on the example state, bob liking alice's post, which carol likes already:
  the likes are 2 after his like and 1 after his unlike.
\<close>

theorem like_toggle_witness:
  "distinct (map post_id (posts example_db))
   \<and> hd (posts example_db) \<in> set (posts example_db)
   \<and> post_id (hd (posts example_db)) = 5
   \<and> identity_exists example_db 2
   \<and> filter (\<lambda>i. interaction_type i = ''like'' \<and> interaction_identity i = 2
                  \<and> interaction_post i = 5) (interactions example_db) = []
   \<and> (900::int) \<notin> set (map interaction_id (interactions example_db))
   \<and> (\<exists>d1 i0. like_post example_db 900 5 2 = Inr (d1, Some i0)
         \<and> like_twice example_db 900 901 5 2 = Inr (d1, Some i0)
         \<and> map_of (get_post_stats d1 5) ''likes'' = Some 2
         \<and> map_of (get_post_stats (unlike_post d1 5 2) 5) ''likes'' = Some 1)"
proof -
  have h1: "distinct (map post_id (posts example_db))" by (simp add: example_db_def)
  have h2: "hd (posts example_db) \<in> set (posts example_db)" by (simp add: example_db_def)
  have h3: "post_id (hd (posts example_db)) = 5" by (simp add: example_db_def)
  have h4: "identity_exists example_db 2" by (simp add: example_db_def identity_exists_def)
  have h5: "filter (\<lambda>i. interaction_type i = ''like'' \<and> interaction_identity i = 2
                  \<and> interaction_post i = 5) (interactions example_db) = []"
    by (simp add: example_db_def)
  have h6: "(900::int) \<notin> set (map interaction_id (interactions example_db))"
    by (simp add: example_db_def)
  have n: "length (filter (\<lambda>i. interaction_post i = 5 \<and> interaction_type i = ''like''
                              \<and> interaction_state i \<in> set [''new'', ''fanned_out''])
                     (interactions example_db)) = 1"
    by (simp add: example_db_def)
  from like_toggle [OF h1 h2 h3 h4 h5 h6, of 901] obtain d1 i0 where
      a: "like_post example_db 900 5 2 = Inr (d1, Some i0)"
    and b: "like_twice example_db 900 901 5 2 = Inr (d1, Some i0)"
    and c: "map_of (get_post_stats d1 5) ''likes'' = Some (Suc (length (filter (\<lambda>i. interaction_post i = 5 \<and> interaction_type i = ''like''
                              \<and> interaction_state i \<in> set [''new'', ''fanned_out''])
                     (interactions example_db))))"
    and e: "map_of (get_post_stats (unlike_post d1 5 2) 5) ''likes'' = Some (length (filter (\<lambda>i. interaction_post i = 5 \<and> interaction_type i = ''like''
                              \<and> interaction_state i \<in> set [''new'', ''fanned_out''])
                     (interactions example_db)))"
    by blast
  have c': "map_of (get_post_stats d1 5) ''likes'' = Some 2" using c unfolding n by simp
  have e': "map_of (get_post_stats (unlike_post d1 5 2) 5) ''likes'' = Some 1"
    using e unfolding n by simp
  from h1 h2 h3 h4 h5 h6 a b c' e' show ?thesis by blast
qed

text \<open>
  Claim C4 as stated fails on a post that others like.  In the example state bob has no
  like interaction on alice's post 5, which carol likes; after bob has called
  \<open>like_post\<close> twice the post's \<open>stats["likes"]\<close> is 2, not 1.
\<close>

theorem like_twice_counterexample:
  "like_twice example_db 900 901 5 2 =
     Inr (example_db
            \<lparr>posts :=
               [\<lparr>post_id = 5, post_author = 1,
                  post_object_uri = Some ''https://local.example/@alice/posts/5/'',
                  post_in_reply_to = None,
                  post_stats = Some [(''likes'', 2), (''boosts'', 1), (''replies'', 1)]\<rparr>,
                \<lparr>post_id = 6, post_author = 2,
                  post_object_uri = Some ''https://remote.example/notes/6'',
                  post_in_reply_to = Some ''https://local.example/@alice/posts/5/'',
                  post_stats = None\<rparr>],
             interactions :=
               [\<lparr>interaction_id = 100, interaction_state = ''new'', interaction_type = ''like'',
                  interaction_identity = 3, interaction_post = 5\<rparr>,
                \<lparr>interaction_id = 101, interaction_state = ''fanned_out'',
                  interaction_type = ''boost'', interaction_identity = 2, interaction_post = 5\<rparr>,
                \<lparr>interaction_id = 900, interaction_state = ''new'', interaction_type = ''like'',
                  interaction_identity = 2, interaction_post = 5\<rparr>]\<rparr>,
          Some \<lparr>interaction_id = 900, interaction_state = ''new'', interaction_type = ''like'',
                 interaction_identity = 2, interaction_post = 5\<rparr>)"
  by (simp add: like_twice_def like_post_def interact_post_def get_or_create_interaction_def
        create_interaction_def identity_exists_def post_exists_def calculate_stats_def
        save_def example_db_def Let_def)

section \<open>Resolving a handle to its canonical identity\<close>

lemma get_remote_domain_ok:
  assumes dist: "distinct (map domain_domain (domains d))"
    and remote: "\<forall>r\<in>set (domains d). domain_domain r = lower dm \<longrightarrow> \<not> domain_local r"
  shows "\<exists>d1 r. get_remote_domain d dm = Inr (d1, r)
           \<and> domain_domain r = lower dm
           \<and> identities d1 = identities d
           \<and> lower dm \<in> set (map domain_domain (domains d1))"
proof (cases "lower dm \<in> set (map domain_domain (domains d))")
  case True
  then obtain r where r: "r \<in> set (domains d)" "domain_domain r = lower dm" by auto
  have "filter (\<lambda>x. domain_domain x = domain_domain r) (domains d) = [r]"
    by (rule filter_key_unique [OF dist r(1)])
  moreover have "filter (\<lambda>x. domain_domain x = lower dm \<and> \<not> domain_local x) (domains d)
                   = filter (\<lambda>x. domain_domain x = lower dm) (domains d)"
    by (rule filter_cong [OF refl]) (use remote in blast)
  ultimately have "filter (\<lambda>x. domain_domain x = lower dm \<and> \<not> domain_local x) (domains d) = [r]"
    using r(2) by simp
  then have "get_remote_domain d dm = Inr (d, r)" by (simp add: get_remote_domain_def)
  then show ?thesis using r True by blast
next
  case False
  then have "filter (\<lambda>x. domain_domain x = lower dm \<and> \<not> domain_local x) (domains d) = []"
    by (force simp: filter_empty_conv)
  then have "get_remote_domain d dm
               = Inr (d\<lparr>domains := domains d @
                        [\<lparr>domain_domain = lower dm, domain_service_domain = None,
                           domain_local = False\<rparr>]\<rparr>,
                      \<lparr>domain_domain = lower dm, domain_service_domain = None,
                        domain_local = False\<rparr>)"
    using False by (simp add: get_remote_domain_def Let_def)
  then show ?thesis by force
qed

lemma create_identity_ok:
  assumes "new_id \<notin> set (map identity_id (identities d))"
    and "uri \<notin> set (map identity_actor_uri (identities d))"
    and "(Some u, Some dn) \<notin> set (map (\<lambda>i. (identity_username i, identity_domain i)) (identities d))"
    and "dn \<in> set (map domain_domain (domains d))"
  shows "create_identity d new_id (Some uri) u dn False
           = Inr (d\<lparr>identities := identities d @
                    [\<lparr>identity_id = new_id, identity_actor_uri = uri, identity_username = Some u,
                       identity_domain = Some dn, identity_local = False\<rparr>]\<rparr>,
                  \<lparr>identity_id = new_id, identity_actor_uri = uri, identity_username = Some u,
                    identity_domain = Some dn, identity_local = False\<rparr>)"
  using assms by (simp add: create_identity_def Let_def)

lemma resolve_existing_uri:
  assumes nat: "\<not> startswith username ''@''"
    and miss: "filter (\<lambda>i. iexact (identity_username i) username
                             \<and> identity_domain i = Some (lower n)) (identities d) = []"
    and wfr: "fetch_webfinger str_format client_get (username @ ''@'' @ lower n) hm = Inr (Some uri, Some hdl)"
    and uniq: "distinct (map identity_actor_uri (identities d))"
    and x: "x \<in> set (identities d)" "identity_actor_uri x = uri"
  shows "by_username_and_domain d new_id str_format client_get hm username (DomainName n) True False
           = (d, Inr (Some x))"
proof -
  have "filter (\<lambda>i. identity_actor_uri i = identity_actor_uri x) (identities d) = [x]"
    by (rule filter_key_unique [OF uniq x(1)])
  then have f: "filter (\<lambda>i. identity_actor_uri i = uri) (identities d) = [x]"
    using x(2) by simp
  have wfr': "fetch_webfinger str_format client_get (username @ CHR ''@'' # lower n) hm = Inr (Some uri, Some hdl)"
    using wfr by simp
  show ?thesis
    using nat by (simp add: by_username_and_domain_def miss wfr' f)
qed

lemma resolve_creates:
  assumes nat: "\<not> startswith username ''@''"
    and miss: "filter (\<lambda>i. iexact (identity_username i) username
                             \<and> identity_domain i = Some (lower n)) (identities d) = []"
    and wfr: "fetch_webfinger str_format client_get (username @ ''@'' @ lower n) hm = Inr (Some uri, Some hdl)"
    and new: "uri \<notin> set (map identity_actor_uri (identities d))"
    and hdl: "split_at CHR ''@'' hdl = [u, dm]"
    and fresh: "new_id \<notin> set (map identity_id (identities d))"
    and pair: "(Some u, Some (lower dm))
                 \<notin> set (map (\<lambda>i. (identity_username i, identity_domain i)) (identities d))"
    and dist: "distinct (map domain_domain (domains d))"
    and remote: "\<forall>r\<in>set (domains d). domain_domain r = lower dm \<longrightarrow> \<not> domain_local r"
  shows "\<exists>d'. by_username_and_domain d new_id str_format client_get hm username (DomainName n) True False
                 = (d', Inr (Some \<lparr>identity_id = new_id, identity_actor_uri = uri,
                                   identity_username = Some u, identity_domain = Some (lower dm),
                                   identity_local = False\<rparr>))
             \<and> identities d' = identities d @
                  [\<lparr>identity_id = new_id, identity_actor_uri = uri,
                     identity_username = Some u, identity_domain = Some (lower dm),
                     identity_local = False\<rparr>]
             \<and> lower dm \<in> set (map domain_domain (domains d'))"
proof -
  let ?i = "\<lparr>identity_id = new_id, identity_actor_uri = uri,
              identity_username = Some u, identity_domain = Some (lower dm),
              identity_local = False\<rparr>"
  have f: "filter (\<lambda>i. identity_actor_uri i = uri) (identities d) = []"
    by (rule filter_key_absent [OF new])
  from get_remote_domain_ok [OF dist remote] obtain d1 r where
      g: "get_remote_domain d dm = Inr (d1, r)" and rn: "domain_domain r = lower dm"
    and ids: "identities d1 = identities d"
    and dn: "lower dm \<in> set (map domain_domain (domains d1))"
    by blast
  have c: "create_identity d1 new_id (Some uri) u (lower dm) False
             = Inr (d1\<lparr>identities := identities d1 @ [?i]\<rparr>, ?i)"
    by (rule create_identity_ok) (use fresh new pair dn in \<open>simp_all add: ids\<close>)
  have wfr': "fetch_webfinger str_format client_get (username @ CHR ''@'' # lower n) hm = Inr (Some uri, Some hdl)"
    using wfr by simp
  have "by_username_and_domain d new_id str_format client_get hm username (DomainName n) True False
          = (d1\<lparr>identities := identities d1 @ [?i]\<rparr>, Inr (Some ?i))"
    using nat by (simp add: by_username_and_domain_def miss wfr' f hdl g rn c)
  then show ?thesis using ids dn by force
qed

text \<open>
  Claim C7, as amended.  Let \<open>by_username_and_domain\<close> be called with \<open>fetch=True\<close> and a
  domain name (a string), let no identity match \<open>(username, domain)\<close>, and let webfinger
  discovery yield the actor URI \<open>uri\<close> and the subject handle \<open>hdl\<close>.  If an identity
  with that actor URI exists it is returned and the state is unchanged.  Otherwise, with
  \<open>hdl\<close> of the form \<open>u@dm\<close> and no constraint of the identity or domain table in the
  way, the identity created and returned is remote, has the actor URI \<open>uri\<close>, the
  subject's username \<open>u\<close> and the subject's domain in lower case, and is the one row
  added to the identity table.
\<close>

theorem resolve_canonical_subject:
  assumes nat: "\<not> startswith username ''@''"
    and miss: "filter (\<lambda>i. iexact (identity_username i) username
                             \<and> identity_domain i = Some (lower n)) (identities d) = []"
    and wfr: "fetch_webfinger str_format client_get (username @ ''@'' @ lower n) hm = Inr (Some uri, Some hdl)"
    and uniq: "distinct (map identity_actor_uri (identities d))"
  shows "(\<forall>x. x \<in> set (identities d) \<and> identity_actor_uri x = uri \<longrightarrow>
            by_username_and_domain d new_id str_format client_get hm username (DomainName n) True False
              = (d, Inr (Some x)))
     \<and> (uri \<notin> set (map identity_actor_uri (identities d))
          \<and> split_at CHR ''@'' hdl = [u, dm]
          \<and> new_id \<notin> set (map identity_id (identities d))
          \<and> (Some u, Some (lower dm))
               \<notin> set (map (\<lambda>i. (identity_username i, identity_domain i)) (identities d))
          \<and> distinct (map domain_domain (domains d))
          \<and> (\<forall>r\<in>set (domains d). domain_domain r = lower dm \<longrightarrow> \<not> domain_local r)
        \<longrightarrow> (\<exists>d'. by_username_and_domain d new_id str_format client_get hm username (DomainName n) True False
                     = (d', Inr (Some \<lparr>identity_id = new_id, identity_actor_uri = uri,
                                       identity_username = Some u,
                                       identity_domain = Some (lower dm),
                                       identity_local = False\<rparr>))
                 \<and> identities d' = identities d @
                      [\<lparr>identity_id = new_id, identity_actor_uri = uri,
                         identity_username = Some u, identity_domain = Some (lower dm),
                         identity_local = False\<rparr>]
                 \<and> lower dm \<in> set (map domain_domain (domains d'))))"
  using resolve_existing_uri [OF nat miss wfr uniq] resolve_creates [OF nat miss wfr]
  by blast

text \<open>
  The theorem on the example state, asked for \<open>bobby@Remote.Example\<close> with host-meta
  unreachable: an answer naming bob's actor URI returns bob, and an answer with the subject
  \<open>robert@social.example\<close> and an unknown actor URI creates \<open>robert@social.example\<close>.
\<close>

theorem resolve_canonical_subject_witness:
  "\<not> startswith ''bobby'' ''@''
   \<and> filter (\<lambda>i. iexact (identity_username i) ''bobby''
                  \<and> identity_domain i = Some (lower ''Remote.Example'')) (identities example_db) = []
   \<and> fetch_webfinger format_uri (answering example_webfinger)
        (''bobby'' @ ''@'' @ lower ''Remote.Example'') HostMetaRequestError
        = Inr (Some ''https://social.example/users/robert'', Some ''robert@social.example'')
   \<and> fetch_webfinger format_uri (answering example_webfinger_bob)
        (''bobby'' @ ''@'' @ lower ''Remote.Example'') HostMetaRequestError
        = Inr (Some ''https://remote.example/users/bob'', Some ''bob@remote.example'')
   \<and> distinct (map identity_actor_uri (identities example_db))
   \<and> by_username_and_domain example_db 777 format_uri (answering example_webfinger_bob)
        HostMetaRequestError
        ''bobby'' (DomainName ''Remote.Example'') True False
        = (example_db,
           Inr (Some \<lparr>identity_id = 2, identity_actor_uri = ''https://remote.example/users/bob'',
                       identity_username = Some ''bob'',
                       identity_domain = Some ''remote.example'', identity_local = False\<rparr>))
   \<and> (\<exists>d'. by_username_and_domain example_db 777 format_uri (answering example_webfinger)
        HostMetaRequestError
               ''bobby'' (DomainName ''Remote.Example'') True False
               = (d', Inr (Some \<lparr>identity_id = 777,
                                 identity_actor_uri = ''https://social.example/users/robert'',
                                 identity_username = Some ''robert'',
                                 identity_domain = Some ''social.example'',
                                 identity_local = False\<rparr>))
           \<and> ''social.example'' \<in> set (map domain_domain (domains d')))"
proof -
  have lw: "lower ''Remote.Example'' = ''remote.example''"
    "lower ''remote.example'' = ''remote.example''"
    "lower ''social.example'' = ''social.example''"
    by (simp_all add: lower_def lower_char_def)
  have h1: "\<not> startswith ''bobby'' ''@''" by simp
  have h2: "filter (\<lambda>i. iexact (identity_username i) ''bobby''
                  \<and> identity_domain i = Some (lower ''Remote.Example'')) (identities example_db) = []"
    by (simp add: example_db_def iexact_def lower_def lower_char_def)
  have h3: "fetch_webfinger format_uri (answering example_webfinger)
        (''bobby'' @ ''@'' @ lower ''Remote.Example'') HostMetaRequestError
        = Inr (Some ''https://social.example/users/robert'', Some ''robert@social.example'')"
    by (simp add: lw fetch_webfinger_def fetch_webfinger_url_def example_webfinger_def
          format_uri_def answering_def)
  have h3b: "fetch_webfinger format_uri (answering example_webfinger_bob)
        (''bobby'' @ ''@'' @ lower ''Remote.Example'') HostMetaRequestError
        = Inr (Some ''https://remote.example/users/bob'', Some ''bob@remote.example'')"
    by (simp add: lw fetch_webfinger_def fetch_webfinger_url_def example_webfinger_bob_def
          format_uri_def answering_def)
  have h4: "distinct (map identity_actor_uri (identities example_db))"
    by (simp add: example_db_def)
  have bob: "\<lparr>identity_id = 2, identity_actor_uri = ''https://remote.example/users/bob'',
               identity_username = Some ''bob'', identity_domain = Some ''remote.example'',
               identity_local = False\<rparr> \<in> set (identities example_db)"
    by (simp add: example_db_def)
  have a: "by_username_and_domain example_db 777 format_uri (answering example_webfinger_bob)
        HostMetaRequestError
        ''bobby'' (DomainName ''Remote.Example'') True False
        = (example_db,
           Inr (Some \<lparr>identity_id = 2, identity_actor_uri = ''https://remote.example/users/bob'',
                       identity_username = Some ''bob'',
                       identity_domain = Some ''remote.example'', identity_local = False\<rparr>))"
  proof -
    have al: "\<forall>x. x \<in> set (identities example_db)
                  \<and> identity_actor_uri x = ''https://remote.example/users/bob'' \<longrightarrow>
               by_username_and_domain example_db 777 format_uri (answering example_webfinger_bob)
        HostMetaRequestError
                 ''bobby'' (DomainName ''Remote.Example'') True False
                 = (example_db, Inr (Some x))"
      using resolve_canonical_subject [OF h1 h2 h3b h4, of 777 "''bob''" "''remote.example''"]
      by (rule conjunct1)
    show ?thesis
      using spec [OF al, of "\<lparr>identity_id = 2,
               identity_actor_uri = ''https://remote.example/users/bob'',
               identity_username = Some ''bob'', identity_domain = Some ''remote.example'',
               identity_local = False\<rparr>"] bob
      by simp
  qed
  have p1: "''https://social.example/users/robert''
              \<notin> set (map identity_actor_uri (identities example_db))"
    by (simp add: example_db_def)
  have p2: "split_at CHR ''@'' ''robert@social.example'' = [''robert'', ''social.example'']"
    by simp
  have p3: "(777::int) \<notin> set (map identity_id (identities example_db))"
    by (simp add: example_db_def)
  have p4: "(Some ''robert'', Some (lower ''social.example''))
               \<notin> set (map (\<lambda>i. (identity_username i, identity_domain i)) (identities example_db))"
    by (simp add: example_db_def lw)
  have p5: "distinct (map domain_domain (domains example_db))" by (simp add: example_db_def)
  have p6: "\<forall>r\<in>set (domains example_db).
              domain_domain r = lower ''social.example'' \<longrightarrow> \<not> domain_local r"
    by (simp add: example_db_def lw)
  have b: "\<exists>d'. by_username_and_domain example_db 777 format_uri (answering example_webfinger)
        HostMetaRequestError
               ''bobby'' (DomainName ''Remote.Example'') True False
               = (d', Inr (Some \<lparr>identity_id = 777,
                                 identity_actor_uri = ''https://social.example/users/robert'',
                                 identity_username = Some ''robert'',
                                 identity_domain = Some ''social.example'',
                                 identity_local = False\<rparr>))
           \<and> ''social.example'' \<in> set (map domain_domain (domains d'))"
    using resolve_canonical_subject [OF h1 h2 h3 h4, of 777 "''robert''" "''social.example''"]
      p1 p2 p3 p4 p5 p6
    unfolding lw by blast
  from h1 h2 h3 h3b h4 a b show ?thesis by blast
qed

text \<open>
  Claim C7 as stated fails when the domain is given as a \<open>Domain\<close> object.  Asked for
  \<open>bobby\<close> on the stored remote domain \<open>remote.example\<close>, with a webfinger answer whose
  subject is \<open>robert@social.example\<close>, the identity created has the subject's username
  but the domain that was supplied, \<open>remote.example\<close>, not the subject's.
\<close>

theorem resolve_domain_instance_counterexample:
  "by_username_and_domain example_db 777 format_uri (answering example_webfinger)
        HostMetaRequestError ''bobby''
     (DomainInstance \<lparr>domain_domain = ''remote.example'', domain_service_domain = None,
                      domain_local = False\<rparr>) True False
     = (example_db\<lparr>identities := identities example_db @
                       [\<lparr>identity_id = 777,
                          identity_actor_uri = ''https://social.example/users/robert'',
                          identity_username = Some ''robert'',
                          identity_domain = Some ''remote.example'',
                          identity_local = False\<rparr>]\<rparr>,
        Inr (Some \<lparr>identity_id = 777,
                    identity_actor_uri = ''https://social.example/users/robert'',
                    identity_username = Some ''robert'',
                    identity_domain = Some ''remote.example'',
                    identity_local = False\<rparr>))"
proof -
  have lw: "lower ''remote.example'' = ''remote.example''"
    by (simp add: lower_def lower_char_def)
  have fw: "fetch_webfinger format_uri (answering example_webfinger) ''bobby@remote.example''
              HostMetaRequestError
              = Inr (Some ''https://social.example/users/robert'', Some ''robert@social.example'')"
    by (simp add: lw fetch_webfinger_def fetch_webfinger_url_def example_webfinger_def
          format_uri_def answering_def)
  show ?thesis
    by (simp add: by_username_and_domain_def fw create_identity_def example_db_def iexact_def
          lower_def lower_char_def Let_def)
qed

end
